(* ===== verification/Prelude.thy ===== *)
theory Prelude
  imports Main "HOL-Library.Word" "HOL-Library.Monad_Syntax" "HOL-Library.Signed_Division"
begin

text \<open>
  The types and the lemmas every component shares.

  Machine integers are words of their width (\<open>uint8_t\<close> is \<open>8 word\<close>, and so on); a signed
  integer is the same word read with \<open>sint\<close>.  A C object is a list of bytes in a store;
  a pointer is an object number, and the null pointer is \<open>None\<close>.  An access outside its
  object, or through a null pointer, has no defined result in C: an operation that would
  make one returns \<open>None\<close>, so that \<open>f x = Some y\<close> says both that \<open>f\<close> returns \<open>y\<close> and that
  every memory access on the way was inside its object.
\<close>

unbundle bit_operations_syntax

named_theorems fault_simps \<open>when an operation is free of undefined behaviour, and its result\<close>
named_theorems frame_simps \<open>the fields an operation leaves unchanged\<close>

section \<open>Machine integers\<close>

type_synonym u8 = "8 word"
type_synonym u16 = "16 word"
type_synonym u32 = "32 word"
type_synonym u64 = "64 word"

text \<open>The low and the high byte of a 16-bit number, and the number they make.\<close>

definition lo8 :: "u16 \<Rightarrow> u8" where
  "lo8 x = ucast x"

definition hi8 :: "u16 \<Rightarrow> u8" where
  "hi8 x = ucast (drop_bit 8 x)"

definition u16_of :: "u8 \<Rightarrow> u8 \<Rightarrow> u16" where
  "u16_of hi lo = push_bit 8 (ucast hi) OR ucast lo"

lemma u16_of_hi8_lo8 [simp]: "u16_of (hi8 x) (lo8 x) = x"
  by (rule bit_word_eqI) (auto simp: u16_of_def hi8_def lo8_def bit_simps)

lemma hi8_u16_of [simp]: "hi8 (u16_of h l) = h"
  by (rule bit_word_eqI)
    (auto simp: u16_of_def hi8_def bit_simps dest: bit_imp_le_length)

lemma lo8_u16_of [simp]: "lo8 (u16_of h l) = l"
  by (rule bit_word_eqI) (auto simp: u16_of_def lo8_def bit_simps)

lemma u16_of_inject: "u16_of h l = u16_of h' l' \<longleftrightarrow> h = h' \<and> l = l'"
  by (metis hi8_u16_of lo8_u16_of)

text \<open>The little-endian bytes of a word, as the target stores them.\<close>

definition le_bytes :: "nat \<Rightarrow> 'w::len word \<Rightarrow> u8 list" where
  "le_bytes n w = map (\<lambda>i. ucast (drop_bit (8 * i) w)) [0..<n]"

fun le_word :: "u8 list \<Rightarrow> 'w::len word" where
  "le_word [] = 0"
| "le_word (b # bs) = ucast b OR push_bit 8 (le_word bs)"

lemma length_le_bytes [simp]: "length (le_bytes n w) = n"
  by (simp add: le_bytes_def)

lemma bit_le_word:
  "bit (le_word bs :: 'w::len word) i \<longleftrightarrow>
     i < LENGTH('w) \<and> i div 8 < length bs \<and> bit (bs ! (i div 8)) (i mod 8)"
proof (induction bs arbitrary: i)
  case Nil
  then show ?case by simp
next
  case (Cons b bs)
  show ?case
  proof (cases "i < 8")
    case True
    then show ?thesis by (auto simp: bit_simps)
  next
    case False
    then have "i div 8 = Suc ((i - 8) div 8)" "(i - 8) mod 8 = i mod 8"
      by (simp_all add: le_div_geq le_mod_geq)
    with False show ?thesis
      by (auto simp: bit_simps Cons.IH dest: bit_imp_le_length)
  qed
qed

lemma le_word_le_bytes [simp]:
  assumes "LENGTH('w::len) \<le> 8 * n"
  shows "le_word (le_bytes n (w :: 'w word)) = w"
proof (rule bit_word_eqI)
  fix i
  assume i: "i < LENGTH('w)"
  with assms have "i div 8 < n" by (simp add: less_mult_imp_div_less mult.commute)
  moreover have "8 * (i div 8) + i mod 8 = i" by simp
  ultimately show "bit (le_word (le_bytes n w) :: 'w word) i = bit w i"
    using i by (simp add: bit_le_word le_bytes_def bit_simps)
qed

lemma le_bytes_nth: "i < n \<Longrightarrow> le_bytes n w ! i = ucast (drop_bit (8 * i) w)"
  by (simp add: le_bytes_def)

lemma le_bytes_le_word [simp]:
  assumes "8 * length bs \<le> LENGTH('w::len)"
  shows "le_bytes (length bs) (le_word bs :: 'w word) = bs"
proof (rule nth_equalityI)
  fix i
  assume "i < length (le_bytes (length bs) (le_word bs :: 'w word))"
  then have i: "i < length bs" by simp
  show "le_bytes (length bs) (le_word bs :: 'w word) ! i = bs ! i"
  proof (rule bit_word_eqI)
    fix j
    assume j: "j < LENGTH(8)"
    then have "8 * i + j < LENGTH('w)" using i assms by simp
    with i j show "bit (le_bytes (length bs) (le_word bs :: 'w word) ! i) j = bit (bs ! i) j"
      by (simp add: le_bytes_nth bit_simps bit_le_word)
  qed
qed simp

section \<open>Objects in memory\<close>

type_synonym mem = "nat \<Rightarrow> u8 list option"
type_synonym ptr = "nat option"

text \<open>\<open>mem_object\<close> is the object a pointer points to, \<open>mem_read\<close> its first \<open>n\<close> bytes.\<close>

definition mem_object :: "mem \<Rightarrow> ptr \<Rightarrow> u8 list option" where
  "mem_object m p = Option.bind p m"

definition mem_read :: "mem \<Rightarrow> ptr \<Rightarrow> nat \<Rightarrow> u8 list option" where
  "mem_read m p n =
     do { bs \<leftarrow> mem_object m p; if n \<le> length bs then Some (take n bs) else None }"

definition mem_write :: "mem \<Rightarrow> ptr \<Rightarrow> u8 list \<Rightarrow> mem option" where
  "mem_write m p new =
     (case p of
        None \<Rightarrow> None
      | Some a \<Rightarrow>
          (case m a of
             None \<Rightarrow> None
           | Some bs \<Rightarrow>
               if length new \<le> length bs then Some (m(a \<mapsto> new @ drop (length new) bs))
               else None))"

text \<open>The object at \<open>p\<close> exists and has at least \<open>n\<close> bytes.\<close>

definition has_bytes :: "mem \<Rightarrow> ptr \<Rightarrow> nat \<Rightarrow> bool" where
  "has_bytes m p n = (case mem_object m p of None \<Rightarrow> False | Some bs \<Rightarrow> n \<le> length bs)"

lemma mem_object_simps [simp]:
  "mem_object m None = None"
  "mem_object m (Some a) = m a"
  by (simp_all add: mem_object_def)

lemma has_bytes_None [simp]: "\<not> has_bytes m None n"
  by (simp add: has_bytes_def)

lemma has_bytesE:
  assumes "has_bytes m p n"
  obtains a bs where "p = Some a" "m a = Some bs" "n \<le> length bs"
  using assms by (cases p) (auto simp: has_bytes_def split: option.splits)

lemma has_bytes_mono: "has_bytes m p n \<Longrightarrow> k \<le> n \<Longrightarrow> has_bytes m p k"
  by (auto simp: has_bytes_def split: option.splits)

lemma mem_read_Some [fault_simps]: "has_bytes m p n \<Longrightarrow> mem_read m p n = Some (take n (the (mem_object m p)))"
  by (auto simp: mem_read_def elim: has_bytesE)

lemma mem_read_length: "mem_read m p n = Some bs \<Longrightarrow> length bs = n"
  by (auto simp: mem_read_def Option.bind_eq_Some_conv split: if_splits)

lemma mem_write_Some:
  "has_bytes m p (length new) \<Longrightarrow> \<exists>m'. mem_write m p new = Some m'"
  by (auto simp: mem_write_def elim!: has_bytesE)

lemma mem_write_read:
  "mem_write m p new = Some m' \<Longrightarrow> n = length new \<Longrightarrow> mem_read m' p n = Some new"
  by (auto simp: mem_write_def mem_read_def split: option.splits if_splits)

lemma mem_write_other:
  "mem_write m p new = Some m' \<Longrightarrow> p \<noteq> Some b \<Longrightarrow> m' b = m b"
  by (auto simp: mem_write_def split: option.splits if_splits)

text \<open>Two stores of the same shape: the same objects, each of the same size.\<close>

definition same_shape :: "mem \<Rightarrow> mem \<Rightarrow> bool" where
  "same_shape m m' \<longleftrightarrow> (\<forall>a. map_option length (m' a) = map_option length (m a))"

lemma same_shape_refl [simp]: "same_shape m m"
  by (simp add: same_shape_def)

lemma same_shape_trans: "same_shape m m' \<Longrightarrow> same_shape m' m'' \<Longrightarrow> same_shape m m''"
  by (simp add: same_shape_def)

lemma same_shape_has_bytes:
  assumes "same_shape m m'"
  shows "has_bytes m' p n = has_bytes m p n"
proof (cases p)
  case None
  then show ?thesis by simp
next
  case (Some a)
  from assms have "map_option length (m' a) = map_option length (m a)"
    by (simp add: same_shape_def)
  with Some show ?thesis
    by (cases "m a"; cases "m' a") (auto simp: has_bytes_def)
qed

lemma mem_write_same_shape: "mem_write m p new = Some m' \<Longrightarrow> same_shape m m'"
  by (auto simp: mem_write_def same_shape_def split: option.splits if_splits)

text \<open>A byte of a buffer that is modelled by its contents alone.\<close>

definition byte_at :: "u8 list \<Rightarrow> nat \<Rightarrow> u8 option" where
  "byte_at data i = (if i < length data then Some (data ! i) else None)"

lemma byte_at_Some [simp]: "i < length data \<Longrightarrow> byte_at data i = Some (data ! i)"
  by (simp add: byte_at_def)

text \<open>Bytes stored into a buffer at an offset.\<close>

definition put_bytes :: "nat \<Rightarrow> u8 list \<Rightarrow> u8 list \<Rightarrow> u8 list option" where
  "put_bytes off bs buf =
     (if off + length bs \<le> length buf then Some (take off buf @ bs @ drop (off + length bs) buf) else None)"

definition get_bytes :: "nat \<Rightarrow> nat \<Rightarrow> u8 list \<Rightarrow> u8 list option" where
  "get_bytes off k buf = (if off + k \<le> length buf then Some (take k (drop off buf)) else None)"

lemma put_bytes_Some:
  "off + length bs \<le> length buf \<Longrightarrow>
     \<exists>buf'. put_bytes off bs buf = Some buf' \<and> length buf' = length buf"
  by (simp add: put_bytes_def)

lemma put_bytes_append:
  "length p = off \<Longrightarrow> length bs \<le> k \<Longrightarrow>
     put_bytes off bs (p @ replicate k 0) = Some (p @ bs @ replicate (k - length bs) 0)"
  by (simp add: put_bytes_def)

section \<open>Runs of a step function\<close>

text \<open>
  Most components are a state and an operation applied to one event after another.
  What one step keeps, every run keeps.
\<close>

locale step_system =
  fixes step :: "'e \<Rightarrow> 's \<Rightarrow> 's" and inv :: "'s \<Rightarrow> bool"
  assumes step_inv: "inv s \<Longrightarrow> inv (step e s)"
begin

lemma run_inv: "inv s \<Longrightarrow> inv (fold step es s)"
  by (induction es arbitrary: s) (simp_all add: step_inv)

lemma run_prefix_inv: "inv s \<Longrightarrow> inv (fold step (take n es) s)"
  by (rule run_inv)

end

end
