(* ===== verification/Bgcp_Queue.thy ===== *)
theory Bgcp_Queue
  imports Prelude
begin

text \<open>
  The request and response queue, \<open>components/bgcp/bgcp_queue.c\<close>: a 512-byte buffer with the
  function number and the page number last written to it.  Every operation is a function on
  the queue's state \<open>BGCPQueue\<close> (the file's static variable \<open>rq\<close>) that returns \<open>None\<close> where
  the C code would read or write outside an array.  The lemmas show when each operation is
  free of such accesses and which bytes it appends; \<open>byte_sink\<close> is the contract the rest of
  the development uses.
\<close>

section \<open>Protocol constants\<close>

definition BGCP_CMD_PAGE :: u8 where "BGCP_CMD_PAGE = 0xFF"
definition BGCP_CMD_FUNC :: u8 where "BGCP_CMD_FUNC = 0xFC"
definition BGCP_CMD_SIZE :: u8 where "BGCP_CMD_SIZE = 0xFE"
definition BGCP_CMD_NOT_SUP :: u8 where "BGCP_CMD_NOT_SUP = 0xFD"

definition BGCP_FUNC_R :: u8 where "BGCP_FUNC_R = 1"
definition BGCP_FUNC_W :: u8 where "BGCP_FUNC_W = 2"
definition BGCP_FUNC_RW :: u8 where "BGCP_FUNC_RW = 3"
definition BGCP_FUNC_INC_RW :: u8 where "BGCP_FUNC_INC_RW = 4"
definition BGCP_FUNC_DEC_RW :: u8 where "BGCP_FUNC_DEC_RW = 5"
definition BGCP_FUNC_RESP :: u8 where "BGCP_FUNC_RESP = 6"

lemmas bgcp_cmd_defs = BGCP_CMD_PAGE_def BGCP_CMD_FUNC_def BGCP_CMD_SIZE_def BGCP_CMD_NOT_SUP_def
lemmas bgcp_func_defs = BGCP_FUNC_R_def BGCP_FUNC_W_def BGCP_FUNC_RW_def
  BGCP_FUNC_INC_RW_def BGCP_FUNC_DEC_RW_def BGCP_FUNC_RESP_def

definition QUEUE_BUF_SIZE :: nat where "QUEUE_BUF_SIZE = 512"

section \<open>The queue and its operations\<close>

record BGCPQueue =
  cur_func :: u8
  cur_page :: u8
  queue_size :: u16
  queue_buf :: "u8 list"

definition reset_req_queue :: "BGCPQueue \<Rightarrow> BGCPQueue" where
  "reset_req_queue rq = rq\<lparr>cur_page := 0, cur_func := 0, queue_size := 0\<rparr>"

definition get_req_queue_size :: "BGCPQueue \<Rightarrow> u16" where
  "get_req_queue_size rq = queue_size rq"

definition get_req_queue_data :: "BGCPQueue \<Rightarrow> u8 list" where
  "get_req_queue_data rq = queue_buf rq"

text \<open>
  The copy loop of \<open>queue_push_req_data\<close>: \<open>n\<close> bytes are still to be copied from \<open>data\<close>.
  Reading past the end of \<open>data\<close> and writing past the end of the buffer are \<open>None\<close>.
\<close>

fun push_loop :: "nat \<Rightarrow> u8 list \<Rightarrow> BGCPQueue \<Rightarrow> BGCPQueue option" where
  "push_loop 0 data rq = Some rq"
| "push_loop (Suc n) [] rq = None"
| "push_loop (Suc n) (b # data) rq =
     (if unat (queue_size rq) < length (queue_buf rq)
      then push_loop n data
             (rq\<lparr>queue_buf := (queue_buf rq)[unat (queue_size rq) := b],
                 queue_size := queue_size rq + 1\<rparr>)
      else None)"

definition queue_push_req_data :: "u8 list \<Rightarrow> u8 \<Rightarrow> BGCPQueue \<Rightarrow> BGCPQueue option" where
  "queue_push_req_data data sz rq =
     (if QUEUE_BUF_SIZE > unat (queue_size rq) + unat sz
      then push_loop (unat sz) data rq else Some rq)"

definition queue_push_byte :: "u8 \<Rightarrow> BGCPQueue \<Rightarrow> BGCPQueue option" where
  "queue_push_byte data rq = queue_push_req_data [data] 1 rq"

definition queue_push_page :: "u16 \<Rightarrow> BGCPQueue \<Rightarrow> BGCPQueue option" where
  "queue_push_page param_num rq =
     (let page = hi8 param_num in
      if page \<noteq> cur_page rq
      then do {
        rq \<leftarrow> queue_push_byte BGCP_CMD_PAGE rq;
        rq \<leftarrow> queue_push_req_data [page] 1 rq;
        Some (rq\<lparr>cur_page := page\<rparr>)
      }
      else Some rq)"

definition queue_push_func_num :: "u8 \<Rightarrow> BGCPQueue \<Rightarrow> BGCPQueue option" where
  "queue_push_func_num func_num rq =
     (if func_num \<noteq> cur_func rq
      then do {
        rq \<leftarrow> (if queue_size rq \<noteq> 0 then queue_push_byte BGCP_CMD_FUNC rq else Some rq);
        rq \<leftarrow> queue_push_req_data [func_num] 1 rq;
        Some (rq\<lparr>cur_func := func_num\<rparr>)
      }
      else Some rq)"

text \<open>
  \<open>param_data\<close> is the object the \<open>void *\<close> argument points to, \<open>None\<close> for a null pointer.
\<close>

definition queue_push_param_data ::
  "u8 \<Rightarrow> u16 \<Rightarrow> u8 list option \<Rightarrow> u8 \<Rightarrow> BGCPQueue \<Rightarrow> BGCPQueue option" where
  "queue_push_param_data func_num param_num param_data sz rq =
     (if param_data = None \<and> sz \<noteq> 0 then Some rq
      else do {
        rq \<leftarrow> queue_push_func_num func_num rq;
        rq \<leftarrow> queue_push_page param_num rq;
        rq \<leftarrow> (if sz > 1
              then do {
                rq \<leftarrow> queue_push_byte BGCP_CMD_SIZE rq;
                queue_push_req_data [sz] 1 rq
              }
              else Some rq);
        rq \<leftarrow> queue_push_req_data [lo8 param_num] 1 rq;
        (if sz \<noteq> 0 then queue_push_req_data (the param_data) sz rq else Some rq)
      })"

definition queue_push_param_req :: "u8 \<Rightarrow> u16 \<Rightarrow> BGCPQueue \<Rightarrow> BGCPQueue option" where
  "queue_push_param_req func_num param_num rq = queue_push_param_data func_num param_num None 0 rq"

definition queue_push_param_uint16_t_data ::
  "u8 \<Rightarrow> u16 \<Rightarrow> u16 \<Rightarrow> BGCPQueue \<Rightarrow> BGCPQueue option" where
  "queue_push_param_uint16_t_data func_num param_num param_data rq =
     queue_push_param_data func_num param_num (Some (le_bytes 2 param_data)) 2 rq"

definition queue_push_param_uint8_t_data ::
  "u8 \<Rightarrow> u16 \<Rightarrow> u8 \<Rightarrow> BGCPQueue \<Rightarrow> BGCPQueue option" where
  "queue_push_param_uint8_t_data func_num param_num param_data rq =
     queue_push_param_data func_num param_num (Some (le_bytes 1 param_data)) 1 rq"

definition queue_push_no_sup_param :: "u16 \<Rightarrow> BGCPQueue \<Rightarrow> BGCPQueue option" where
  "queue_push_no_sup_param param_num rq =
     do {
       rq \<leftarrow> queue_push_func_num BGCP_FUNC_RESP rq;
       rq \<leftarrow> queue_push_page param_num rq;
       rq \<leftarrow> queue_push_byte BGCP_CMD_NOT_SUP rq;
       queue_push_byte (lo8 param_num) rq
     }"

section \<open>The contract of the queue\<close>

text \<open>
  The bytes a queue holds, and the invariant of every reachable queue.  One byte of the
  buffer is never used: the guard of \<open>queue_push_req_data\<close> is strict.
\<close>

definition contents :: "BGCPQueue \<Rightarrow> u8 list" where
  "contents rq = take (unat (queue_size rq)) (queue_buf rq)"

definition queue_inv :: "BGCPQueue \<Rightarrow> bool" where
  "queue_inv rq \<longleftrightarrow> length (queue_buf rq) = QUEUE_BUF_SIZE \<and> unat (queue_size rq) < QUEUE_BUF_SIZE"

text \<open>The effect of one successful append, all bytes or none.\<close>

definition append_q :: "u8 list \<Rightarrow> BGCPQueue \<Rightarrow> BGCPQueue" where
  "append_q bs rq =
     rq\<lparr>queue_buf := contents rq @ bs @ drop (unat (queue_size rq) + length bs) (queue_buf rq),
        queue_size := queue_size rq + of_nat (length bs)\<rparr>"

definition enq :: "u8 list \<Rightarrow> BGCPQueue \<Rightarrow> BGCPQueue" where
  "enq bs rq = (if unat (queue_size rq) + length bs < QUEUE_BUF_SIZE then append_q bs rq else rq)"

text \<open>A bounded sink of bytes: a piece that fits is appended, one that does not is dropped.\<close>

locale byte_sink =
  fixes push :: "'b list \<Rightarrow> 'q \<Rightarrow> 'q"
    and out :: "'q \<Rightarrow> 'b list"
    and cap :: nat
    and inv :: "'q \<Rightarrow> bool"
  assumes out_bound: "inv q \<Longrightarrow> length (out q) < cap"
    and push_fits: "inv q \<Longrightarrow> length (out q) + length bs < cap \<Longrightarrow> out (push bs q) = out q @ bs"
    and push_full: "inv q \<Longrightarrow> cap \<le> length (out q) + length bs \<Longrightarrow> push bs q = q"
    and push_inv: "inv q \<Longrightarrow> inv (push bs q)"
begin

lemma push_out:
  "inv q \<Longrightarrow> out (push bs q) = (if length (out q) + length bs < cap then out q @ bs else out q)"
  using push_fits push_full by force

lemma push_prefix: "inv q \<Longrightarrow> \<exists>r. out (push bs q) = out q @ r"
  by (simp add: push_out)

lemma pushes_inv: "inv q \<Longrightarrow> inv (fold push ps q)"
  by (induction ps arbitrary: q) (simp_all add: push_inv)

lemma pushes_fit:
  "inv q \<Longrightarrow> length (out q) + length (concat ps) < cap \<Longrightarrow>
   out (fold push ps q) = out q @ concat ps"
proof (induction ps arbitrary: q)
  case Nil
  then show ?case by simp
next
  case (Cons p ps)
  then have "out (push p q) = out q @ p" by (simp add: push_fits)
  with Cons show ?case by (simp add: push_inv)
qed

lemma pushes_bound: "inv q \<Longrightarrow> length (out (fold push ps q)) < cap"
  by (simp add: out_bound pushes_inv)

text \<open>What came out first stays in front.\<close>

lemma pushes_prefix: "inv q \<Longrightarrow> \<exists>r. out (fold push ps q) = out q @ r"
proof (induction ps arbitrary: q)
  case Nil
  then show ?case by simp
next
  case (Cons p ps)
  then obtain r where "out (fold push ps (push p q)) = out (push p q) @ r"
    using push_inv by blast
  moreover obtain r' where "out (push p q) = out q @ r'"
    using push_prefix [OF Cons.prems] by blast
  ultimately show ?case by simp
qed

end

lemma queue_size_add:
  "unat (queue_size rq) + n < QUEUE_BUF_SIZE \<Longrightarrow>
   unat (queue_size rq + of_nat n) = unat (queue_size rq) + n"
  by (simp add: QUEUE_BUF_SIZE_def unat_word_ariths unat_of_nat take_bit_eq_mod)

lemma length_contents: "queue_inv rq \<Longrightarrow> length (contents rq) = unat (queue_size rq)"
  by (simp add: queue_inv_def contents_def)

lemma contents_append_q:
  "queue_inv rq \<Longrightarrow> unat (queue_size rq) + length bs < QUEUE_BUF_SIZE \<Longrightarrow>
   contents (append_q bs rq) = contents rq @ bs"
  by (simp add: append_q_def contents_def queue_size_add queue_inv_def)

lemma queue_inv_append_q:
  "queue_inv rq \<Longrightarrow> unat (queue_size rq) + length bs < QUEUE_BUF_SIZE \<Longrightarrow>
   queue_inv (append_q bs rq)"
  by (simp add: append_q_def contents_def queue_size_add queue_inv_def)

lemma queue_inv_enq [simp]: "queue_inv rq \<Longrightarrow> queue_inv (enq bs rq)"
  by (simp add: enq_def queue_inv_append_q)

interpretation rq: byte_sink enq contents QUEUE_BUF_SIZE queue_inv
proof unfold_locales
  fix q bs
  assume q: "queue_inv q"
  show "length (contents q) < QUEUE_BUF_SIZE"
    using q by (simp add: length_contents) (simp add: queue_inv_def)
  show "queue_inv (enq bs q)" using q by simp
  show "contents (enq bs q) = contents q @ bs"
    if "length (contents q) + length bs < QUEUE_BUF_SIZE"
    using q that by (simp add: enq_def length_contents contents_append_q)
  show "enq bs q = q" if "QUEUE_BUF_SIZE \<le> length (contents q) + length bs"
    using q that by (simp add: enq_def length_contents)
qed

lemma enq_fields [frame_simps, simp]:
  "cur_func (enq bs rq) = cur_func rq"
  "cur_page (enq bs rq) = cur_page rq"
  by (simp_all add: enq_def append_q_def)

lemma cur_self [simp]:
  "rq\<lparr>cur_func := cur_func rq\<rparr> = rq"
  "rq\<lparr>cur_page := cur_page rq\<rparr> = rq"
  by (cases rq; simp)+

lemma contents_update [simp]:
  "contents (rq\<lparr>cur_func := f\<rparr>) = contents rq"
  "contents (rq\<lparr>cur_page := g\<rparr>) = contents rq"
  "queue_inv (rq\<lparr>cur_func := f\<rparr>) = queue_inv rq"
  "queue_inv (rq\<lparr>cur_page := g\<rparr>) = queue_inv rq"
  by (simp_all add: contents_def queue_inv_def)


section \<open>What the operations append\<close>

lemma append_q_Nil [simp]: "queue_inv rq \<Longrightarrow> append_q [] rq = rq"
  by (cases rq) (simp add: append_q_def contents_def)

lemma append_q_Cons:
  assumes "queue_inv rq" "unat (queue_size rq) + Suc (length bs) < QUEUE_BUF_SIZE"
  shows "append_q bs (rq\<lparr>queue_buf := (queue_buf rq)[unat (queue_size rq) := b],
                         queue_size := queue_size rq + 1\<rparr>) = append_q (b # bs) rq"
proof -
  let ?n = "unat (queue_size rq)"
  have len: "?n < length (queue_buf rq)" using assms by (simp add: queue_inv_def)
  have n1: "unat (1 + queue_size rq) = Suc ?n"
    using assms queue_size_add [of rq 1] by (simp add: add.commute)
  have "take (Suc ?n) ((queue_buf rq)[?n := b]) = take ?n (queue_buf rq) @ [b]"
    using len by (simp add: take_Suc_conv_app_nth)
  then show ?thesis by (simp add: append_q_def contents_def n1 algebra_simps)
qed

lemma push_loop_append:
  "queue_inv rq \<Longrightarrow> unat (queue_size rq) + n < QUEUE_BUF_SIZE \<Longrightarrow> n \<le> length data \<Longrightarrow>
   push_loop n data rq = Some (append_q (take n data) rq)"
proof (induction n data rq rule: push_loop.induct)
  case (1 data rq)
  then show ?case by simp
next
  case (2 n rq)
  then show ?case by simp
next
  case (3 n b data rq)
  let ?rq = "rq\<lparr>queue_buf := (queue_buf rq)[unat (queue_size rq) := b],
                queue_size := queue_size rq + 1\<rparr>"
  have in_range: "unat (queue_size rq) < length (queue_buf rq)"
    using "3.prems" by (simp add: queue_inv_def)
  have n1: "unat (queue_size rq + 1) = Suc (unat (queue_size rq))"
    using "3.prems" queue_size_add [of rq 1] by simp
  have "queue_inv ?rq" "unat (queue_size ?rq) + n < QUEUE_BUF_SIZE" "n \<le> length data"
    using "3.prems" n1 by (auto simp: queue_inv_def)
  then have "push_loop n data ?rq = Some (append_q (take n data) ?rq)"
    using "3.IH" [OF in_range] by simp
  with in_range "3.prems" show ?case by (simp add: append_q_Cons min_def)
qed

lemma queue_push_req_data_enq [fault_simps]:
  "queue_inv rq \<Longrightarrow> unat sz \<le> length data \<Longrightarrow>
   queue_push_req_data data sz rq = Some (enq (take (unat sz) data) rq)"
  by (simp add: queue_push_req_data_def enq_def push_loop_append min_def)

lemma queue_push_byte_enq [fault_simps]:
  "queue_inv rq \<Longrightarrow> queue_push_byte b rq = Some (enq [b] rq)"
  by (simp add: queue_push_byte_def queue_push_req_data_enq)

text \<open>
  The same operations as pure functions on the queue.  \<open>push_header\<close> is what
  \<open>queue_push_func_num\<close> and \<open>queue_push_page\<close> do together.
\<close>

definition func_pieces :: "u8 \<Rightarrow> BGCPQueue \<Rightarrow> u8 list list" where
  "func_pieces func_num rq =
     (if func_num \<noteq> cur_func rq
      then (if queue_size rq \<noteq> 0 then [[BGCP_CMD_FUNC]] else []) @ [[func_num]] else [])"

definition page_pieces :: "u16 \<Rightarrow> BGCPQueue \<Rightarrow> u8 list list" where
  "page_pieces param_num rq =
     (if hi8 param_num \<noteq> cur_page rq then [[BGCP_CMD_PAGE], [hi8 param_num]] else [])"

definition size_pieces :: "u8 \<Rightarrow> u8 list list" where
  "size_pieces sz = (if sz > 1 then [[BGCP_CMD_SIZE], [sz]] else [])"

definition body_pieces :: "u16 \<Rightarrow> u8 list \<Rightarrow> u8 list list" where
  "body_pieces param_num bs = [lo8 param_num] # (if bs = [] then [] else [bs])"

lemma cur_fold_enq [simp]:
  "cur_func (fold enq ps rq) = cur_func rq"
  "cur_page (fold enq ps rq) = cur_page rq"
  by (induction ps arbitrary: rq) simp_all

lemma queue_push_func_num_eq [fault_simps]:
  "queue_inv rq \<Longrightarrow>
   queue_push_func_num f rq = Some ((fold enq (func_pieces f rq) rq)\<lparr>cur_func := f\<rparr>)"
  by (simp add: queue_push_func_num_def func_pieces_def queue_push_byte_enq
      queue_push_req_data_enq)

lemma queue_push_page_eq [fault_simps]:
  "queue_inv rq \<Longrightarrow>
   queue_push_page p rq = Some ((fold enq (page_pieces p rq) rq)\<lparr>cur_page := hi8 p\<rparr>)"
  by (simp add: queue_push_page_def page_pieces_def queue_push_byte_enq
      queue_push_req_data_enq Let_def)

lemma enq_cur_func [simp]: "enq bs (rq\<lparr>cur_func := f\<rparr>) = (enq bs rq)\<lparr>cur_func := f\<rparr>"
  by (simp add: enq_def append_q_def)

lemma enq_cur_page [simp]: "enq bs (rq\<lparr>cur_page := g\<rparr>) = (enq bs rq)\<lparr>cur_page := g\<rparr>"
  by (simp add: enq_def append_q_def)

lemma fold_enq_cur [simp]:
  "fold enq ps (rq\<lparr>cur_func := f\<rparr>) = (fold enq ps rq)\<lparr>cur_func := f\<rparr>"
  "fold enq ps (rq\<lparr>cur_page := g\<rparr>) = (fold enq ps rq)\<lparr>cur_page := g\<rparr>"
  by (induction ps arbitrary: rq) simp_all

text \<open>The pieces of one message: header, size, number and data.\<close>

definition param_pieces :: "u8 \<Rightarrow> u16 \<Rightarrow> u8 list \<Rightarrow> BGCPQueue \<Rightarrow> u8 list list" where
  "param_pieces f p bs rq =
     func_pieces f rq @ page_pieces p rq @ size_pieces (of_nat (length bs)) @ body_pieces p bs"

definition no_sup_pieces :: "u16 \<Rightarrow> BGCPQueue \<Rightarrow> u8 list list" where
  "no_sup_pieces p rq =
     func_pieces BGCP_FUNC_RESP rq @ page_pieces p rq @ [[BGCP_CMD_NOT_SUP], [lo8 p]]"

definition push_pieces :: "u8 \<Rightarrow> u16 \<Rightarrow> u8 list list \<Rightarrow> BGCPQueue \<Rightarrow> BGCPQueue" where
  "push_pieces f p ps rq = (fold enq ps rq)\<lparr>cur_func := f, cur_page := hi8 p\<rparr>"

lemma push_pieces_cur [simp]:
  "cur_func (push_pieces f p ps rq) = f"
  "cur_page (push_pieces f p ps rq) = hi8 p"
  by (simp_all add: push_pieces_def)

lemma push_pieces_inv [simp]: "queue_inv rq \<Longrightarrow> queue_inv (push_pieces f p ps rq)"
  by (simp add: push_pieces_def rq.pushes_inv)

lemma push_pieces_contents [simp]: "contents (push_pieces f p ps rq) = contents (fold enq ps rq)"
  by (simp add: push_pieces_def)

lemma page_pieces_cur_func [simp]:
  "page_pieces p (rq\<lparr>cur_func := f\<rparr>) = page_pieces p rq"
  "page_pieces p (fold enq ps rq) = page_pieces p rq"
  by (simp_all add: page_pieces_def)

lemma fold_enq_inv [simp]: "queue_inv rq \<Longrightarrow> queue_inv (fold enq ps rq)"
  by (rule rq.pushes_inv)

lemma queue_push_param_data_eq [fault_simps]:
  assumes inv: "queue_inv rq" and sz: "unat sz \<le> length bs"
  shows "queue_push_param_data f p (Some bs) sz rq =
         Some (push_pieces f p (param_pieces f p (take (unat sz) bs) rq) rq)"
proof -
  have len: "(of_nat (length (take (unat sz) bs)) :: u8) = sz"
    using sz by (simp add: min_def)
  have nil: "take (unat sz) bs = [] \<longleftrightarrow> sz = 0"
    using sz by (auto simp: unat_eq_zero)
  show ?thesis
    unfolding param_pieces_def push_pieces_def len
    using inv sz nil
    by (simp add: queue_push_param_data_def fault_simps size_pieces_def body_pieces_def Let_def)
qed

lemma queue_push_param_req_eq [fault_simps]:
  "queue_inv rq \<Longrightarrow>
   queue_push_param_req f p rq = Some (push_pieces f p (param_pieces f p [] rq) rq)"
  by (simp add: queue_push_param_req_def queue_push_param_data_def fault_simps
      param_pieces_def push_pieces_def size_pieces_def body_pieces_def)

lemma queue_push_param_null [fault_simps]:
  "sz \<noteq> 0 \<Longrightarrow> queue_push_param_data f p None sz rq = Some rq"
  by (simp add: queue_push_param_data_def)

lemma queue_push_no_sup_param_eq [fault_simps]:
  "queue_inv rq \<Longrightarrow>
   queue_push_no_sup_param p rq = Some (push_pieces BGCP_FUNC_RESP p (no_sup_pieces p rq) rq)"
  by (simp add: queue_push_no_sup_param_def fault_simps no_sup_pieces_def push_pieces_def)

lemma queue_inv_reset [simp]:
  "length (queue_buf rq) = QUEUE_BUF_SIZE \<Longrightarrow> queue_inv (reset_req_queue rq)"
  by (simp add: queue_inv_def reset_req_queue_def QUEUE_BUF_SIZE_def)

lemma contents_reset [simp]: "contents (reset_req_queue rq) = []"
  by (simp add: contents_def reset_req_queue_def)

section \<open>Any sequence of pushes\<close>

text \<open>The queue's operations as one, with the data a caller may pass.\<close>

datatype queue_op =
    Op_param_data u8 u16 "u8 list option" u8
  | Op_param_req u8 u16
  | Op_uint16 u8 u16 u16
  | Op_uint8 u8 u16 u8
  | Op_no_sup u16
  | Op_byte u8
  | Op_page u16
  | Op_func_num u8

fun queue_step :: "queue_op \<Rightarrow> BGCPQueue \<Rightarrow> BGCPQueue option" where
  "queue_step (Op_param_data f p bs sz) q = queue_push_param_data f p bs sz q"
| "queue_step (Op_param_req f p) q = queue_push_param_req f p q"
| "queue_step (Op_uint16 f p v) q = queue_push_param_uint16_t_data f p v q"
| "queue_step (Op_uint8 f p v) q = queue_push_param_uint8_t_data f p v q"
| "queue_step (Op_no_sup p) q = queue_push_no_sup_param p q"
| "queue_step (Op_byte b) q = queue_push_byte b q"
| "queue_step (Op_page p) q = queue_push_page p q"
| "queue_step (Op_func_num f) q = queue_push_func_num f q"

text \<open>The caller's object has the bytes it announces.\<close>

fun op_ok :: "queue_op \<Rightarrow> bool" where
  "op_ok (Op_param_data f p bs sz) = (case bs of None \<Rightarrow> True | Some bs \<Rightarrow> unat sz \<le> length bs)"
| "op_ok _ = True"

fun queue_run :: "queue_op list \<Rightarrow> BGCPQueue \<Rightarrow> BGCPQueue option" where
  "queue_run [] q = Some q"
| "queue_run (x # xs) q = do { q \<leftarrow> queue_step x q; queue_run xs q }"

lemma queue_step_pieces:
  assumes "queue_inv q" "op_ok x"
  shows "\<exists>q' ps. queue_step x q = Some q' \<and> queue_inv q' \<and> contents q' = contents (fold enq ps q)"
proof (cases x)
  case (Op_param_data f p bs sz)
  show ?thesis
  proof (cases bs)
    case None
    show ?thesis
    proof (cases "sz = 0")
      case True
      with None Op_param_data assms show ?thesis
        using queue_push_param_req_eq [of q f p] push_pieces_inv push_pieces_contents
        by (auto simp: queue_push_param_req_def)
    next
      case False
      with None Op_param_data assms(1) show ?thesis
        by (intro exI [of _ q] exI [of _ "[]"]) (simp add: queue_push_param_null)
    qed
  next
    case (Some a)
    with Op_param_data assms show ?thesis
      using queue_push_param_data_eq [of q sz a f p] push_pieces_inv push_pieces_contents by auto
  qed
next
  case (Op_param_req f p)
  then show ?thesis
    using assms queue_push_param_req_eq [of q f p] push_pieces_inv push_pieces_contents by auto
next
  case (Op_uint16 f p v)
  then show ?thesis
    using assms queue_push_param_data_eq [of q 2 "le_bytes 2 v" f p] push_pieces_inv push_pieces_contents
    by (auto simp: queue_push_param_uint16_t_data_def)
next
  case (Op_uint8 f p v)
  then show ?thesis
    using assms queue_push_param_data_eq [of q 1 "le_bytes 1 v" f p] push_pieces_inv push_pieces_contents
    by (auto simp: queue_push_param_uint8_t_data_def)
next
  case (Op_no_sup p)
  then show ?thesis
    using assms queue_push_no_sup_param_eq [of q p] push_pieces_inv push_pieces_contents by auto
next
  case (Op_byte b)
  then show ?thesis using assms(1) queue_push_byte_enq [of q b] by (intro exI [of _ "enq [b] q"] exI [of _ "[[b]]"]) simp
next
  case (Op_page p)
  then show ?thesis using assms(1) queue_push_page_eq [of q p] rq.pushes_inv [OF assms(1), of "page_pieces p q"]
    by (auto simp: queue_inv_def contents_def)
next
  case (Op_func_num f)
  then show ?thesis using assms(1) queue_push_func_num_eq [of q f] rq.pushes_inv [OF assms(1), of "func_pieces f q"]
    by (auto simp: queue_inv_def contents_def)
qed

lemma queue_run_total:
  assumes "queue_inv q" "\<forall>x \<in> set xs. op_ok x"
  shows "\<exists>q' r. queue_run xs q = Some q' \<and> queue_inv q' \<and> contents q' = contents q @ r"
  using assms
proof (induction xs arbitrary: q)
  case Nil
  then show ?case by simp
next
  case (Cons x xs)
  then obtain q1 ps where q1: "queue_step x q = Some q1" "queue_inv q1"
    "contents q1 = contents (fold enq ps q)"
    using queue_step_pieces [of q x] by auto
  obtain r where r: "contents q1 = contents q @ r"
    using rq.pushes_prefix [OF Cons.prems(1), of ps] q1(3) by auto
  obtain q2 r2 where "queue_run xs q1 = Some q2" "queue_inv q2" "contents q2 = contents q1 @ r2"
    using Cons.IH [OF q1(2)] Cons.prems(2) by auto
  then show ?case using q1(1) r by auto
qed

text \<open>A message whose header fits but whose data does not.\<close>

lemma param_header_only:
  assumes "queue_inv q" "cur_func q = f" "cur_page q = hi8 p" "1 < length bs" "length bs < 256"
    "length (contents q) + 3 < QUEUE_BUF_SIZE" "QUEUE_BUF_SIZE \<le> length (contents q) + 3 + length bs"
  shows "\<exists>q'. queue_push_param_data f p (Some bs) (of_nat (length bs)) q = Some q' \<and>
    contents q' = contents q @ [BGCP_CMD_SIZE, of_nat (length bs), lo8 p]"
proof -
  let ?h = "[[BGCP_CMD_SIZE], [of_nat (length bs)], [lo8 p]] :: u8 list list"
  have sz: "unat (of_nat (length bs) :: u8) = length bs" using assms(5) by (simp add: unat_of_nat)
  have one: "(1 :: u8) < of_nat (length bs)" using assms(4) sz by (simp add: word_less_nat_alt)
  have ps: "param_pieces f p bs q = ?h @ [bs]"
    using assms(2-4) one
    by (auto simp: param_pieces_def func_pieces_def page_pieces_def size_pieces_def body_pieces_def)
  have h: "contents (fold enq ?h q) = contents q @ concat ?h"
    by (rule rq.pushes_fit [OF assms(1)]) (use assms(6) in simp)
  have "enq bs (fold enq ?h q) = fold enq ?h q"
    by (rule rq.push_full) (use assms(1,7) h in simp_all)
  then have "contents (fold enq (param_pieces f p bs q) q) = contents q @ concat ?h"
    using h by (simp add: ps)
  then show ?thesis using queue_push_param_data_eq [OF assms(1), of "of_nat (length bs)" bs f p] sz by simp
qed

end
