(* ===== verification/Bgcp_Param.thy ===== *)
theory Bgcp_Param
  imports Bgcp_Queue
begin

text \<open>
  The parameter table, \<open>components/bgcp/bgcp_param_table.c\<close>, with the types of
  \<open>include/bgcp_internal.h\<close> and the binding functions of \<open>bgcp_data_descriptor.c\<close> that fill
  it.  The table is the array \<open>param_list\<close> of \<open>PARAM_NUM\<close> slots; slot number \<open>i\<close> stands for
  the C pointer \<open>&param_list[i]\<close>.  A slot is free when its number is \<open>NO_PARAM\<close>.  The three
  functions that bind a parameter share one contract, the locale \<open>param_binder\<close>.
\<close>

section \<open>Types\<close>

datatype param_type =
    PARAM_TYPE_8B
  | PARAM_TYPE_16B
  | PARAM_TYPE_1B
  | PARAM_TYPE_BIN
  | PARAM_TYPE_CONST_BIN
  | PARAM_TYPE_STR
  | PARAM_TYPE_8B_RANGE
  | PARAM_TYPE_ACTION
  | PARAM_TYPE_UNKNOWN

text \<open>
  The functions a \<open>Descriptors\<close> pair can point to: the handlers of
  \<open>bgcp_data_descriptor.c\<close>, and the functions of the application, known by a number.
\<close>

datatype fn =
    update_bool_data_type_fn
  | send_bool_data_type_fn
  | update_bin_data_type_fn
  | send_bin_data_type_fn
  | update_str_data_type_fn
  | send_str_data_type_fn
  | update_range_data_fn
  | update_uint8_t_fn
  | send_uint8_t_fn
  | update_uint16_t_fn
  | send_uint16_t_fn
  | App_fn nat

record Descriptors =
  data_update_func :: "fn option"
  resp_func :: "fn option"

text \<open>
  The anonymous union of \<open>Param\<close>, by the member written last.  Reading another member than
  that one is not given a meaning (the accessors return \<open>None\<close>).
\<close>

datatype param_union =
    Description (desc_min: int) (desc_max: int)
  | Dascriptors (descrs: Descriptors)
  | Validator (list_len: u16) (valid_values_list: ptr)

record Param =
  param_num :: u16
  data_type :: param_type
  linked_data :: ptr
  time_update :: u32
  u :: param_union

definition PARAM_NUM :: nat where "PARAM_NUM = 15"

definition NO_PARAM :: u16 where "NO_PARAM = 0"

text \<open>A slot of the static array before any binding: all bytes zero.\<close>

definition zero_param :: Param where
  "zero_param =
     \<lparr>param_num = 0, data_type = PARAM_TYPE_8B, linked_data = None, time_update = 0,
      u = Description 0 0\<rparr>"

definition init_param_list :: "Param list" where
  "init_param_list = replicate PARAM_NUM zero_param"

section \<open>Operations\<close>

text \<open>The search loop of \<open>get_param\<close>, from slot \<open>i\<close> on.\<close>

fun get_param_from :: "nat \<Rightarrow> u16 \<Rightarrow> Param list \<Rightarrow> nat option" where
  "get_param_from i num [] = None"
| "get_param_from i num (p # ps) =
     (if param_num p = num then Some i else get_param_from (Suc i) num ps)"

definition get_param :: "u16 \<Rightarrow> Param list \<Rightarrow> nat option" where
  "get_param num ps = get_param_from 0 num ps"

definition set_num_param ::
  "u16 \<Rightarrow> param_type \<Rightarrow> ptr \<Rightarrow> int \<Rightarrow> int \<Rightarrow> Param list \<Rightarrow> bool \<times> Param list" where
  "set_num_param num ty data mn mx ps =
     (if ty = PARAM_TYPE_ACTION then (False, ps)
      else
        let store = (\<lambda>i. (True, ps[i := (ps ! i)\<lparr>param_num := num, linked_data := data,
                                     data_type := ty, u := Description mn mx,
                                     time_update := 0\<rparr>]))
        in (case get_param num ps of
              Some i \<Rightarrow> store i
            | None \<Rightarrow> (case get_param NO_PARAM ps of
                        None \<Rightarrow> (False, ps)
                      | Some i \<Rightarrow> store i)))"

definition set_action_param ::
  "u16 \<Rightarrow> ptr \<Rightarrow> fn option \<Rightarrow> fn option \<Rightarrow> Param list \<Rightarrow> bool \<times> Param list" where
  "set_action_param num data upd resp ps =
     (let store = (\<lambda>i. (True, ps[i := (ps ! i)\<lparr>param_num := num, linked_data := data,
                                     data_type := PARAM_TYPE_ACTION,
                                     u := Dascriptors \<lparr>data_update_func = upd, resp_func = resp\<rparr>,
                                     time_update := 0\<rparr>]))
      in (case get_param num ps of
            Some i \<Rightarrow> store i
          | None \<Rightarrow> (case get_param NO_PARAM ps of
                      None \<Rightarrow> (False, ps)
                    | Some i \<Rightarrow> store i)))"

definition bind_ranked_param ::
  "u16 \<Rightarrow> ptr \<Rightarrow> ptr \<Rightarrow> u16 \<Rightarrow> Param list \<Rightarrow> bool \<times> Param list" where
  "bind_ranked_param num data valid_values len ps =
     (let store = (\<lambda>i. (True, ps[i := (ps ! i)\<lparr>param_num := num, linked_data := data,
                                     data_type := PARAM_TYPE_8B_RANGE,
                                     u := Validator len valid_values,
                                     time_update := 0\<rparr>]))
      in (case get_param num ps of
            Some i \<Rightarrow> store i
          | None \<Rightarrow> (case get_param NO_PARAM ps of
                      None \<Rightarrow> (False, ps)
                    | Some i \<Rightarrow> store i)))"

definition get_param_update_time :: "u16 \<Rightarrow> Param list \<Rightarrow> u32" where
  "get_param_update_time num ps =
     (case get_param num ps of Some i \<Rightarrow> time_update (ps ! i) | None \<Rightarrow> 0)"

text \<open>The typed binding functions.\<close>

definition bind_str_param :: "u16 \<Rightarrow> ptr \<Rightarrow> u16 \<Rightarrow> u16 \<Rightarrow> Param list \<Rightarrow> bool \<times> Param list" where
  "bind_str_param num string_buf min_data_len buf_size ps =
     set_num_param num PARAM_TYPE_BIN string_buf (uint min_data_len) (uint buf_size) ps"

definition bind_const_param :: "u16 \<Rightarrow> ptr \<Rightarrow> u16 \<Rightarrow> Param list \<Rightarrow> bool \<times> Param list" where
  "bind_const_param num linked_data_buf data_size ps =
     set_num_param num PARAM_TYPE_CONST_BIN linked_data_buf 0 (uint data_size) ps"

definition bind_binary_param :: "u16 \<Rightarrow> ptr \<Rightarrow> u16 \<Rightarrow> Param list \<Rightarrow> bool \<times> Param list" where
  "bind_binary_param num data data_size ps =
     set_num_param num PARAM_TYPE_BIN data 0 (uint data_size) ps"

definition bind_bool_param :: "u16 \<Rightarrow> ptr \<Rightarrow> Param list \<Rightarrow> bool \<times> Param list" where
  "bind_bool_param num bool_data ps = set_num_param num PARAM_TYPE_1B bool_data 2 0 ps"

definition bind_cmd_param :: "u16 \<Rightarrow> fn option \<Rightarrow> Param list \<Rightarrow> bool \<times> Param list" where
  "bind_cmd_param num executor ps = set_action_param num None executor None ps"

definition bind_resp_param :: "u16 \<Rightarrow> fn option \<Rightarrow> Param list \<Rightarrow> bool \<times> Param list" where
  "bind_resp_param num responder ps = set_action_param num None None responder ps"

definition bind_uint8_t_param :: "u16 \<Rightarrow> ptr \<Rightarrow> u8 \<Rightarrow> u8 \<Rightarrow> Param list \<Rightarrow> bool \<times> Param list" where
  "bind_uint8_t_param num data mn mx ps =
     set_num_param num PARAM_TYPE_8B data (uint mn) (uint mx) ps"

definition bind_uint16_t_param :: "u16 \<Rightarrow> ptr \<Rightarrow> u16 \<Rightarrow> u16 \<Rightarrow> Param list \<Rightarrow> bool \<times> Param list" where
  "bind_uint16_t_param num data mn mx ps =
     set_num_param num PARAM_TYPE_16B data (uint mn) (uint mx) ps"

section \<open>The search\<close>

lemma get_param_from_shift:
  "get_param_from (Suc i) num ps = map_option Suc (get_param_from i num ps)"
  by (induction ps arbitrary: i) simp_all

lemma get_param_Nil [simp]: "get_param num [] = None"
  by (simp add: get_param_def)

lemma get_param_Cons [simp]:
  "get_param num (p # ps) =
     (if param_num p = num then Some 0 else map_option Suc (get_param num ps))"
  by (simp add: get_param_def get_param_from_shift)

lemma get_param_None_iff: "get_param num ps = None \<longleftrightarrow> num \<notin> param_num ` set ps"
  by (induction ps) auto

lemma get_param_SomeD:
  "get_param num ps = Some i \<Longrightarrow>
   i < length ps \<and> param_num (ps ! i) = num \<and> (\<forall>j<i. param_num (ps ! j) \<noteq> num)"
  by (induction ps arbitrary: i)
    (fastforce simp: nth_Cons less_Suc_eq_0_disj split: if_splits nat.splits)+

lemma get_param_SomeI:
  "i < length ps \<Longrightarrow> param_num (ps ! i) = num \<Longrightarrow> (\<And>j. j < i \<Longrightarrow> param_num (ps ! j) \<noteq> num) \<Longrightarrow>
   get_param num ps = Some i"
proof (induction ps arbitrary: i)
  case Nil
  then show ?case by simp
next
  case (Cons p ps)
  show ?case
  proof (cases i)
    case 0
    with Cons.prems show ?thesis by simp
  next
    case (Suc k)
    have "param_num p \<noteq> num" using Cons.prems(3) [of 0] Suc by simp
    moreover have "get_param num ps = Some k"
      using Cons.prems Suc by (intro Cons.IH) (simp_all, fastforce)
    ultimately show ?thesis using Suc by simp
  qed
qed

text \<open>The search sees numbers only.\<close>

lemma get_param_cong: "map param_num ps = map param_num qs \<Longrightarrow> get_param num ps = get_param num qs"
proof (induction ps arbitrary: qs)
  case Nil
  then show ?case by simp
next
  case (Cons p ps)
  then show ?case by (cases qs) auto
qed

lemma get_param_update_same:
  "param_num q = param_num (ps ! i) \<Longrightarrow> get_param num (ps[i := q]) = get_param num ps"
  by (rule get_param_cong) (simp add: map_update list_update_same_conv, metis list_update_id map_update)

section \<open>The contract of the binding functions\<close>

text \<open>
  What the table says about a number, how many slots are free, and the slot a binding
  takes: the one that already has the number, or else the first free one.
\<close>

definition lookup :: "u16 \<Rightarrow> Param list \<Rightarrow> Param option" where
  "lookup num ps = map_option ((!) ps) (get_param num ps)"

definition free_slots :: "Param list \<Rightarrow> nat" where
  "free_slots ps = length (filter (\<lambda>p. param_num p = NO_PARAM) ps)"

definition slot_for :: "u16 \<Rightarrow> Param list \<Rightarrow> nat option" where
  "slot_for num ps =
     (case get_param num ps of Some i \<Rightarrow> Some i | None \<Rightarrow> get_param NO_PARAM ps)"

definition install :: "Param \<Rightarrow> Param list \<Rightarrow> bool \<times> Param list" where
  "install q ps =
     (case slot_for (param_num q) ps of None \<Rightarrow> (False, ps) | Some i \<Rightarrow> (True, ps[i := q]))"

lemma lookup_Nil [simp]: "lookup num [] = None"
  by (simp add: lookup_def)

lemma lookup_Cons [simp]:
  "lookup num (p # ps) = (if param_num p = num then Some p else lookup num ps)"
  by (simp add: lookup_def option.map_comp comp_def)

lemma lookup_num: "lookup num ps = Some q \<Longrightarrow> param_num q = num"
  by (auto simp: lookup_def dest: get_param_SomeD)

lemma lookup_update_other:
  "i < length ps \<Longrightarrow> param_num (ps ! i) \<noteq> num \<Longrightarrow> param_num q \<noteq> num \<Longrightarrow>
   lookup num (ps[i := q]) = lookup num ps"
proof (induction ps arbitrary: i)
  case Nil
  then show ?case by simp
next
  case (Cons p ps)
  then show ?case by (cases i) auto
qed

lemma lookup_update_first:
  "i < length ps \<Longrightarrow> (\<forall>j<i. param_num (ps ! j) \<noteq> param_num q) \<Longrightarrow>
   lookup (param_num q) (ps[i := q]) = Some q"
proof (induction ps arbitrary: i)
  case Nil
  then show ?case by simp
next
  case (Cons p ps)
  then show ?case by (cases i) (auto simp: All_less_Suc2)
qed

lemma free_slots_pos: "0 < free_slots ps \<longleftrightarrow> get_param NO_PARAM ps \<noteq> None"
  by (induction ps) (auto simp: free_slots_def)

lemma free_slots_update:
  "i < length ps \<Longrightarrow>
   free_slots (ps[i := q]) + (if param_num (ps ! i) = NO_PARAM then 1 else 0) =
   free_slots ps + (if param_num q = NO_PARAM then 1 else 0)"
proof (induction ps arbitrary: i)
  case Nil
  then show ?case by simp
next
  case (Cons p ps)
  then show ?case by (cases i) (auto simp: free_slots_def)
qed

lemma slot_forD:
  assumes "slot_for num ps = Some i"
  shows "i < length ps" "param_num (ps ! i) = num \<or> param_num (ps ! i) = NO_PARAM"
    "\<forall>j<i. param_num (ps ! j) \<noteq> num"
    "lookup num ps \<noteq> None \<Longrightarrow> param_num (ps ! i) = num"
    "lookup num ps = None \<Longrightarrow> param_num (ps ! i) = NO_PARAM"
  using assms
  by (auto simp: slot_for_def lookup_def get_param_None_iff split: option.splits
      dest!: get_param_SomeD)

locale param_binder =
  fixes attach :: "'d \<Rightarrow> u16 \<Rightarrow> Param list \<Rightarrow> bool \<times> Param list"
    and content :: "'d \<Rightarrow> u16 \<Rightarrow> Param"
  assumes content_num: "param_num (content d num) = num"
    and bind_ok_iff: "fst (attach d num ps) \<longleftrightarrow> lookup num ps \<noteq> None \<or> 0 < free_slots ps"
    and bind_fail: "\<not> fst (attach d num ps) \<Longrightarrow> snd (attach d num ps) = ps"
    and bind_hit: "fst (attach d num ps) \<Longrightarrow> lookup num (snd (attach d num ps)) = Some (content d num)"
    and bind_other: "k \<noteq> num \<Longrightarrow> k \<noteq> NO_PARAM \<Longrightarrow> lookup k (snd (attach d num ps)) = lookup k ps"
    and bind_length: "length (snd (attach d num ps)) = length ps"
    and bind_free: "num \<noteq> NO_PARAM \<Longrightarrow> fst (attach d num ps) \<Longrightarrow>
      free_slots (snd (attach d num ps)) = free_slots ps - (if lookup num ps = None then 1 else 0)"
begin

text \<open>Bind a list of parameters, one after another; report whether all were accepted.\<close>

fun bind_all :: "('d \<times> u16) list \<Rightarrow> Param list \<Rightarrow> bool \<times> Param list" where
  "bind_all [] ps = (True, ps)"
| "bind_all ((d, num) # xs) ps =
     (let (ok, ps') = attach d num ps; (oks, ps'') = bind_all xs ps' in (ok \<and> oks, ps''))"

lemma bind_all_other:
  "k \<notin> snd ` set xs \<Longrightarrow> k \<noteq> NO_PARAM \<Longrightarrow> lookup k (snd (bind_all xs ps)) = lookup k ps"
proof (induction xs arbitrary: ps)
  case Nil
  then show ?case by simp
next
  case (Cons x xs)
  obtain d num where x: "x = (d, num)" by fastforce
  with Cons.prems have "lookup k (snd (attach d num ps)) = lookup k ps"
    by (intro bind_other) auto
  with Cons x show ?case by (simp add: case_prod_beta)
qed

lemma bind_all_length: "length (snd (bind_all xs ps)) = length ps"
  by (induction xs arbitrary: ps) (auto simp: case_prod_beta bind_length)

lemma bind_all_ok:
  "distinct (map snd xs) \<Longrightarrow> NO_PARAM \<notin> snd ` set xs \<Longrightarrow> length xs \<le> free_slots ps \<Longrightarrow>
   fst (bind_all xs ps) \<and>
   (\<forall>(d, num) \<in> set xs. lookup num (snd (bind_all xs ps)) = Some (content d num))"
proof (induction xs arbitrary: ps)
  case Nil
  then show ?case by simp
next
  case (Cons x xs)
  obtain d num where x: "x = (d, num)" by fastforce
  let ?ps = "snd (attach d num ps)"
  have ok: "fst (attach d num ps)" using Cons.prems by (simp add: bind_ok_iff)
  have "length xs \<le> free_slots ?ps"
    using Cons.prems bind_free [OF _ ok] x by auto
  then have "fst (bind_all xs ?ps) \<and>
      (\<forall>(d, num) \<in> set xs. lookup num (snd (bind_all xs ?ps)) = Some (content d num))"
    using Cons.prems by (intro Cons.IH) auto
  moreover have "lookup num (snd (bind_all xs ?ps)) = Some (content d num)"
    using Cons.prems x bind_hit [OF ok] by (subst bind_all_other) auto
  ultimately show ?case using ok x by (simp add: case_prod_beta)
qed

lemma bind_full:
  "free_slots ps = 0 \<Longrightarrow> lookup num ps = None \<Longrightarrow> attach d num ps = (False, ps)"
  using bind_ok_iff [of d num ps] bind_fail [of d num ps] by (simp add: prod_eq_iff)

end

text \<open>A binding function that installs one record in the slot of its number has the contract.\<close>

locale param_installer =
  fixes attach :: "'d \<Rightarrow> u16 \<Rightarrow> Param list \<Rightarrow> bool \<times> Param list"
    and content :: "'d \<Rightarrow> u16 \<Rightarrow> Param"
  assumes attach_install: "attach d num ps = install (content d num) ps"
    and installed_num: "param_num (content d num) = num"
begin

lemma slot_None: "slot_for num ps = None \<longleftrightarrow> lookup num ps = None \<and> free_slots ps = 0"
  using free_slots_pos [of ps] by (auto simp: slot_for_def lookup_def split: option.splits)

lemma attach_slot:
  "slot_for num ps = Some i \<Longrightarrow> attach d num ps = (True, ps[i := content d num])"
  by (simp add: attach_install install_def installed_num)

lemma attach_no_slot: "slot_for num ps = None \<Longrightarrow> attach d num ps = (False, ps)"
  by (simp add: attach_install install_def installed_num)

lemma attach_free:
  assumes num: "num \<noteq> NO_PARAM" and i: "slot_for num ps = Some i"
  shows "free_slots (ps[i := content d num]) = free_slots ps - (if lookup num ps = None then 1 else 0)"
  using free_slots_update [OF slot_forD(1) [OF i], of "content d num"] slot_forD(4,5) [OF i]
    num installed_num by (cases "lookup num ps = None") auto

end

sublocale param_installer \<subseteq> param_binder
proof unfold_locales
  fix d num ps k
  show "param_num (content d num) = num" by (rule installed_num)
  show "fst (attach d num ps) \<longleftrightarrow> lookup num ps \<noteq> None \<or> 0 < free_slots ps"
    using slot_None [of num ps] by (cases "slot_for num ps") (auto simp: attach_slot attach_no_slot)
  show "length (snd (attach d num ps)) = length ps"
    by (cases "slot_for num ps") (simp_all add: attach_slot attach_no_slot)
  show "snd (attach d num ps) = ps" if "\<not> fst (attach d num ps)"
    using that by (cases "slot_for num ps") (simp_all add: attach_slot attach_no_slot)
  show "lookup num (snd (attach d num ps)) = Some (content d num)" if "fst (attach d num ps)"
    using that lookup_update_first [where q = "content d num"] slot_forD(1,3)
    by (cases "slot_for num ps") (auto simp: attach_slot attach_no_slot installed_num)
  show "lookup k (snd (attach d num ps)) = lookup k ps" if "k \<noteq> num" "k \<noteq> NO_PARAM"
    using that by (cases "slot_for num ps")
      (auto simp: attach_slot attach_no_slot installed_num intro!: lookup_update_other
        dest: slot_forD(1,2))
  show "free_slots (snd (attach d num ps)) = free_slots ps - (if lookup num ps = None then 1 else 0)"
    if "num \<noteq> NO_PARAM" "fst (attach d num ps)"
    using that by (cases "slot_for num ps") (simp_all add: attach_slot attach_no_slot attach_free)
qed

text \<open>Each binding function installs one record, which keeps nothing of the slot's old content.\<close>

definition num_record :: "param_type \<Rightarrow> ptr \<Rightarrow> int \<Rightarrow> int \<Rightarrow> u16 \<Rightarrow> Param" where
  "num_record ty data mn mx num =
     \<lparr>param_num = num, data_type = ty, linked_data = data, time_update = 0, u = Description mn mx\<rparr>"

definition action_record :: "ptr \<Rightarrow> fn option \<Rightarrow> fn option \<Rightarrow> u16 \<Rightarrow> Param" where
  "action_record data upd resp num =
     \<lparr>param_num = num, data_type = PARAM_TYPE_ACTION, linked_data = data, time_update = 0,
      u = Dascriptors \<lparr>data_update_func = upd, resp_func = resp\<rparr>\<rparr>"

definition ranked_record :: "ptr \<Rightarrow> ptr \<Rightarrow> u16 \<Rightarrow> u16 \<Rightarrow> Param" where
  "ranked_record data valid_values len num =
     \<lparr>param_num = num, data_type = PARAM_TYPE_8B_RANGE, linked_data = data, time_update = 0,
      u = Validator len valid_values\<rparr>"

lemma record_fields [simp]:
  "param_num (num_record ty data mn mx num) = num"
  "param_num (action_record data upd resp num) = num"
  "param_num (ranked_record data vals len num) = num"
  "data_type (num_record ty data mn mx num) = ty"
  "data_type (action_record data upd resp num) = PARAM_TYPE_ACTION"
  "data_type (ranked_record data vals len num) = PARAM_TYPE_8B_RANGE"
  "linked_data (num_record ty data mn mx num) = data"
  "linked_data (action_record data upd resp num) = data"
  "linked_data (ranked_record data vals len num) = data"
  "u (num_record ty data mn mx num) = Description mn mx"
  "u (action_record data upd resp num) = Dascriptors \<lparr>data_update_func = upd, resp_func = resp\<rparr>"
  "u (ranked_record data vals len num) = Validator len vals"
  by (simp_all add: num_record_def action_record_def ranked_record_def)

lemma Param_overwrite [simp]:
  "p\<lparr>param_num := a, linked_data := b, data_type := c, u := d, time_update := e\<rparr> =
   \<lparr>param_num = a, data_type = c, linked_data = b, time_update = e, u = d\<rparr>"
  by (cases p) simp

lemma set_num_param_install:
  "ty \<noteq> PARAM_TYPE_ACTION \<Longrightarrow> set_num_param num ty data mn mx ps = install (num_record ty data mn mx num) ps"
  by (auto simp: set_num_param_def install_def slot_for_def num_record_def Let_def
      split: option.splits)

lemma set_action_param_install:
  "set_action_param num data upd resp ps = install (action_record data upd resp num) ps"
  by (auto simp: set_action_param_def install_def slot_for_def action_record_def Let_def
      split: option.splits)

lemma bind_ranked_param_install:
  "bind_ranked_param num data vals len ps = install (ranked_record data vals len num) ps"
  by (auto simp: bind_ranked_param_def install_def slot_for_def ranked_record_def Let_def
      split: option.splits)

lemmas binding_installs = set_num_param_install set_action_param_install bind_ranked_param_install
  bind_str_param_def bind_const_param_def bind_binary_param_def bind_bool_param_def
  bind_cmd_param_def bind_resp_param_def bind_uint8_t_param_def bind_uint16_t_param_def

interpretation uint8p: param_installer
  "\<lambda>(data, mn, mx) num. bind_uint8_t_param num data mn mx"
  "\<lambda>(data, mn, mx). num_record PARAM_TYPE_8B data (uint mn) (uint mx)"
  by unfold_locales (simp_all add: case_prod_beta binding_installs)

interpretation uint16p: param_installer
  "\<lambda>(data, mn, mx) num. bind_uint16_t_param num data mn mx"
  "\<lambda>(data, mn, mx). num_record PARAM_TYPE_16B data (uint mn) (uint mx)"
  by unfold_locales (simp_all add: case_prod_beta binding_installs)

interpretation boolp: param_installer
  "\<lambda>data num. bind_bool_param num data" "\<lambda>data. num_record PARAM_TYPE_1B data 2 0"
  by unfold_locales (simp_all add: binding_installs)

interpretation strp: param_installer
  "\<lambda>(data, mn, len) num. bind_str_param num data mn len"
  "\<lambda>(data, mn, len). num_record PARAM_TYPE_BIN data (uint mn) (uint len)"
  by unfold_locales (simp_all add: case_prod_beta binding_installs)

interpretation binp: param_installer
  "\<lambda>(data, len) num. bind_binary_param num data len"
  "\<lambda>(data, len). num_record PARAM_TYPE_BIN data 0 (uint len)"
  by unfold_locales (simp_all add: case_prod_beta binding_installs)

interpretation constp: param_installer
  "\<lambda>(data, len) num. bind_const_param num data len"
  "\<lambda>(data, len). num_record PARAM_TYPE_CONST_BIN data 0 (uint len)"
  by unfold_locales (simp_all add: case_prod_beta binding_installs)

interpretation actp: param_installer
  "\<lambda>(data, upd, resp) num. set_action_param num data upd resp"
  "\<lambda>(data, upd, resp). action_record data upd resp"
  by unfold_locales (simp_all add: case_prod_beta binding_installs)

interpretation rankp: param_installer
  "\<lambda>(data, vals, len) num. bind_ranked_param num data vals len"
  "\<lambda>(data, vals, len). ranked_record data vals len"
  by unfold_locales (simp_all add: case_prod_beta binding_installs)

section \<open>Any sequence of bindings\<close>

text \<open>The binding functions of the component's interface as one operation.\<close>

datatype binding =
    Bind_uint8 ptr u8 u8
  | Bind_uint16 ptr u16 u16
  | Bind_bool ptr
  | Bind_str ptr u16 u16
  | Bind_binary ptr u16
  | Bind_const ptr u16
  | Bind_cmd "fn option"
  | Bind_resp "fn option"
  | Bind_ranked ptr ptr u16

fun do_bind :: "binding \<Rightarrow> u16 \<Rightarrow> Param list \<Rightarrow> bool \<times> Param list" where
  "do_bind (Bind_uint8 d mn mx) num ps = bind_uint8_t_param num d mn mx ps"
| "do_bind (Bind_uint16 d mn mx) num ps = bind_uint16_t_param num d mn mx ps"
| "do_bind (Bind_bool d) num ps = bind_bool_param num d ps"
| "do_bind (Bind_str d mn len) num ps = bind_str_param num d mn len ps"
| "do_bind (Bind_binary d len) num ps = bind_binary_param num d len ps"
| "do_bind (Bind_const d len) num ps = bind_const_param num d len ps"
| "do_bind (Bind_cmd f) num ps = bind_cmd_param num f ps"
| "do_bind (Bind_resp f) num ps = bind_resp_param num f ps"
| "do_bind (Bind_ranked d vals len) num ps = bind_ranked_param num d vals len ps"

text \<open>The slot's content after each of them.\<close>

fun bound_record :: "binding \<Rightarrow> u16 \<Rightarrow> Param" where
  "bound_record (Bind_uint8 d mn mx) num = num_record PARAM_TYPE_8B d (uint mn) (uint mx) num"
| "bound_record (Bind_uint16 d mn mx) num = num_record PARAM_TYPE_16B d (uint mn) (uint mx) num"
| "bound_record (Bind_bool d) num = num_record PARAM_TYPE_1B d 2 0 num"
| "bound_record (Bind_str d mn len) num = num_record PARAM_TYPE_BIN d (uint mn) (uint len) num"
| "bound_record (Bind_binary d len) num = num_record PARAM_TYPE_BIN d 0 (uint len) num"
| "bound_record (Bind_const d len) num = num_record PARAM_TYPE_CONST_BIN d 0 (uint len) num"
| "bound_record (Bind_cmd f) num = action_record None f None num"
| "bound_record (Bind_resp f) num = action_record None None f num"
| "bound_record (Bind_ranked d vals len) num = ranked_record d vals len num"

interpretation tablep: param_installer do_bind bound_record
proof unfold_locales
  fix d num ps
  show "do_bind d num ps = install (bound_record d num) ps"
    by (cases d) (simp_all add: binding_installs)
  show "param_num (bound_record d num) = num" by (cases d) simp_all
qed

text \<open>Bind a list of parameters; the result says whether all were accepted.\<close>

fun bind_params :: "(binding \<times> u16) list \<Rightarrow> Param list \<Rightarrow> bool \<times> Param list" where
  "bind_params [] ps = (True, ps)"
| "bind_params ((d, num) # xs) ps =
     (let (ok, ps') = do_bind d num ps; (oks, ps'') = bind_params xs ps' in (ok \<and> oks, ps''))"

lemma bind_params_bind_all: "bind_params xs ps = tablep.bind_all xs ps"
proof (induction xs arbitrary: ps)
  case Nil
  then show ?case by simp
next
  case (Cons x xs)
  obtain d num where "x = (d, num)" by fastforce
  with Cons show ?case by simp
qed

lemma free_slots_init [simp]: "free_slots init_param_list = PARAM_NUM"
  by (simp add: free_slots_def init_param_list_def zero_param_def NO_PARAM_def)

lemma lookup_init [simp]: "num \<noteq> NO_PARAM \<Longrightarrow> lookup num init_param_list = None"
  by (auto simp: lookup_def init_param_list_def get_param_None_iff zero_param_def NO_PARAM_def)

text \<open>Every slot of a table made by bindings has a type some binding gives.\<close>

lemma do_bind_types:
  assumes "\<forall>q \<in> set ps. data_type q \<noteq> PARAM_TYPE_STR"
  shows "\<forall>q \<in> set (snd (do_bind d num ps)). data_type q \<noteq> PARAM_TYPE_STR"
proof -
  have "data_type (bound_record d num) \<noteq> PARAM_TYPE_STR" by (cases d) simp_all
  then show ?thesis
    using assms set_update_subset_insert [of ps]
    by (cases "slot_for num ps") (auto simp: tablep.attach_slot tablep.attach_no_slot)
qed

lemma bind_params_types:
  "\<forall>q \<in> set ps. data_type q \<noteq> PARAM_TYPE_STR \<Longrightarrow>
   \<forall>q \<in> set (snd (bind_params xs ps)). data_type q \<noteq> PARAM_TYPE_STR"
proof (induction xs arbitrary: ps)
  case Nil
  then show ?case by simp
next
  case (Cons x xs)
  obtain d num where x: "x = (d, num)" by fastforce
  show ?case
    using Cons.IH [OF do_bind_types [OF Cons.prems]] by (simp add: x case_prod_beta)
qed

lemma bind_params_free:
  "distinct (map snd xs) \<Longrightarrow> NO_PARAM \<notin> snd ` set xs \<Longrightarrow> (\<forall>x \<in> set xs. lookup (snd x) ps = None) \<Longrightarrow>
   length xs \<le> free_slots ps \<Longrightarrow> free_slots (snd (bind_params xs ps)) = free_slots ps - length xs"
proof (induction xs arbitrary: ps)
  case Nil
  then show ?case by simp
next
  case (Cons x xs)
  obtain d num where x: "x = (d, num)" by fastforce
  let ?ps = "snd (do_bind d num ps)"
  have ok: "fst (do_bind d num ps)" using Cons.prems(4) by (simp add: tablep.bind_ok_iff)
  have free: "free_slots ?ps = free_slots ps - 1"
    using tablep.bind_free [OF _ ok] Cons.prems x by auto
  have "\<forall>y \<in> set xs. lookup (snd y) ?ps = None"
  proof
    fix y assume y: "y \<in> set xs"
    then have "snd y \<noteq> num" "snd y \<noteq> NO_PARAM" using Cons.prems(1,2) x by force+
    then show "lookup (snd y) ?ps = None" using Cons.prems(3) y by (simp add: tablep.bind_other)
  qed
  then show ?case using Cons.IH [of ?ps] Cons.prems free x by (simp add: case_prod_beta)
qed

end
