(* ===== verification/Bgcp_Handlers.thy ===== *)
theory Bgcp_Handlers
  imports Bgcp_Param
begin

text \<open>
  The state of the parser (\<open>ParserData\<close> of \<open>include/bgcp_internal.h\<close>), the accessors of
  \<open>bgcp_data_processor.c\<close> that handlers call, and the handlers of
  \<open>bgcp_data_descriptor.c\<close> with their dispatch table.  The four static variables of the
  component (parser, table, queue) and the objects parameters are linked to form one state
  \<open>bgcp\<close>; a handler is a function on it that returns \<open>None\<close> where the C code would access
  memory outside an object.
\<close>

section \<open>The state\<close>

text \<open>
  \<open>data_in\<close> and \<open>data_in_end\<close> are positions in the received packet \<open>packet\<close>, \<open>in_val\<close> is a
  position or null, \<open>param\<close> is a slot of the table or null.  The members \<open>param_num\<close> and
  \<open>data_out_indx\<close> of the C struct are never used and are left out.
\<close>

record ParserData =
  err_status :: nat
  in_val :: "nat option"
  param :: "nat option"
  func_num :: u8
  packet :: "u8 list"
  data_in :: nat
  data_in_end :: nat
  page :: u8
  inc_val :: int
  seted_data_size :: nat
  in_data_size :: nat

record bgcp =
  parser :: ParserData
  param_list :: "Param list"
  rq :: BGCPQueue
  mem :: mem

definition NO_FUNC :: u8 where "NO_FUNC = 0"

definition DEFAULT_DATA_BLOCK_SIZE :: nat where "DEFAULT_DATA_BLOCK_SIZE = 1"

definition is_write_func :: "u8 \<Rightarrow> bool" where
  "is_write_func f \<longleftrightarrow> f \<noteq> BGCP_FUNC_R \<and> f \<noteq> NO_FUNC"

definition is_read_func :: "u8 \<Rightarrow> bool" where
  "is_read_func f \<longleftrightarrow>
     f = BGCP_FUNC_R \<or> f = BGCP_FUNC_RW \<or> f = BGCP_FUNC_DEC_RW \<or> f = BGCP_FUNC_INC_RW"

section \<open>Accessors\<close>

text \<open>The slot \<open>parser.param\<close> points to; \<open>None\<close> if it is null.\<close>

definition cur_param :: "bgcp \<Rightarrow> Param option" where
  "cur_param s = map_option ((!) (param_list s)) (param (parser s))"

text \<open>
  Reading a member of the union that was not written last is \<open>None\<close> here and below.
\<close>

definition get_valid_val_list_len :: "bgcp \<Rightarrow> u16 option" where
  "get_valid_val_list_len s =
     (case cur_param s of
        Some p \<Rightarrow>
          (if data_type p = PARAM_TYPE_8B_RANGE
           then (case u p of Validator len vals \<Rightarrow> Some len | _ \<Rightarrow> None) else Some 0)
      | None \<Rightarrow> Some 0)"

definition get_valid_val_list :: "bgcp \<Rightarrow> ptr option" where
  "get_valid_val_list s =
     (case cur_param s of
        Some p \<Rightarrow>
          (if data_type p = PARAM_TYPE_8B_RANGE
           then (case u p of Validator len vals \<Rightarrow> Some vals | _ \<Rightarrow> None) else Some None)
      | None \<Rightarrow> Some None)"

definition get_linked_data :: "bgcp \<Rightarrow> ptr" where
  "get_linked_data s = (case cur_param s of Some p \<Rightarrow> linked_data p | None \<Rightarrow> None)"

text \<open>
  The next three read through \<open>parser.param\<close> without a null check: \<open>None\<close> is that access
  (or the union read as above).
\<close>

definition get_inc_val :: "bgcp \<Rightarrow> int option" where
  "get_inc_val s =
     do { p \<leftarrow> cur_param s;
          Some (if data_type p = PARAM_TYPE_ACTION then 0 else inc_val (parser s)) }"

definition get_min_num_param_val :: "bgcp \<Rightarrow> int option" where
  "get_min_num_param_val s =
     do { p \<leftarrow> cur_param s;
          (if data_type p = PARAM_TYPE_ACTION then Some 0
           else case u p of Description mn mx \<Rightarrow> Some mn | _ \<Rightarrow> None) }"

definition get_max_num_param_val :: "bgcp \<Rightarrow> int option" where
  "get_max_num_param_val s =
     do { p \<leftarrow> cur_param s;
          (if data_type p = PARAM_TYPE_ACTION then Some 0
           else case u p of Description mn mx \<Rightarrow> Some mx | _ \<Rightarrow> None) }"

definition get_input_data_size :: "bgcp \<Rightarrow> u8" where
  "get_input_data_size s =
     (if in_val (parser s) = None then 0 else of_nat (in_data_size (parser s)))"

text \<open>
  \<open>copy_input_data\<close>: \<open>Some None\<close> is the return value false, \<open>Some (Some bs)\<close> is true with the
  bytes copied to the caller's buffer, and \<open>None\<close> is a read past the end of the packet.
\<close>

definition copy_input_data :: "bgcp \<Rightarrow> u8 list option option" where
  "copy_input_data s =
     (case in_val (parser s) of
        None \<Rightarrow> Some None
      | Some i \<Rightarrow>
          (let n = in_data_size (parser s) in
           if n = 0 then Some None
           else if i + n \<le> length (packet (parser s))
                then Some (Some (take n (drop i (packet (parser s)))))
                else None))"

text \<open>\<open>copy_input_data\<close> into the object at \<open>p\<close>.\<close>

definition copy_input_data_to :: "ptr \<Rightarrow> bgcp \<Rightarrow> bgcp option" where
  "copy_input_data_to p s =
     do { bs \<leftarrow> copy_input_data s;
          (case bs of
             None \<Rightarrow> Some s
           | Some new \<Rightarrow> do { m \<leftarrow> mem_write (mem s) p new; Some (s\<lparr>mem := m\<rparr>) }) }"

text \<open>\<open>write_response data size\<close>, where \<open>data\<close> points to an object or is null.\<close>

definition write_response :: "ptr \<Rightarrow> u8 \<Rightarrow> bgcp \<Rightarrow> bgcp option" where
  "write_response data sz s =
     do { p \<leftarrow> cur_param s;
          bs \<leftarrow> (case data of None \<Rightarrow> Some None | Some a \<Rightarrow> map_option Some (mem s a));
          q \<leftarrow> queue_push_param_data BGCP_FUNC_RESP (param_num p) bs sz (rq s);
          Some (s\<lparr>rq := q\<rparr>) }"

definition set_err :: "nat \<Rightarrow> bgcp \<Rightarrow> bgcp" where
  "set_err err s = s\<lparr>parser := (parser s)\<lparr>err_status := err\<rparr>\<rparr>"

definition get_param_num :: "bgcp \<Rightarrow> u16" where
  "get_param_num s = (case cur_param s of Some p \<Rightarrow> param_num p | None \<Rightarrow> NO_PARAM)"

section \<open>Handlers\<close>

text \<open>The index of the first valid value equal to \<open>val\<close>, searched from index \<open>i\<close> up to \<open>n\<close>.\<close>

function seek_from :: "nat \<Rightarrow> u8 \<Rightarrow> u8 list \<Rightarrow> nat \<Rightarrow> nat option option" where
  "seek_from i val vals n =
     (if i < n
      then (if i < length vals
            then (if vals ! i = val then Some (Some i) else seek_from (Suc i) val vals n)
            else None)
      else Some None)"
  by pat_completeness auto
termination
  by (relation "measure (\<lambda>(i, val, vals, n). n - i)") auto

declare seek_from.simps [simp del]

text \<open>
  \<open>seek_val_in_range_list\<close>: the outer \<open>None\<close> is a read outside the list of valid values, the
  inner one the null result.
\<close>

definition seek_val_in_range_list :: "u8 \<Rightarrow> u8 list \<Rightarrow> u16 \<Rightarrow> nat option option" where
  "seek_val_in_range_list val vals len = seek_from 0 val vals (unat len)"

text \<open>The object a list of valid values points to; the null pointer has no bytes to read.\<close>

definition valid_vals :: "ptr \<Rightarrow> bgcp \<Rightarrow> u8 list option" where
  "valid_vals vals s = (case vals of None \<Rightarrow> Some [] | Some a \<Rightarrow> mem s a)"

definition store :: "ptr \<Rightarrow> u8 list \<Rightarrow> bgcp \<Rightarrow> bgcp option" where
  "store p new s = do { m \<leftarrow> mem_write (mem s) p new; Some (s\<lparr>mem := m\<rparr>) }"

definition update_range_data :: "bgcp \<Rightarrow> bgcp option" where
  "update_range_data s =
     do {
       list_len \<leftarrow> get_valid_val_list_len s;
       valid_values_list \<leftarrow> get_valid_val_list s;
       (let linked_val = get_linked_data s in
        if linked_val = None then Some s
        else if get_input_data_size s = 1
        then do {
          copied \<leftarrow> copy_input_data s;
          new_val \<leftarrow> copied;
          vals \<leftarrow> valid_vals valid_values_list s;
          found \<leftarrow> seek_val_in_range_list (le_word new_val) vals list_len;
          (if found = None then Some s else store linked_val new_val s)
        }
        else do {
          inc \<leftarrow> get_inc_val s;
          (if inc = 1 \<or> inc = -1
           then do {
             cur \<leftarrow> mem_read (mem s) linked_val 1;
             vals \<leftarrow> valid_vals valid_values_list s;
             found \<leftarrow> seek_val_in_range_list (le_word cur) vals list_len;
             (case found of
                None \<Rightarrow> Some s
              | Some i \<Rightarrow>
                  (let j = int i + inc in
                   if 0 \<le> j \<and> j \<le> int (unat list_len) - 1
                   then (if nat j < length vals then store linked_val [vals ! nat j] s else None)
                   else Some s))
           }
           else Some s)
        })
     }"

text \<open>A C string: the length up to the first zero byte, \<open>None\<close> if the object has none.\<close>

fun c_strlen :: "u8 list \<Rightarrow> nat option" where
  "c_strlen [] = None"
| "c_strlen (b # bs) = (if b = 0 then Some 0 else map_option Suc (c_strlen bs))"

text \<open>\<open>data_buf[i] = b\<close>\<close>

definition store_at :: "ptr \<Rightarrow> nat \<Rightarrow> u8 \<Rightarrow> bgcp \<Rightarrow> bgcp option" where
  "store_at p i b s =
     do { a \<leftarrow> p; bs \<leftarrow> mem s a;
          (if i < length bs then Some (s\<lparr>mem := (mem s)(a \<mapsto> bs[i := b])\<rparr>) else None) }"

definition update_str_data_type :: "bgcp \<Rightarrow> bgcp option" where
  "update_str_data_type s =
     (let len = get_input_data_size s; data_buf = get_linked_data s in
      do { mx \<leftarrow> get_max_num_param_val s;
           (if unat len < nat (mx mod 2 ^ 32)
            then do {
              mn \<leftarrow> get_min_num_param_val s;
              (if nat (mn mod 2 ^ 32) \<le> unat len
               then do { s \<leftarrow> copy_input_data_to data_buf s; store_at data_buf (unat len) 0 s }
               else Some s)
            }
            else Some s) })"

definition send_str_data_type :: "bgcp \<Rightarrow> bgcp option" where
  "send_str_data_type s =
     do { bs \<leftarrow> mem_object (mem s) (get_linked_data s);
          n \<leftarrow> c_strlen bs;
          write_response (get_linked_data s) (of_nat n) s }"

definition update_bin_data_type :: "bgcp \<Rightarrow> bgcp option" where
  "update_bin_data_type s =
     do { mx \<leftarrow> get_max_num_param_val s;
          (if uint (get_input_data_size s) = mx
           then copy_input_data_to (get_linked_data s) s else Some s) }"

definition send_bin_data_type :: "bgcp \<Rightarrow> bgcp option" where
  "send_bin_data_type s =
     do { mx \<leftarrow> get_max_num_param_val s;
          write_response (get_linked_data s) (word_of_int mx) s }"

definition OFF :: u8 where "OFF = 0"
definition ON :: u8 where "ON = 1"
definition SWITCH :: u8 where "SWITCH = 2"

text \<open>A C \<open>bool\<close> object is one byte; any value but 0 reads as true.\<close>

definition update_bool_data_type :: "bgcp \<Rightarrow> bgcp option" where
  "update_bool_data_type s =
     (let val = get_linked_data s in
      if val \<noteq> None \<and> get_input_data_size s = 1
      then do {
        copied \<leftarrow> copy_input_data s;
        (case copied of
           None \<Rightarrow> Some s
         | Some bs \<Rightarrow>
             (let in_data = (le_word bs :: u8) in
              if in_data = SWITCH
              then do { old \<leftarrow> mem_read (mem s) val 1;
                        store val [if (le_word old :: u8) = 0 then 1 else 0] s }
              else if in_data = OFF then store val [0] s
              else if in_data = ON then store val [1] s
              else Some s))
      }
      else Some s)"

definition send_bool_data_type :: "bgcp \<Rightarrow> bgcp option" where
  "send_bool_data_type s = write_response (get_linked_data s) 1 s"

text \<open>
  The handlers the macro \<open>DEF_NUM_DATA\<close> generates for a numeric type of \<open>'w\<close> bits: the
  arithmetic is done in \<open>int\<close> and cut to the type, which is the word arithmetic below, and
  \<open>inc_val\<close> is \<open>-1\<close> cut to the type for a decrement.
\<close>

definition num_step :: "'w::len word \<Rightarrow> 'w word \<Rightarrow> 'w word \<Rightarrow> 'w word \<Rightarrow> 'w word" where
  "num_step min_val max_val inc v =
     (let new_val = v + inc in
      if new_val > max_val then min_val else if new_val < min_val then max_val else new_val)"

definition num_clamp :: "'w::len word \<Rightarrow> 'w word \<Rightarrow> 'w word \<Rightarrow> 'w word" where
  "num_clamp min_val max_val new_val =
     (if new_val > max_val then max_val else if new_val < min_val then min_val else new_val)"

definition update_num :: "'w::len itself \<Rightarrow> bgcp \<Rightarrow> bgcp option" where
  "update_num ty s =
     (let val = get_linked_data s; n = LENGTH('w) div 8 in
      do {
        mx \<leftarrow> get_max_num_param_val s;
        mn \<leftarrow> get_min_num_param_val s;
        inc \<leftarrow> get_inc_val s;
        (let max_val = word_of_int mx :: 'w word; min_val = word_of_int mn :: 'w word;
             inc_val = word_of_int inc :: 'w word in
         if val \<noteq> None
         then (if inc_val \<noteq> 0
               then do { old \<leftarrow> mem_read (mem s) val n;
                         store val (le_bytes n (num_step min_val max_val inc_val (le_word old))) s }
               else if unat (get_input_data_size s) = n
               then do {
                 copied \<leftarrow> copy_input_data s;
                 (case copied of
                    None \<Rightarrow> Some s
                  | Some bs \<Rightarrow> store val (le_bytes n (num_clamp min_val max_val (le_word bs))) s)
               }
               else Some s)
         else Some s)
      })"

definition send_num :: "'w::len itself \<Rightarrow> bgcp \<Rightarrow> bgcp option" where
  "send_num ty s = write_response (get_linked_data s) (of_nat (LENGTH('w) div 8)) s"

definition update_uint8_t :: "bgcp \<Rightarrow> bgcp option" where
  "update_uint8_t = update_num TYPE(8)"

definition update_uint16_t :: "bgcp \<Rightarrow> bgcp option" where
  "update_uint16_t = update_num TYPE(16)"

definition send_uint8_t :: "bgcp \<Rightarrow> bgcp option" where
  "send_uint8_t = send_num TYPE(8)"

definition send_uint16_t :: "bgcp \<Rightarrow> bgcp option" where
  "send_uint16_t = send_num TYPE(16)"

section \<open>Dispatch\<close>

definition data_type_descriptor_list :: "(param_type \<times> Descriptors) list" where
  "data_type_descriptor_list =
     [(PARAM_TYPE_1B,
       \<lparr>data_update_func = Some update_bool_data_type_fn, resp_func = Some send_bool_data_type_fn\<rparr>),
      (PARAM_TYPE_BIN,
       \<lparr>data_update_func = Some update_bin_data_type_fn, resp_func = Some send_bin_data_type_fn\<rparr>),
      (PARAM_TYPE_CONST_BIN,
       \<lparr>data_update_func = None, resp_func = Some send_bin_data_type_fn\<rparr>),
      (PARAM_TYPE_STR,
       \<lparr>data_update_func = Some update_str_data_type_fn, resp_func = Some send_str_data_type_fn\<rparr>),
      (PARAM_TYPE_8B_RANGE,
       \<lparr>data_update_func = Some update_range_data_fn, resp_func = Some send_uint8_t_fn\<rparr>),
      (PARAM_TYPE_8B,
       \<lparr>data_update_func = Some update_uint8_t_fn, resp_func = Some send_uint8_t_fn\<rparr>),
      (PARAM_TYPE_16B,
       \<lparr>data_update_func = Some update_uint16_t_fn, resp_func = Some send_uint16_t_fn\<rparr>)]"

fun find_descriptors :: "param_type \<Rightarrow> (param_type \<times> Descriptors) list \<Rightarrow> Descriptors option" where
  "find_descriptors ty [] = None"
| "find_descriptors ty ((t, d) # ds) = (if t = ty then Some d else find_descriptors ty ds)"

definition get_descriptors_of_data_type :: "param_type \<Rightarrow> Descriptors option" where
  "get_descriptors_of_data_type ty = find_descriptors ty data_type_descriptor_list"

text \<open>
  \<open>get_param_data_processor\<close> returns a pointer: into the slot itself for an action, where a
  later read sees what a handler has stored there meanwhile, or into the constant table.
\<close>

datatype descr_ptr = Slot_descr nat | Type_descr Descriptors

definition get_param_data_processor :: "nat \<Rightarrow> Param list \<Rightarrow> descr_ptr option" where
  "get_param_data_processor i ps =
     (if data_type (ps ! i) = PARAM_TYPE_ACTION then Some (Slot_descr i)
      else map_option Type_descr (get_descriptors_of_data_type (data_type (ps ! i))))"

fun deref_descr :: "descr_ptr \<Rightarrow> Param list \<Rightarrow> Descriptors option" where
  "deref_descr (Slot_descr i) ps = (case u (ps ! i) of Dascriptors d \<Rightarrow> Some d | _ \<Rightarrow> None)"
| "deref_descr (Type_descr d) ps = Some d"

text \<open>
  A function of the application reads the parser through the accessors and writes the linked
  objects, the table and the queue; it cannot move the parser's cursor, which is static to
  \<open>bgcp_data_processor.c\<close>.  \<open>app\<close> gives the functions of the application.
\<close>

type_synonym app_fns = "nat \<Rightarrow> bgcp \<Rightarrow> (Param list \<times> BGCPQueue \<times> mem) option"

fun call_fn :: "app_fns \<Rightarrow> fn \<Rightarrow> bgcp \<Rightarrow> bgcp option" where
  "call_fn app update_bool_data_type_fn s = update_bool_data_type s"
| "call_fn app send_bool_data_type_fn s = send_bool_data_type s"
| "call_fn app update_bin_data_type_fn s = update_bin_data_type s"
| "call_fn app send_bin_data_type_fn s = send_bin_data_type s"
| "call_fn app update_str_data_type_fn s = update_str_data_type s"
| "call_fn app send_str_data_type_fn s = send_str_data_type s"
| "call_fn app update_range_data_fn s = update_range_data s"
| "call_fn app update_uint8_t_fn s = update_uint8_t s"
| "call_fn app send_uint8_t_fn s = send_uint8_t s"
| "call_fn app update_uint16_t_fn s = update_uint16_t s"
| "call_fn app send_uint16_t_fn s = send_uint16_t s"
| "call_fn app (App_fn k) s =
     do { (ps, q, m) \<leftarrow> app k s; Some (s\<lparr>param_list := ps, rq := q, mem := m\<rparr>) }"

definition call_opt :: "app_fns \<Rightarrow> fn option \<Rightarrow> bgcp \<Rightarrow> bgcp option" where
  "call_opt app f s = (case f of None \<Rightarrow> Some s | Some f \<Rightarrow> call_fn app f s)"

text \<open>The two byte readers of the debug output.\<close>

definition get_8b_val :: "u8 list option \<Rightarrow> u8 option" where
  "get_8b_val data =
     (case data of None \<Rightarrow> Some 0 | Some bs \<Rightarrow> (case bs of [] \<Rightarrow> None | b # _ \<Rightarrow> Some b))"

definition get_16b_val :: "u8 list option \<Rightarrow> u16 option" where
  "get_16b_val data =
     (case data of
        None \<Rightarrow> Some 0
      | Some bs \<Rightarrow> (case bs of a # b # _ \<Rightarrow> Some (u16_of b a) | _ \<Rightarrow> None))"

section \<open>What a handler may change\<close>

text \<open>
  An update handler changes at most the object its parameter is linked to, and keeps its
  size; a response handler changes at most the queue.
\<close>

definition writes_linked :: "bgcp \<Rightarrow> bgcp \<Rightarrow> bool" where
  "writes_linked s s' \<longleftrightarrow>
     (\<exists>m. s' = s\<lparr>mem := m\<rparr> \<and> same_shape (mem s) m \<and>
          (\<forall>b. get_linked_data s \<noteq> Some b \<longrightarrow> m b = mem s b))"

definition writes_queue :: "bgcp \<Rightarrow> bgcp \<Rightarrow> bool" where
  "writes_queue s s' \<longleftrightarrow> (\<exists>q. s' = s\<lparr>rq := q\<rparr>)"

lemma writes_linked_refl [simp]: "writes_linked s s"
  unfolding writes_linked_def by (rule exI [of _ "mem s"]) simp

lemma writes_queue_refl [simp]: "writes_queue s s"
  unfolding writes_queue_def by (rule exI [of _ "rq s"]) simp

lemma cur_param_mem [simp]: "cur_param (s\<lparr>mem := m\<rparr>) = cur_param s"
  by (simp add: cur_param_def)

lemma get_linked_data_mem [simp]: "get_linked_data (s\<lparr>mem := m\<rparr>) = get_linked_data s"
  by (simp add: get_linked_data_def)

lemma writes_linkedI:
  "mem_write (mem s) p new = Some m \<Longrightarrow> get_linked_data s = p \<Longrightarrow> writes_linked s (s\<lparr>mem := m\<rparr>)"
  unfolding writes_linked_def
  by (intro exI [of _ m]) (simp add: mem_write_same_shape mem_write_other)

lemma store_writes: "store p new s = Some s' \<Longrightarrow> get_linked_data s = p \<Longrightarrow> writes_linked s s'"
  by (auto simp: store_def Option.bind_eq_Some_conv intro: writes_linkedI)

lemma copy_input_data_to_writes:
  "copy_input_data_to p s = Some s' \<Longrightarrow> get_linked_data s = p \<Longrightarrow> writes_linked s s'"
  by (auto simp: copy_input_data_to_def Option.bind_eq_Some_conv intro: writes_linkedI
      split: option.splits)

lemma same_shape_update:
  "same_shape m m' \<Longrightarrow> m' a = Some bs \<Longrightarrow> length bs' = length bs \<Longrightarrow> same_shape m (m'(a \<mapsto> bs'))"
  unfolding same_shape_def by (metis fun_upd_apply option.map(2))

lemma store_at_writes:
  assumes "store_at p i b s1 = Some s'" "writes_linked s s1" "get_linked_data s = p"
  shows "writes_linked s s'"
proof -
  from assms(2) obtain m where m: "s1 = s\<lparr>mem := m\<rparr>" "same_shape (mem s) m"
    "\<And>b. get_linked_data s \<noteq> Some b \<Longrightarrow> m b = mem s b"
    by (auto simp: writes_linked_def)
  from assms(1) m(1) obtain a bs where a: "p = Some a" "m a = Some bs"
    "s' = s\<lparr>mem := m(a \<mapsto> bs[i := b])\<rparr>"
    by (auto simp: store_at_def Option.bind_eq_Some_conv split: if_splits)
  have "same_shape (mem s) (m(a \<mapsto> bs[i := b]))"
    using m(2) a(2) by (rule same_shape_update) simp
  moreover have "\<forall>b'. get_linked_data s \<noteq> Some b' \<longrightarrow> (m(a \<mapsto> bs[i := b])) b' = mem s b'"
    using m(3) a(1) assms(3) by simp
  ultimately show ?thesis using a(3) unfolding writes_linked_def by blast
qed

text \<open>One step of a chain of fallible operations.\<close>

lemma bind_SomeE:
  assumes "Option.bind x f = Some y"
  obtains z where "x = Some z" "f z = Some y"
  using assms by (cases x) auto

lemma update_range_data_writes: "update_range_data s = Some s' \<Longrightarrow> writes_linked s s'"
  unfolding update_range_data_def Let_def
  by (elim bind_SomeE)
    (auto elim!: bind_SomeE split: if_splits option.split_asm, (erule (1) store_writes)+)

lemma update_str_data_type_writes: "update_str_data_type s = Some s' \<Longrightarrow> writes_linked s s'"
  unfolding update_str_data_type_def Let_def
  by (elim bind_SomeE) (auto elim!: bind_SomeE split: if_splits
      dest: store_at_writes dest!: copy_input_data_to_writes)

lemma update_bin_data_type_writes: "update_bin_data_type s = Some s' \<Longrightarrow> writes_linked s s'"
  unfolding update_bin_data_type_def
  by (elim bind_SomeE) (auto split: if_splits dest: copy_input_data_to_writes)

lemma update_bool_data_type_writes: "update_bool_data_type s = Some s' \<Longrightarrow> writes_linked s s'"
  unfolding update_bool_data_type_def Let_def
  by (auto elim!: bind_SomeE split: if_split_asm option.split_asm dest: store_writes)

lemma update_num_writes: "update_num ty s = Some s' \<Longrightarrow> writes_linked s s'"
  unfolding update_num_def Let_def
  by (elim bind_SomeE)
    (auto elim!: bind_SomeE split: if_split_asm option.split_asm dest: store_writes)

lemma write_response_writes: "write_response data sz s = Some s' \<Longrightarrow> writes_queue s s'"
  by (auto simp: write_response_def Option.bind_eq_Some_conv writes_queue_def)

lemma send_str_data_type_writes: "send_str_data_type s = Some s' \<Longrightarrow> writes_queue s s'"
  by (auto simp: send_str_data_type_def Option.bind_eq_Some_conv dest: write_response_writes)

lemma send_bin_data_type_writes: "send_bin_data_type s = Some s' \<Longrightarrow> writes_queue s s'"
  by (auto simp: send_bin_data_type_def Option.bind_eq_Some_conv dest: write_response_writes)

lemmas update_writes = update_range_data_writes update_str_data_type_writes
  update_bin_data_type_writes update_bool_data_type_writes update_num_writes

lemmas send_writes = send_str_data_type_writes send_bin_data_type_writes write_response_writes

lemma writes_parser:
  "writes_linked s s' \<Longrightarrow> parser s' = parser s"
  "writes_queue s s' \<Longrightarrow> parser s' = parser s"
  by (auto simp: writes_linked_def writes_queue_def)

text \<open>No handler, of the component or of the application, moves the parser.\<close>

lemma call_fn_parser: "call_fn app f s = Some s' \<Longrightarrow> parser s' = parser s"
  by (cases f)
    (auto simp: update_uint8_t_def update_uint16_t_def send_uint8_t_def send_uint16_t_def
      send_bool_data_type_def send_num_def elim!: bind_SomeE
      dest!: update_writes send_writes dest: writes_parser)

lemma call_opt_parser: "call_opt app f s = Some s' \<Longrightarrow> parser s' = parser s"
  by (auto simp: call_opt_def split: option.splits dest: call_fn_parser)

section \<open>The numeric step\<close>

lemma num_step_inc:
  fixes v :: "'w::len word"
  assumes "mn \<le> v" "v \<le> mx"
  shows "num_step mn mx 1 v = (if v \<noteq> mx then v + 1 else if mx = -1 \<and> mn \<noteq> 0 then mx else mn)"
proof (cases "v = mx")
  case True
  show ?thesis
  proof (cases "mx = -1")
    case mx: True
    then show ?thesis using True by (cases "mn = 0") (simp_all add: num_step_def Let_def word_neq_0_conv)
  next
    case False
    then have "mx < mx + 1" using inc_less_eq_self_iff_eq [of mx] by (simp add: not_le [symmetric])
    with True False show ?thesis by (simp add: num_step_def Let_def)
  qed
next
  case False
  then have lt: "v < mx" using assms(2) by simp
  then have "v + 1 \<le> mx" by (rule inc_le)
  moreover have "mn \<le> v + 1"
    using assms(1) lt by (metis inc_less_eq_self_iff_eq linorder_le_cases not_le order.trans
        word_order.extremum_strict)
  ultimately show ?thesis using False by (auto simp: num_step_def Let_def)
qed

lemma num_step_dec:
  fixes v :: "'w::len word"
  assumes "mn \<le> v" "v \<le> mx"
  shows "num_step mn mx (-1) v =
    (if v \<noteq> mn then v - 1 else if mn = 0 \<and> mx \<noteq> -1 then mn else mx)"
proof (cases "v = mn")
  case True
  show ?thesis
  proof (cases "mn = 0")
    case mn: True
    then show ?thesis using True by (auto simp: num_step_def Let_def) (simp add: word_order.not_eq_extremum [symmetric])
  next
    case False
    then have "mn - 1 < mn" by uint_arith
    moreover have "mn - 1 \<le> mx" using False assms True by uint_arith
    ultimately show ?thesis using True False by (auto simp: num_step_def Let_def)
  qed
next
  case False
  then have "mn < v" using assms(1) by simp
  then have "mn \<le> v - 1" "v - 1 \<le> v" by uint_arith+
  then show ?thesis using False assms(2) by (auto simp: num_step_def Let_def)
qed

lemma num_clamp_range: "mn \<le> mx \<Longrightarrow> mn \<le> num_clamp mn mx v \<and> num_clamp mn mx v \<le> mx"
  by (auto simp: num_clamp_def)

end
