(* ===== verification/Bgcp_Parser.thy ===== *)
theory Bgcp_Parser
  imports Bgcp_Handlers
begin

text \<open>
  The packet parser, \<open>components/bgcp/bgcp_data_processor.c\<close>: one definition per C function,
  on the state \<open>bgcp\<close> of \<open>Bgcp_Handlers\<close>, without the code of debug builds
  (\<open>BGCP_DEBUG\<close>).  \<open>parse\<close> is the loop over the packet; it ends because every round reads
  at least one byte.
\<close>

section \<open>Reading the packet\<close>

abbreviation upd_parser :: "(ParserData \<Rightarrow> ParserData) \<Rightarrow> bgcp \<Rightarrow> bgcp" where
  "upd_parser f s \<equiv> s\<lparr>parser := f (parser s)\<rparr>"

text \<open>\<open>read_byte\<close>: 0 at the end of the packet; \<open>None\<close> if the cursor were outside the buffer.\<close>

definition read_byte :: "bgcp \<Rightarrow> (u8 \<times> bgcp) option" where
  "read_byte s =
     (let p = parser s in
      if data_in p \<ge> data_in_end p then Some (0, s)
      else if data_in p < length (packet p)
      then Some (packet p ! data_in p, s\<lparr>parser := p\<lparr>data_in := data_in p + 1\<rparr>\<rparr>)
      else None)"

definition set_default_block_size :: "bgcp \<Rightarrow> bgcp" where
  "set_default_block_size s =
     (let f = func_num (parser s) in
      if f = BGCP_FUNC_W \<or> f = BGCP_FUNC_RW \<or> f = BGCP_FUNC_RESP
      then upd_parser (\<lambda>p. p\<lparr>seted_data_size := DEFAULT_DATA_BLOCK_SIZE\<rparr>) s
      else upd_parser (\<lambda>p. p\<lparr>seted_data_size := 0\<rparr>) s)"

definition set_data_size :: "bgcp \<Rightarrow> bgcp option" where
  "set_data_size s =
     do { (block_size, s) \<leftarrow> read_byte s;
          (let f = func_num (parser s) in
           if f = BGCP_FUNC_RW \<or> f = BGCP_FUNC_W \<or> f = BGCP_FUNC_RESP
           then Some (upd_parser (\<lambda>p. p\<lparr>seted_data_size := unat block_size\<rparr>) s)
           else Some s) }"

definition link_data :: "bgcp \<Rightarrow> bgcp" where
  "link_data s =
     (let f = func_num (parser s);
          s = (if f = BGCP_FUNC_RW \<or> f = BGCP_FUNC_W \<or> f = BGCP_FUNC_RESP
               then upd_parser (\<lambda>p. p\<lparr>in_val := Some (data_in p)\<rparr>) s else s)
      in upd_parser (\<lambda>p. p\<lparr>in_data_size := seted_data_size p\<rparr>) s)"

definition set_new_page :: "bgcp \<Rightarrow> bgcp option" where
  "set_new_page s =
     do { (b, s) \<leftarrow> read_byte s; Some (upd_parser (\<lambda>p. p\<lparr>page := b\<rparr>) s) }"

definition is_valid_func :: "u8 \<Rightarrow> bool" where
  "is_valid_func func \<longleftrightarrow>
     func = BGCP_FUNC_R \<or> func = BGCP_FUNC_RW \<or> func = BGCP_FUNC_DEC_RW \<or>
     func = BGCP_FUNC_INC_RW \<or> func = BGCP_FUNC_RESP \<or> func = BGCP_FUNC_W"

definition set_new_func :: "bgcp \<Rightarrow> (bool \<times> bgcp) option" where
  "set_new_func s =
     do { (func, s) \<leftarrow> read_byte s;
          (let inc = (if func = BGCP_FUNC_DEC_RW then -1
                      else if func = BGCP_FUNC_INC_RW then 1 else 0);
               s = upd_parser (\<lambda>p. p\<lparr>inc_val := inc\<rparr>) s;
               s = upd_parser (\<lambda>p. p\<lparr>func_num := (if is_valid_func func then func else NO_FUNC)\<rparr>) s
           in Some (is_valid_func func, set_default_block_size s)) }"

section \<open>One parameter\<close>

definition data_processing :: "app_fns \<Rightarrow> bool \<Rightarrow> bool \<Rightarrow> bgcp \<Rightarrow> bgcp option" where
  "data_processing app need_update need_response s =
     do {
       i \<leftarrow> param (parser s);
       (case get_param_data_processor i (param_list s) of
          None \<Rightarrow> Some s
        | Some funcs \<Rightarrow>
            do {
              s \<leftarrow> (if need_update
                    then do { d \<leftarrow> deref_descr funcs (param_list s);
                              call_opt app (data_update_func d) s }
                    else Some s);
              (if need_response
               then do { d \<leftarrow> deref_descr funcs (param_list s); call_opt app (resp_func d) s }
               else Some s)
            })
     }"

definition update_param_data_lifetime :: "u32 \<Rightarrow> bgcp \<Rightarrow> bgcp" where
  "update_param_data_lifetime cur_time s =
     (case param (parser s) of
        Some i \<Rightarrow>
          (if is_write_func (func_num (parser s))
           then s\<lparr>param_list := (param_list s)[i := (param_list s ! i)\<lparr>time_update := cur_time\<rparr>]\<rparr>
           else s)
      | None \<Rightarrow> s)"

definition check_data_in :: "bgcp \<Rightarrow> bool" where
  "check_data_in s =
     (let p = parser s in
      if func_num p = NO_FUNC then False
      else if data_in_end p < data_in p + seted_data_size p then False
      else True)"

definition reset_param_data :: "bgcp \<Rightarrow> bgcp" where
  "reset_param_data = upd_parser (\<lambda>p. p\<lparr>param := None, in_data_size := 0, in_val := None\<rparr>)"

definition perform :: "app_fns \<Rightarrow> u8 \<Rightarrow> bgcp \<Rightarrow> bgcp option" where
  "perform app byte s =
     (let need_update = is_write_func (func_num (parser s));
          need_response = is_read_func (func_num (parser s)) in
      do {
        (lbyte, perform_processing, s) \<leftarrow>
          (if byte = BGCP_CMD_NOT_SUP
           then do { (b, s) \<leftarrow> read_byte s;
                     Some (b, False, upd_parser (\<lambda>p. p\<lparr>seted_data_size := 0\<rparr>) s) }
           else Some (byte, check_data_in s, s));
        (let num = u16_of (page (parser s)) lbyte;
             s = upd_parser (\<lambda>p. p\<lparr>param := get_param num (param_list s)\<rparr>) s in
         do {
           s \<leftarrow> (if param (parser s) = None
                 then (if need_response
                       then do { q \<leftarrow> queue_push_no_sup_param num (rq s); Some (s\<lparr>rq := q\<rparr>) }
                       else Some s)
                 else if perform_processing
                 then data_processing app need_update need_response (link_data s)
                 else Some s);
           Some (set_default_block_size
                   (upd_parser (\<lambda>p. p\<lparr>data_in := data_in p + seted_data_size p\<rparr>) s))
         })
      })"

section \<open>The loop\<close>

definition GET_TIME :: u32 where "GET_TIME = 0"

text \<open>One round of the \<open>while\<close> loop of \<open>parse\<close>.\<close>

definition parse_round :: "app_fns \<Rightarrow> bgcp \<Rightarrow> bgcp option" where
  "parse_round app s =
     do {
       (byte, s) \<leftarrow> read_byte s;
       (if byte = BGCP_CMD_PAGE then set_new_page s
        else if byte = BGCP_CMD_FUNC then map_option snd (set_new_func s)
        else if byte = BGCP_CMD_SIZE then set_data_size s
        else do { s \<leftarrow> perform app byte s;
                  Some (reset_param_data (update_param_data_lifetime GET_TIME s)) })
     }"

text \<open>How much of the packet is left.\<close>

definition unread :: "bgcp \<Rightarrow> nat" where
  "unread s = data_in_end (parser s) - data_in (parser s)"

lemma read_byte_rest:
  "read_byte s = Some (b, s') \<Longrightarrow>
   s' = upd_parser (\<lambda>p. p\<lparr>data_in := data_in (parser s')\<rparr>) s \<and>
   data_in (parser s) \<le> data_in (parser s') \<and>
   (data_in (parser s) < data_in_end (parser s) \<longrightarrow> data_in (parser s') = data_in (parser s) + 1)"
  by (auto simp: read_byte_def Let_def split: if_splits)

lemma read_byte_progress:
  "read_byte s = Some (b, s') \<Longrightarrow> data_in (parser s) \<le> data_in (parser s') \<and>
   data_in_end (parser s') = data_in_end (parser s)"
  by (auto simp: read_byte_def Let_def split: if_splits)

lemma set_default_block_size_progress [simp]:
  "data_in (parser (set_default_block_size s)) = data_in (parser s)"
  "data_in_end (parser (set_default_block_size s)) = data_in_end (parser s)"
  by (simp_all add: set_default_block_size_def Let_def)

lemma data_processing_parser:
  "data_processing app b c s = Some s' \<Longrightarrow> parser s' = parser s"
  by (auto simp: data_processing_def Option.bind_eq_Some_conv split: option.splits if_splits
      dest!: call_opt_parser)

lemma link_data_progress [simp]:
  "data_in (parser (link_data s)) = data_in (parser s)"
  "data_in_end (parser (link_data s)) = data_in_end (parser s)"
  "seted_data_size (parser (link_data s)) = seted_data_size (parser s)"
  by (simp_all add: link_data_def Let_def)

lemma perform_progress:
  "perform app byte s = Some s' \<Longrightarrow> data_in (parser s) \<le> data_in (parser s') \<and>
   data_in_end (parser s') = data_in_end (parser s)"
  by (auto simp: perform_def Let_def Option.bind_eq_Some_conv
      split: if_splits dest!: data_processing_parser read_byte_progress)

lemma parse_round_decreases:
  assumes "data_in (parser s) < data_in_end (parser s)" "parse_round app s = Some s'"
  shows "unread s' < unread s"
proof -
  from assms(2) obtain b s1 where s1: "read_byte s = Some (b, s1)"
    by (auto simp: parse_round_def Option.bind_eq_Some_conv)
  have cur: "data_in (parser s1) = data_in (parser s) + 1"
    "data_in_end (parser s1) = data_in_end (parser s)"
    using read_byte_rest [OF s1] read_byte_progress [OF s1] assms(1) by auto
  have "data_in (parser s1) \<le> data_in (parser s') \<and>
      data_in_end (parser s') = data_in_end (parser s1)"
    using assms(2) s1
    by (auto simp: parse_round_def Option.bind_eq_Some_conv set_new_page_def set_new_func_def
        set_data_size_def reset_param_data_def update_param_data_lifetime_def Let_def
        split: if_splits option.splits dest!: perform_progress dest: read_byte_progress)
  with cur assms(1) show ?thesis by (auto simp: unread_def)
qed

function parse_loop :: "app_fns \<Rightarrow> bgcp \<Rightarrow> bgcp option" where
  "parse_loop app s =
     (if data_in (parser s) < data_in_end (parser s)
      then do { s \<leftarrow> parse_round app s; parse_loop app s }
      else Some s)"
  by pat_completeness auto
termination
  by (relation "measure (\<lambda>(app, s). unread s)") (auto dest: parse_round_decreases)

declare parse_loop.simps [simp del]

text \<open>
  \<open>parse(data_in, size)\<close>.  A packet that does not start with a known function number is
  dropped before the queue is reset.
\<close>

definition parse :: "app_fns \<Rightarrow> u8 list \<Rightarrow> u16 \<Rightarrow> bgcp \<Rightarrow> bgcp option" where
  "parse app data sz s =
     (let s = upd_parser (\<lambda>p. p\<lparr>packet := data, data_in := 0, data_in_end := unat sz, page := 0\<rparr>) s in
      do {
        (ok, s) \<leftarrow> set_new_func s;
        (if \<not> ok then Some s
         else parse_loop app (reset_param_data (s\<lparr>rq := reset_req_queue (rq s)\<rparr>)))
      })"

end
