(* ===== verification/Bgcp_View.thy ===== *)
theory Bgcp_View
  imports Bgcp_Parser
begin

text \<open>
  What a handler sees of the parser: the current parameter, the step, and the bytes of the
  input value.  Two states that agree on these, on the table, the queue and the objects give
  the same result, wherever the packet and the cursor are.  This is what makes it possible to
  say what a packet does without speaking of positions in it.
\<close>

section \<open>Views\<close>

definition obs :: "bgcp \<Rightarrow> Param list \<times> BGCPQueue \<times> mem" where
  "obs s = (param_list s, rq s, mem s)"

definition input_view :: "bgcp \<Rightarrow> nat option \<times> int \<times> u8 \<times> u8 list option option" where
  "input_view s =
     (param (parser s), inc_val (parser s), get_input_data_size s, copy_input_data s)"

text \<open>\<open>t\<close> is \<open>s\<close> with another parser that shows the handlers the same input.\<close>

definition same_view :: "bgcp \<Rightarrow> bgcp \<Rightarrow> bool" where
  "same_view s t \<longleftrightarrow> obs s = obs t \<and> input_view s = input_view t"

text \<open>The functions of the application read the parser through its accessors only.\<close>

definition app_local :: "app_fns \<Rightarrow> bool" where
  "app_local app \<longleftrightarrow> (\<forall>k s t. same_view s t \<longrightarrow> app k s = app k t)"

text \<open>The result \<open>r\<close> of a handler on \<open>s\<close>, moved to the parser of \<open>t\<close>.\<close>

definition on_parser :: "bgcp \<Rightarrow> bgcp option \<Rightarrow> bgcp option" where
  "on_parser t r = map_option (\<lambda>x. x\<lparr>parser := parser t\<rparr>) r"

lemma on_parser_simps:
  "on_parser t None = None"
  "on_parser t (Some x) = Some (x\<lparr>parser := parser t\<rparr>)"
  "on_parser t (Option.bind m f) = Option.bind m (\<lambda>v. on_parser t (f v))"
  "on_parser t (if c then r else r') = (if c then on_parser t r else on_parser t r')"
  "on_parser t (case m' of None \<Rightarrow> r | Some v \<Rightarrow> g v) =
     (case m' of None \<Rightarrow> on_parser t r | Some v \<Rightarrow> on_parser t (g v))"
  by (auto simp: on_parser_def split: option.splits Option.bind_splits)

lemma obs_eqD: "obs s = obs t \<Longrightarrow> t = s\<lparr>parser := parser t\<rparr>"
  by (cases s; cases t) (simp add: obs_def)

lemma same_viewD:
  assumes "same_view s t"
  shows "param_list t = param_list s" "rq t = rq s" "mem t = mem s"
    "param (parser t) = param (parser s)" "inc_val (parser t) = inc_val (parser s)"
    "get_input_data_size t = get_input_data_size s" "copy_input_data t = copy_input_data s"
    "s\<lparr>parser := parser t\<rparr> = t"
  using assms obs_eqD [of s t] by (auto simp: same_view_def obs_def input_view_def)

lemma same_view_accessors:
  assumes "same_view s t"
  shows "cur_param t = cur_param s" "get_valid_val_list_len t = get_valid_val_list_len s"
    "get_valid_val_list t = get_valid_val_list s" "get_linked_data t = get_linked_data s"
    "get_inc_val t = get_inc_val s" "get_min_num_param_val t = get_min_num_param_val s"
    "get_max_num_param_val t = get_max_num_param_val s" "valid_vals v t = valid_vals v s"
proof -
  note view = same_viewD [OF assms]
  show cur: "cur_param t = cur_param s" by (simp add: cur_param_def view)
  show "get_valid_val_list_len t = get_valid_val_list_len s"
    "get_valid_val_list t = get_valid_val_list s" "get_linked_data t = get_linked_data s"
    "get_inc_val t = get_inc_val s" "get_min_num_param_val t = get_min_num_param_val s"
    "get_max_num_param_val t = get_max_num_param_val s" "valid_vals v t = valid_vals v s"
    unfolding get_valid_val_list_len_def get_valid_val_list_def get_linked_data_def
      get_inc_val_def get_min_num_param_val_def get_max_num_param_val_def valid_vals_def cur
      view(1-7) by (rule refl)+
qed

section \<open>Handlers\<close>

lemma same_view_set:
  assumes "same_view s t"
  shows "s\<lparr>mem := m, parser := parser t\<rparr> = t\<lparr>mem := m\<rparr>"
    "s\<lparr>rq := q, parser := parser t\<rparr> = t\<lparr>rq := q\<rparr>"
  using same_viewD(1-3) [OF assms] by (cases s; cases t; simp)+

lemma store_view: "same_view s t \<Longrightarrow> store p new t = on_parser t (store p new s)"
  unfolding store_def on_parser_simps by (simp only: same_view_set same_viewD(3))

lemma copy_input_data_to_view:
  assumes "same_view s t"
  shows "copy_input_data_to p t = on_parser t (copy_input_data_to p s)"
  unfolding copy_input_data_to_def on_parser_simps same_view_set [OF assms] same_viewD [OF assms]
  by (rule refl)

lemma write_response_view:
  assumes "same_view s t"
  shows "write_response data sz t = on_parser t (write_response data sz s)"
  unfolding write_response_def on_parser_simps same_view_accessors [OF assms]
    same_view_set [OF assms] same_viewD [OF assms]
  by (rule refl)

lemma update_range_data_view:
  assumes v: "same_view s t"
  shows "update_range_data t = on_parser t (update_range_data s)"
  unfolding update_range_data_def Let_def same_view_accessors [OF v] store_view [OF v]
    on_parser_simps same_viewD [OF v]
  by (rule refl)

lemma update_bool_data_type_view:
  assumes v: "same_view s t"
  shows "update_bool_data_type t = on_parser t (update_bool_data_type s)"
  unfolding update_bool_data_type_def Let_def same_view_accessors [OF v] store_view [OF v]
    on_parser_simps same_viewD [OF v]
  by (rule refl)

lemma update_num_view:
  assumes v: "same_view s t"
  shows "update_num ty t = on_parser t (update_num ty s)"
  unfolding update_num_def Let_def same_view_accessors [OF v] store_view [OF v]
    on_parser_simps same_viewD [OF v]
  by (rule refl)

lemma update_bin_data_type_view:
  assumes v: "same_view s t"
  shows "update_bin_data_type t = on_parser t (update_bin_data_type s)"
  unfolding update_bin_data_type_def same_view_accessors [OF v] copy_input_data_to_view [OF v]
    on_parser_simps same_viewD [OF v]
  by (rule refl)

lemma store_at_view:
  "store_at p i b (x\<lparr>parser := parser t\<rparr>) = on_parser t (store_at p i b x)"
proof -
  have swap: "x\<lparr>parser := parser t, mem := m\<rparr> = x\<lparr>mem := m, parser := parser t\<rparr>" for m
    by (cases x) simp
  have same: "mem (x\<lparr>parser := parser t\<rparr>) = mem x" by simp
  show ?thesis unfolding store_at_def on_parser_simps same swap by (rule refl)
qed

lemma on_parser_bind:
  assumes "\<And>x. f (x\<lparr>parser := parser t\<rparr>) = on_parser t (g x)"
  shows "Option.bind (on_parser t r) f = on_parser t (Option.bind r g)"
  using assms by (cases r) (simp_all add: on_parser_simps)

lemma update_str_data_type_view:
  assumes v: "same_view s t"
  shows "update_str_data_type t = on_parser t (update_str_data_type s)"
proof -
  have "Option.bind (on_parser t (copy_input_data_to p s)) (store_at p' i b) =
      on_parser t (Option.bind (copy_input_data_to p s) (store_at p' i b))" for p p' i b
    by (rule on_parser_bind) (rule store_at_view)
  then show ?thesis
    unfolding update_str_data_type_def Let_def same_view_accessors [OF v]
      copy_input_data_to_view [OF v] same_viewD [OF v] on_parser_simps(2,4,5)
    by (simp add: on_parser_simps(2,3,4) same_viewD(8) [OF v] cong: if_cong)
qed

lemma send_view:
  assumes v: "same_view s t"
  shows "send_bin_data_type t = on_parser t (send_bin_data_type s)"
    "send_str_data_type t = on_parser t (send_str_data_type s)"
    "send_bool_data_type t = on_parser t (send_bool_data_type s)"
    "send_num ty t = on_parser t (send_num ty s)"
  unfolding send_bin_data_type_def send_str_data_type_def send_bool_data_type_def send_num_def
    same_view_accessors [OF v] same_viewD(3) [OF v] write_response_view [OF v] on_parser_simps
  by (rule refl)+

lemma call_fn_view:
  assumes v: "same_view s t" and app: "app_local app"
  shows "call_fn app f t = on_parser t (call_fn app f s)"
proof (cases f)
  case (App_fn k)
  have "app k t = app k s" using app v unfolding app_local_def by metis
  moreover have "s\<lparr>param_list := a, rq := b, mem := c, parser := parser t\<rparr> =
      t\<lparr>param_list := a, rq := b, mem := c\<rparr>" for a b c
    by (cases s; cases t) simp
  ultimately show ?thesis
    using App_fn by (cases "app k s") (auto simp: on_parser_simps)
qed (simp_all add: update_range_data_view [OF v] update_bool_data_type_view [OF v]
    update_num_view [OF v] update_bin_data_type_view [OF v] update_str_data_type_view [OF v]
    send_view [OF v] update_uint8_t_def update_uint16_t_def send_uint8_t_def send_uint16_t_def)

lemma call_opt_view:
  assumes "same_view s t" "app_local app"
  shows "call_opt app f t = on_parser t (call_opt app f s)"
  using call_fn_view [OF assms] same_viewD(8) [OF assms(1)]
  by (cases f) (simp_all add: call_opt_def on_parser_simps)

lemma input_view_parser:
  assumes "parser x = parser y"
  shows "input_view x = input_view y"
  unfolding input_view_def get_input_data_size_def copy_input_data_def assms by (rule refl)

text \<open>Handlers keep the parser, so what one leaves behind is seen alike by the next.\<close>

lemma same_view_after:
  assumes "same_view s t" "parser x = parser s"
  shows "same_view x (x\<lparr>parser := parser t\<rparr>)"
proof -
  have "input_view x = input_view s" "input_view (x\<lparr>parser := parser t\<rparr>) = input_view t"
    using assms(2) by (auto intro: input_view_parser)
  with assms(1) show ?thesis by (simp add: same_view_def obs_def)
qed

definition update_part :: "app_fns \<Rightarrow> bool \<Rightarrow> descr_ptr \<Rightarrow> bgcp \<Rightarrow> bgcp option" where
  "update_part app c d s =
     (if c then do { d \<leftarrow> deref_descr d (param_list s); call_opt app (data_update_func d) s } else Some s)"

definition response_part :: "app_fns \<Rightarrow> bool \<Rightarrow> descr_ptr \<Rightarrow> bgcp \<Rightarrow> bgcp option" where
  "response_part app c d s =
     (if c then do { d \<leftarrow> deref_descr d (param_list s); call_opt app (resp_func d) s } else Some s)"

lemma data_processing_parts:
  "data_processing app b c s =
     do { i \<leftarrow> param (parser s);
          (case get_param_data_processor i (param_list s) of
             None \<Rightarrow> Some s
           | Some d \<Rightarrow> do { s \<leftarrow> update_part app b d s; response_part app c d s }) }"
  unfolding data_processing_def update_part_def response_part_def by (rule refl)

lemma parts_view:
  assumes "same_view s t" "app_local app"
  shows "update_part app c d t = on_parser t (update_part app c d s)"
    "response_part app c d t = on_parser t (response_part app c d s)"
  unfolding update_part_def response_part_def call_opt_view [OF assms] on_parser_simps
    same_viewD(1,8) [OF assms(1)]
  by (rule refl)+

lemma update_part_parser: "update_part app c d s = Some s' \<Longrightarrow> parser s' = parser s"
  by (auto simp: update_part_def elim!: bind_SomeE dest: call_opt_parser split: if_splits)

lemma data_processing_view:
  assumes v: "same_view s t" and app: "app_local app"
  shows "data_processing app b c t = on_parser t (data_processing app b c s)"
proof -
  have "Option.bind (on_parser t (update_part app b d s)) (response_part app c d) =
      on_parser t (Option.bind (update_part app b d s) (response_part app c d))" for d
  proof (cases "update_part app b d s")
    case None
    then show ?thesis by (simp add: on_parser_simps)
  next
    case (Some x)
    have "response_part app c d (x\<lparr>parser := parser t\<rparr>) = on_parser t (response_part app c d x)"
      using parts_view(2) [OF same_view_after [OF v update_part_parser [OF Some]] app]
      by (simp add: on_parser_def)
    with Some show ?thesis by (simp add: on_parser_simps)
  qed
  note parts = this
  show ?thesis
  proof (cases "param (parser s)")
    case None
    then show ?thesis by (simp add: data_processing_def same_viewD [OF v] on_parser_simps)
  next
    case (Some i)
    then show ?thesis
      by (cases "get_param_data_processor i (param_list s)")
        (simp_all add: data_processing_parts same_viewD [OF v] parts_view(1) [OF v app] parts
          on_parser_simps(2))
  qed
qed

end
