(* ===== verification/Bgcp_Roundtrip.thy ===== *)
theory Bgcp_Roundtrip
  imports Bgcp_View
begin

text \<open>
  What the queue writes is what the parser understands.  A request is a function number, a
  parameter number and data; \<open>encode\<close> is the byte string of a list of requests, written as a
  reference, without a buffer; \<open>exec_reqs\<close> performs requests one after another on the
  component's state, without a packet.  The queue's operations write \<open>encode rs\<close>, and
  \<open>parse\<close> on it does what \<open>exec_reqs\<close> does.
\<close>

section \<open>Requests\<close>

type_synonym request = "u8 \<times> u16 \<times> u8 list"

definition carries_data :: "u8 \<Rightarrow> bool" where
  "carries_data f \<longleftrightarrow> f = BGCP_FUNC_W \<or> f = BGCP_FUNC_RW \<or> f = BGCP_FUNC_RESP"

definition is_command_byte :: "u8 \<Rightarrow> bool" where
  "is_command_byte b \<longleftrightarrow>
     b = BGCP_CMD_PAGE \<or> b = BGCP_CMD_FUNC \<or> b = BGCP_CMD_SIZE \<or> b = BGCP_CMD_NOT_SUP"

definition func_inc :: "u8 \<Rightarrow> int" where
  "func_inc f = (if f = BGCP_FUNC_DEC_RW then -1 else if f = BGCP_FUNC_INC_RW then 1 else 0)"

text \<open>
  Requests the protocol can express: the low byte of a parameter number is not a command, and
  data is present exactly for the functions that carry it.
\<close>

definition req_ok :: "request \<Rightarrow> bool" where
  "req_ok = (\<lambda>(f, p, bs). is_valid_func f \<and> \<not> is_command_byte (lo8 p) \<and> length bs < 256 \<and>
     (carries_data f \<longleftrightarrow> bs \<noteq> []))"

definition push_request :: "request \<Rightarrow> BGCPQueue \<Rightarrow> BGCPQueue option" where
  "push_request = (\<lambda>(f, p, bs) q.
     if bs = [] then queue_push_param_req f p q
     else queue_push_param_data f p (Some bs) (of_nat (length bs)) q)"

fun push_requests :: "request list \<Rightarrow> BGCPQueue \<Rightarrow> BGCPQueue option" where
  "push_requests [] q = Some q"
| "push_requests (r # rs) q = do { q \<leftarrow> push_request r q; push_requests rs q }"

fun encode_from :: "u8 \<Rightarrow> u8 \<Rightarrow> request list \<Rightarrow> u8 list" where
  "encode_from cf cp [] = []"
| "encode_from cf cp ((f, p, bs) # rs) =
     (if f \<noteq> cf then [BGCP_CMD_FUNC, f] else []) @
     (if hi8 p \<noteq> cp then [BGCP_CMD_PAGE, hi8 p] else []) @
     (if 1 < length bs then [BGCP_CMD_SIZE, of_nat (length bs)] else []) @
     lo8 p # bs @ encode_from f (hi8 p) rs"

definition encode :: "request list \<Rightarrow> u8 list" where
  "encode rs = (case rs of [] \<Rightarrow> [] | (f, p, bs) # _ \<Rightarrow> f # encode_from f 0 rs)"

section \<open>The queue writes the encoding\<close>

lemma size_pieces_bytes:
  "length bs < 256 \<Longrightarrow> concat (size_pieces (of_nat (length bs))) =
   (if 1 < length bs then [BGCP_CMD_SIZE, of_nat (length bs)] else [])"
  by (simp add: size_pieces_def word_less_nat_alt unat_of_nat)

lemma body_pieces_bytes: "concat (body_pieces p bs) = lo8 p # bs"
  by (simp add: body_pieces_def)

lemma page_pieces_bytes:
  "concat (page_pieces p q) = (if hi8 p \<noteq> cur_page q then [BGCP_CMD_PAGE, hi8 p] else [])"
  by (simp add: page_pieces_def)

lemma func_pieces_bytes:
  "concat (func_pieces f q) =
   (if f \<noteq> cur_func q then (if queue_size q \<noteq> 0 then [BGCP_CMD_FUNC] else []) @ [f] else [])"
  by (simp add: func_pieces_def)

lemmas piece_bytes = size_pieces_bytes body_pieces_bytes page_pieces_bytes func_pieces_bytes

text \<open>The bytes one request adds to a queue that holds something already.\<close>

lemma param_pieces_bytes:
  "length bs < 256 \<Longrightarrow> queue_size q \<noteq> 0 \<Longrightarrow>
   concat (param_pieces f p bs q) @ encode_from f (hi8 p) rs =
   encode_from (cur_func q) (cur_page q) ((f, p, bs) # rs)"
  unfolding param_pieces_def concat_append piece_bytes by simp

lemma push_request_eq:
  assumes "queue_inv q" "length bs < 256"
  shows "push_request (f, p, bs) q = Some (push_pieces f p (param_pieces f p bs q) q)"
  using assms
  by (cases "bs = []")
    (simp_all add: push_request_def queue_push_param_req_eq queue_push_param_data_eq unat_of_nat)

lemma queue_size_pos: "queue_inv q \<Longrightarrow> contents q \<noteq> [] \<Longrightarrow> queue_size q \<noteq> 0"
  by (auto simp: contents_def)

lemma push_requests_encode_from:
  assumes "queue_inv q" "\<forall>r \<in> set rs. req_ok r" "contents q \<noteq> []"
    "length (contents q) + length (encode_from (cur_func q) (cur_page q) rs) < QUEUE_BUF_SIZE"
  shows "\<exists>q'. push_requests rs q = Some q' \<and> queue_inv q' \<and>
    contents q' = contents q @ encode_from (cur_func q) (cur_page q) rs"
  using assms
proof (induction rs arbitrary: q)
  case Nil
  then show ?case by simp
next
  case (Cons r rs)
  obtain f p bs where r: "r = (f, p, bs)" by (cases r)
  have len: "length bs < 256" using Cons.prems(2) r by (simp add: req_ok_def)
  let ?ps = "param_pieces f p bs q" and ?q = "push_pieces f p (param_pieces f p bs q) q"
  have bytes: "concat ?ps @ encode_from f (hi8 p) rs = encode_from (cur_func q) (cur_page q) (r # rs)"
    unfolding r by (rule param_pieces_bytes [OF len queue_size_pos [OF Cons.prems(1,3)]])
  then have total: "length (encode_from (cur_func q) (cur_page q) (r # rs)) =
      length (concat ?ps) + length (encode_from f (hi8 p) rs)"
    by (metis length_append)
  have out: "contents ?q = contents q @ concat ?ps"
    using Cons.prems(4) total rq.pushes_fit [OF Cons.prems(1), of ?ps] by simp
  then have "\<exists>q'. push_requests rs ?q = Some q' \<and> queue_inv q' \<and>
      contents q' = contents ?q @ encode_from f (hi8 p) rs"
    using Cons.IH [of ?q] Cons.prems total by simp
  then show ?case
    using out bytes push_request_eq [OF Cons.prems(1) len] r by (simp del: encode_from.simps)
qed

lemma is_valid_func_nonzero: "is_valid_func f \<Longrightarrow> f \<noteq> 0"
  by (auto simp: is_valid_func_def bgcp_func_defs)

lemma push_requests_encode:
  assumes "queue_inv q" "queue_size q = 0" "cur_func q = 0" "cur_page q = 0"
    "\<forall>r \<in> set rs. req_ok r" "length (encode rs) < QUEUE_BUF_SIZE"
  shows "\<exists>q'. push_requests rs q = Some q' \<and> queue_inv q' \<and> contents q' = encode rs"
proof (cases rs)
  case Nil
  with assms show ?thesis by (simp add: encode_def contents_def)
next
  case (Cons r rs')
  obtain f p bs where r: "r = (f, p, bs)" by (cases r)
  have ok: "length bs < 256" "f \<noteq> 0"
    using assms(5) Cons r is_valid_func_nonzero by (auto simp: req_ok_def)
  let ?ps = "param_pieces f p bs q" and ?q = "push_pieces f p (param_pieces f p bs q) q"
  have bytes: "encode rs = concat ?ps @ encode_from f (hi8 p) rs'"
    unfolding param_pieces_def concat_append piece_bytes(2-4) size_pieces_bytes [OF ok(1)]
    using Cons r ok(2) assms(2-4) by (simp add: encode_def)
  have empty: "contents q = []" using assms(2) by (simp add: contents_def)
  have out: "contents ?q = concat ?ps"
    using rq.pushes_fit [OF assms(1), of ?ps] assms(6) bytes empty by simp
  moreover have "concat ?ps \<noteq> []" by (simp add: param_pieces_def body_pieces_def)
  ultimately have "\<exists>q'. push_requests rs' ?q = Some q' \<and> queue_inv q' \<and>
      contents q' = contents ?q @ encode_from f (hi8 p) rs'"
    using push_requests_encode_from [of ?q rs'] assms bytes Cons by simp
  then show ?thesis
    using out bytes push_request_eq [OF assms(1) ok(1)] Cons r by simp
qed

section \<open>Performing requests\<close>

text \<open>What one parameter byte makes the parser do, once its data is linked.\<close>

definition perform_core :: "app_fns \<Rightarrow> u16 \<Rightarrow> bgcp \<Rightarrow> bgcp option" where
  "perform_core app p s =
     (let f = func_num (parser s) in
      if param (parser s) = None
      then (if is_read_func f
            then do { q \<leftarrow> queue_push_no_sup_param p (rq s); Some (s\<lparr>rq := q\<rparr>) } else Some s)
      else data_processing app (is_write_func f) (is_read_func f) s)"

text \<open>One request: the parser's fields are set from it, whatever they were.\<close>

definition load_request :: "request \<Rightarrow> bgcp \<Rightarrow> bgcp" where
  "load_request = (\<lambda>(f, p, bs) s.
     upd_parser (\<lambda>d. d\<lparr>func_num := f, inc_val := func_inc f, packet := bs,
       in_val := (if carries_data f then Some 0 else None), in_data_size := length bs,
       param := get_param p (param_list s)\<rparr>) s)"

definition exec_req :: "app_fns \<Rightarrow> request \<Rightarrow> bgcp \<Rightarrow> bgcp option" where
  "exec_req app r s =
     do { s \<leftarrow> perform_core app (fst (snd r)) (load_request r s);
          Some (update_param_data_lifetime GET_TIME s) }"

fun exec_reqs :: "app_fns \<Rightarrow> request list \<Rightarrow> bgcp \<Rightarrow> bgcp option" where
  "exec_reqs app [] s = Some s"
| "exec_reqs app (r # rs) s = do { s \<leftarrow> exec_req app r s; exec_reqs app rs s }"

lemma perform_core_view:
  assumes v: "same_view s t" and f: "func_num (parser t) = func_num (parser s)"
    and app: "app_local app"
  shows "perform_core app p t = on_parser t (perform_core app p s)"
  unfolding perform_core_def Let_def f data_processing_view [OF v app] on_parser_simps
    same_view_set [OF v] same_viewD [OF v]
  by (rule refl)

lemma perform_core_parser: "perform_core app p s = Some s' \<Longrightarrow> parser s' = parser s"
  by (auto simp: perform_core_def Let_def elim!: bind_SomeE split: if_splits
      dest: data_processing_parser)

lemma load_request_fields [simp]:
  "obs (load_request r s) = obs s"
  "param (parser (load_request (f, p, bs) s)) = get_param p (param_list s)"
  "func_num (parser (load_request (f, p, bs) s)) = f"
  "inc_val (parser (load_request (f, p, bs) s)) = func_inc f"
  "get_input_data_size (load_request (f, p, bs) s) = (if carries_data f then of_nat (length bs) else 0)"
  "copy_input_data (load_request (f, p, bs) s) = Some (if carries_data f \<and> bs \<noteq> [] then Some bs else None)"
  by (cases r) (simp_all add: load_request_def obs_def get_input_data_size_def copy_input_data_def Let_def)

text \<open>Performing a request depends on the observable state only.\<close>

lemma lifetime_obs:
  assumes "obs s = obs t" "param (parser s) = param (parser t)" "func_num (parser s) = func_num (parser t)"
  shows "obs (update_param_data_lifetime c s) = obs (update_param_data_lifetime c t)"
  using assms by (auto simp: update_param_data_lifetime_def obs_def split: option.splits)

lemma lifetime_on_parser:
  assumes "param d = param (parser s)" "func_num d = func_num (parser s)"
  shows "obs (update_param_data_lifetime c (s\<lparr>parser := d\<rparr>)) = obs (update_param_data_lifetime c s)"
  by (rule lifetime_obs) (simp_all add: assms obs_def)

lemma exec_req_obs:
  assumes "obs s = obs t" "app_local app"
  shows "map_option obs (exec_req app r s) = map_option obs (exec_req app r t)"
proof -
  obtain f p bs where r: "r = (f, p, bs)" by (cases r)
  let ?s = "load_request r s" and ?t = "load_request r t"
  have v: "same_view ?s ?t" "func_num (parser ?t) = func_num (parser ?s)"
    using assms(1) r by (simp_all add: same_view_def input_view_def) (simp add: obs_def)
  note eq = perform_core_view [OF v assms(2)]
  show ?thesis
  proof (cases "perform_core app (fst (snd r)) ?s")
    case None
    then show ?thesis by (simp add: exec_req_def eq on_parser_simps)
  next
    case (Some x)
    then have "param (parser ?t) = param (parser x)" "func_num (parser ?t) = func_num (parser x)"
      using v same_viewD(4) [OF v(1)] perform_core_parser by auto
    with Some show ?thesis by (simp add: exec_req_def eq on_parser_simps lifetime_on_parser)
  qed
qed

section \<open>Reading the encoding\<close>

text \<open>The bytes between the cursor and the end of the packet.\<close>

definition at_bytes :: "ParserData \<Rightarrow> u8 list \<Rightarrow> bool" where
  "at_bytes d bs \<longleftrightarrow> data_in d \<le> data_in_end d \<and> data_in_end d \<le> length (packet d) \<and>
     take (data_in_end d - data_in d) (drop (data_in d) (packet d)) = bs"

lemma at_bytes_length: "at_bytes d bs \<Longrightarrow> data_in_end d = data_in d + length bs"
  by (auto simp: at_bytes_def)

lemma at_bytes_append:
  assumes "at_bytes d (xs @ ys)"
  shows "at_bytes (d\<lparr>data_in := data_in d + length xs\<rparr>) ys"
    "take (length xs) (drop (data_in d) (packet d)) = xs"
    "data_in d + length xs \<le> length (packet d)"
proof -
  let ?n = "data_in_end d - data_in d" and ?r = "drop (data_in d) (packet d)"
  have all: "take ?n ?r = xs @ ys" and n: "?n = length xs + length ys"
    "data_in_end d \<le> length (packet d)" "data_in d \<le> data_in_end d"
    using assms at_bytes_length [OF assms] by (auto simp: at_bytes_def)
  have "drop (length xs) (take ?n ?r) = ys" by (simp add: all)
  then show "at_bytes (d\<lparr>data_in := data_in d + length xs\<rparr>) ys"
    using n at_bytes_length [OF assms] by (simp add: at_bytes_def drop_take add.commute)
  have "take (length xs) (take ?n ?r) = xs" by (simp add: all)
  then show "take (length xs) ?r = xs" using n by simp
  show "data_in d + length xs \<le> length (packet d)" using n by simp
qed

lemma at_bytes_Cons:
  assumes "at_bytes d (b # bs)"
  shows "at_bytes (d\<lparr>data_in := data_in d + 1\<rparr>) bs" "data_in d < data_in_end d"
    "data_in d < length (packet d)" "packet d ! data_in d = b"
proof -
  have "at_bytes d ([b] @ bs)" using assms by simp
  note app = at_bytes_append [OF this]
  show "at_bytes (d\<lparr>data_in := data_in d + 1\<rparr>) bs" using app(1) by simp
  show len: "data_in d < length (packet d)" using app(3) by simp
  show "data_in d < data_in_end d" using at_bytes_length [OF assms] by simp
  show "packet d ! data_in d = b"
    using app(2) len by (simp add: take_Suc_conv_app_nth take_Suc hd_drop_conv_nth)
qed

lemma at_bytes_fields [simp]:
  "at_bytes (d\<lparr>inc_val := i\<rparr>) bs = at_bytes d bs"
  "at_bytes (d\<lparr>func_num := f\<rparr>) bs = at_bytes d bs"
  "at_bytes (d\<lparr>page := g\<rparr>) bs = at_bytes d bs"
  "at_bytes (d\<lparr>seted_data_size := n\<rparr>) bs = at_bytes d bs"
  "at_bytes (d\<lparr>param := m\<rparr>) bs = at_bytes d bs"
  "at_bytes (d\<lparr>in_val := v\<rparr>) bs = at_bytes d bs"
  "at_bytes (d\<lparr>in_data_size := k\<rparr>) bs = at_bytes d bs"
  by (simp_all add: at_bytes_def)

lemma read_byte_at:
  assumes "at_bytes (parser s) (b # bs)"
  shows "read_byte s = Some (b, upd_parser (\<lambda>d. d\<lparr>data_in := data_in d + 1\<rparr>) s)"
    "at_bytes (parser (upd_parser (\<lambda>d. d\<lparr>data_in := data_in d + 1\<rparr>) s)) bs"
  using at_bytes_Cons [OF assms] by (simp_all add: read_byte_def Let_def)

text \<open>The parser between two messages, with the function and the page last received.\<close>

definition ready :: "u8 \<Rightarrow> u8 \<Rightarrow> ParserData \<Rightarrow> bool" where
  "ready f g d \<longleftrightarrow> func_num d = f \<and> page d = g \<and> inc_val d = func_inc f \<and>
     in_val d = None \<and> in_data_size d = 0"

definition block :: "u8 \<Rightarrow> nat" where
  "block f = (if carries_data f then DEFAULT_DATA_BLOCK_SIZE else 0)"

lemma set_default_block_size_eq:
  "set_default_block_size s = upd_parser (\<lambda>d. d\<lparr>seted_data_size := block (func_num d)\<rparr>) s"
  by (simp add: set_default_block_size_def Let_def block_def carries_data_def)

lemma set_new_func_at:
  assumes "at_bytes (parser s) (f # bs)" "is_valid_func f"
  shows "set_new_func s = Some (True, upd_parser (\<lambda>d. d\<lparr>data_in := data_in d + 1,
    inc_val := func_inc f, func_num := f, seted_data_size := block f\<rparr>) s)"
  using assms(2)
  by (simp add: set_new_func_def read_byte_at [OF assms(1)] set_default_block_size_eq Let_def
      func_inc_def)

lemma parse_loop_round:
  "at_bytes (parser s) (b # bs) \<Longrightarrow> parse_round app s = Some s' \<Longrightarrow> parse_loop app s = parse_loop app s'"
  by (subst parse_loop.simps) (simp add: at_bytes_Cons(2))

lemma parse_loop_end: "at_bytes (parser s) [] \<Longrightarrow> parse_loop app s = Some s"
  by (subst parse_loop.simps) (use at_bytes_length in fastforce)

lemma round_func:
  assumes "at_bytes (parser s) (BGCP_CMD_FUNC # f # bs)" "is_valid_func f"
  shows "parse_round app s = Some (upd_parser (\<lambda>d. d\<lparr>data_in := data_in d + 2,
    inc_val := func_inc f, func_num := f, seted_data_size := block f\<rparr>) s)"
  using read_byte_at [OF assms(1)] set_new_func_at [OF read_byte_at(2) [OF assms(1)] assms(2)]
  by (simp add: parse_round_def bgcp_cmd_defs)

lemma round_page:
  assumes "at_bytes (parser s) (BGCP_CMD_PAGE # g # bs)"
  shows "parse_round app s = Some (upd_parser (\<lambda>d. d\<lparr>data_in := data_in d + 2, page := g\<rparr>) s)"
  using read_byte_at [OF assms] read_byte_at(1) [OF read_byte_at(2) [OF assms]]
  by (simp add: parse_round_def set_new_page_def)

lemma round_size:
  assumes "at_bytes (parser s) (BGCP_CMD_SIZE # n # bs)" "carries_data (func_num (parser s))"
  shows "parse_round app s =
    Some (upd_parser (\<lambda>d. d\<lparr>data_in := data_in d + 2, seted_data_size := unat n\<rparr>) s)"
  using read_byte_at [OF assms(1)] read_byte_at(1) [OF read_byte_at(2) [OF assms(1)]] assms(2)
  by (auto simp: parse_round_def set_data_size_def carries_data_def bgcp_cmd_defs Let_def)

section \<open>The parser performs the encoding\<close>

definition moves :: "app_fns \<Rightarrow> bgcp \<Rightarrow> bgcp \<Rightarrow> bool" where
  "moves app s s' \<longleftrightarrow> parse_loop app s = parse_loop app s' \<and> obs s' = obs s"

lemma moves_trans: "moves app s s1 \<Longrightarrow> moves app s1 s2 \<Longrightarrow> moves app s s2"
  by (simp add: moves_def)

lemma moves_round:
  "at_bytes (parser s) (b # bs) \<Longrightarrow> parse_round app s = Some s' \<Longrightarrow> obs s' = obs s \<Longrightarrow> moves app s s'"
  by (simp add: moves_def parse_loop_round)

lemma at_bytes_skip2:
  "at_bytes (parser s) (b # c # bs) \<Longrightarrow> at_bytes (parser s\<lparr>data_in := data_in (parser s) + 2\<rparr>) bs"
  using at_bytes_append(1) [of "parser s" "[b, c]" bs] by simp

lemma header_func:
  assumes "ready cf g (parser s)" "seted_data_size (parser s) = block cf" "is_valid_func f"
    "at_bytes (parser s) ((if f \<noteq> cf then [BGCP_CMD_FUNC, f] else []) @ bs)"
  shows "\<exists>s'. moves app s s' \<and> ready f g (parser s') \<and> seted_data_size (parser s') = block f \<and>
    at_bytes (parser s') bs"
proof (cases "f = cf")
  case True
  with assms show ?thesis by (auto simp: moves_def)
next
  case False
  then have at: "at_bytes (parser s) (BGCP_CMD_FUNC # f # bs)" using assms(4) by simp
  let ?s = "upd_parser (\<lambda>d. d\<lparr>data_in := data_in d + 2,
        inc_val := func_inc f, func_num := f, seted_data_size := block f\<rparr>) s"
  have "moves app s ?s" by (rule moves_round [OF at round_func [OF at assms(3)]]) (simp add: obs_def)
  then show ?thesis
    using at_bytes_skip2 [OF at] assms(1) by (intro exI [of _ ?s]) (simp add: ready_def)
qed

lemma header_page:
  assumes "ready f cp (parser s)" "seted_data_size (parser s) = block f"
    "at_bytes (parser s) ((if g \<noteq> cp then [BGCP_CMD_PAGE, g] else []) @ bs)"
  shows "\<exists>s'. moves app s s' \<and> ready f g (parser s') \<and> seted_data_size (parser s') = block f \<and>
    at_bytes (parser s') bs"
proof (cases "g = cp")
  case True
  with assms show ?thesis by (auto simp: moves_def)
next
  case False
  then have at: "at_bytes (parser s) (BGCP_CMD_PAGE # g # bs)" using assms(3) by simp
  let ?s = "upd_parser (\<lambda>d. d\<lparr>data_in := data_in d + 2, page := g\<rparr>) s"
  have "moves app s ?s" by (rule moves_round [OF at round_page [OF at]]) (simp add: obs_def)
  then show ?thesis
    using at_bytes_skip2 [OF at] assms(1,2) by (intro exI [of _ ?s]) (simp add: ready_def)
qed

lemma header_size:
  assumes "ready f g (parser s)" "seted_data_size (parser s) = block f"
    "carries_data f \<longleftrightarrow> ds \<noteq> []" "length ds < 256"
    "at_bytes (parser s) ((if 1 < length ds then [BGCP_CMD_SIZE, of_nat (length ds)] else []) @ bs)"
  shows "\<exists>s'. moves app s s' \<and> ready f g (parser s') \<and> seted_data_size (parser s') = length ds \<and>
    at_bytes (parser s') bs"
proof (cases "1 < length ds")
  case False
  with assms have "block f = length ds"
    by (cases ds) (auto simp: block_def DEFAULT_DATA_BLOCK_SIZE_def)
  with assms False show ?thesis by (auto simp: moves_def)
next
  case True
  then have at: "at_bytes (parser s) (BGCP_CMD_SIZE # of_nat (length ds) # bs)"
    using assms(5) by simp
  have f: "carries_data (func_num (parser s))" using True assms(1,3) by (auto simp: ready_def)
  let ?s = "upd_parser (\<lambda>d. d\<lparr>data_in := data_in d + 2,
        seted_data_size := unat (of_nat (length ds) :: u8)\<rparr>) s"
  have "moves app s ?s" by (rule moves_round [OF at round_size [OF at f]]) (simp add: obs_def)
  then show ?thesis
    using at_bytes_skip2 [OF at] assms(1,4) by (intro exI [of _ ?s]) (simp add: ready_def unat_of_nat)
qed

text \<open>All that precedes the parameter byte of a request.\<close>

lemma header:
  assumes "ready cf cp (parser s)" "seted_data_size (parser s) = block cf" "req_ok (f, p, bs)"
    "at_bytes (parser s) (encode_from cf cp ((f, p, bs) # rs))"
  shows "\<exists>s'. moves app s s' \<and> ready f (hi8 p) (parser s') \<and>
    seted_data_size (parser s') = length bs \<and>
    at_bytes (parser s') (lo8 p # bs @ encode_from f (hi8 p) rs)"
proof -
  have ok: "is_valid_func f" "length bs < 256" "carries_data f \<longleftrightarrow> bs \<noteq> []"
    using assms(3) by (auto simp: req_ok_def)
  obtain s1 where s1: "moves app s s1" "ready f cp (parser s1)" "seted_data_size (parser s1) = block f"
    "at_bytes (parser s1) ((if hi8 p \<noteq> cp then [BGCP_CMD_PAGE, hi8 p] else []) @
       (if 1 < length bs then [BGCP_CMD_SIZE, of_nat (length bs)] else []) @
       lo8 p # bs @ encode_from f (hi8 p) rs)"
    using header_func [OF assms(1,2) ok(1)] assms(4) unfolding encode_from.simps by blast
  obtain s2 where s2: "moves app s1 s2" "ready f (hi8 p) (parser s2)"
    "seted_data_size (parser s2) = block f"
    "at_bytes (parser s2) ((if 1 < length bs then [BGCP_CMD_SIZE, of_nat (length bs)] else []) @
       lo8 p # bs @ encode_from f (hi8 p) rs)"
    using header_page [OF s1(2,3,4)] by blast
  show ?thesis using header_size [OF s2(2,3) ok(3,2) s2(4)] s1(1) s2(1) moves_trans by blast
qed

text \<open>The state in which the handler of a parameter byte runs.\<close>

lemma linked_view:
  assumes "ready f (hi8 p) (parser s)" "seted_data_size (parser s) = length bs"
    "carries_data f \<longleftrightarrow> bs \<noteq> []" "at_bytes (parser s) (bs @ r)"
  shows "same_view (load_request (f, p, bs) s)
    (link_data (upd_parser (\<lambda>d. d\<lparr>param := get_param p (param_list s)\<rparr>) s))"
proof -
  let ?l = "link_data (upd_parser (\<lambda>d. d\<lparr>param := get_param p (param_list s)\<rparr>) s)"
  have f: "func_num (parser s) = f" and i: "inc_val (parser s) = func_inc f" "in_val (parser s) = None"
    using assms(1) by (simp_all add: ready_def)
  have l: "parser ?l = parser s\<lparr>param := get_param p (param_list s), in_data_size := length bs,
      in_val := (if carries_data f then Some (data_in (parser s)) else None)\<rparr>" "obs ?l = obs s"
    using assms(2) f i(2) by (simp_all add: link_data_def carries_data_def Let_def obs_def)
  have "get_input_data_size ?l = (if carries_data f then of_nat (length bs) else 0)"
    by (simp add: get_input_data_size_def l)
  moreover have "copy_input_data ?l = Some (if carries_data f \<and> bs \<noteq> [] then Some bs else None)"
    using at_bytes_append(2,3) [OF assms(4)] assms(3) by (simp add: copy_input_data_def l Let_def)
  ultimately show ?thesis by (simp add: same_view_def input_view_def l i)
qed

lemma perform_request:
  assumes "ready f (hi8 p) (parser s)" "seted_data_size (parser s) = length bs"
    "req_ok (f, p, bs)" "at_bytes (parser s) (bs @ r)" "app_local app"
  shows "\<exists>d. param d = get_param p (param_list s) \<and> func_num d = f \<and> page d = hi8 p \<and>
    inc_val d = func_inc f \<and> seted_data_size d = length bs \<and> at_bytes d (bs @ r) \<and>
    perform app (lo8 p) s =
      map_option (\<lambda>x. set_default_block_size
          (x\<lparr>parser := d\<lparr>data_in := data_in d + length bs\<rparr>\<rparr>))
        (perform_core app p (load_request (f, p, bs) s))"
proof -
  let ?s = "upd_parser (\<lambda>d. d\<lparr>param := get_param p (param_list s)\<rparr>) s"
  let ?d = "if get_param p (param_list s) = None then parser ?s else parser (link_data ?s)"
  have ok: "lo8 p \<noteq> BGCP_CMD_NOT_SUP" "carries_data f \<longleftrightarrow> bs \<noteq> []" "f \<noteq> NO_FUNC"
    using assms(3) is_valid_func_nonzero by (auto simp: req_ok_def is_command_byte_def NO_FUNC_def)
  have f: "func_num (parser s) = f" "page (parser s) = hi8 p" "inc_val (parser s) = func_inc f"
    using assms(1) by (simp_all add: ready_def)
  have chk: "check_data_in s"
    using at_bytes_length [OF assms(4)] assms(2) ok(3) f(1) by (simp add: check_data_in_def)
  have fields: "param ?d = get_param p (param_list s)" "func_num ?d = f" "page ?d = hi8 p"
    "inc_val ?d = func_inc f" "seted_data_size ?d = length bs" "at_bytes ?d (bs @ r)"
    using f assms(2,4) by (simp_all add: link_data_def Let_def)
  have core: "(if param (parser ?s) = None
      then (if is_read_func f
            then do { q \<leftarrow> queue_push_no_sup_param p (rq ?s); Some (?s\<lparr>rq := q\<rparr>) } else Some ?s)
      else data_processing app (is_write_func f) (is_read_func f) (link_data ?s)) =
      map_option (\<lambda>x. x\<lparr>parser := ?d\<rparr>) (perform_core app p (load_request (f, p, bs) s))"
  proof (cases "get_param p (param_list s)")
    case None
    then show ?thesis
      by (cases "queue_push_no_sup_param p (rq s)")
        (simp_all add: perform_core_def load_request_def)
  next
    case (Some i)
    have v: "same_view (load_request (f, p, bs) s) (link_data ?s)"
      by (rule linked_view [OF assms(1,2) ok(2) assms(4)])
    have "perform_core app p (link_data ?s) =
        data_processing app (is_write_func f) (is_read_func f) (link_data ?s)"
      using Some f(1) by (simp add: perform_core_def link_data_def Let_def)
    moreover have "perform_core app p (link_data ?s) =
        on_parser (link_data ?s) (perform_core app p (load_request (f, p, bs) s))"
      by (rule perform_core_view [OF v _ assms(5)]) (simp add: f link_data_def Let_def)
    ultimately show ?thesis using Some by (simp add: on_parser_def)
  qed
  have "perform app (lo8 p) s =
      Option.bind (map_option (\<lambda>x. x\<lparr>parser := ?d\<rparr>) (perform_core app p (load_request (f, p, bs) s)))
        (\<lambda>x. Some (set_default_block_size (upd_parser (\<lambda>d. d\<lparr>data_in := data_in d + seted_data_size d\<rparr>) x)))"
    unfolding core [symmetric] using ok(1) chk f by (simp add: perform_def Let_def)
  then show ?thesis using fields
    by (intro exI [of _ ?d]) (cases "perform_core app p (load_request (f, p, bs) s)"; simp)
qed

text \<open>The round of the loop that performs a request, against the reference.\<close>

lemma round_request:
  assumes "ready f (hi8 p) (parser s)" "seted_data_size (parser s) = length bs"
    "req_ok (f, p, bs)" "at_bytes (parser s) (lo8 p # bs @ r)" "app_local app"
  shows "case exec_req app (f, p, bs) s of
      None \<Rightarrow> parse_round app s = None
    | Some t \<Rightarrow> (\<exists>s'. parse_round app s = Some s' \<and> obs s' = obs t \<and> ready f (hi8 p) (parser s') \<and>
        seted_data_size (parser s') = block f \<and> at_bytes (parser s') r)"
proof -
  let ?s = "upd_parser (\<lambda>d. d\<lparr>data_in := data_in d + 1\<rparr>) s"
  have rd: "read_byte s = Some (lo8 p, ?s)" "at_bytes (parser ?s) (bs @ r)"
    using read_byte_at [OF assms(4)] by simp_all
  have pre: "ready f (hi8 p) (parser ?s)" "seted_data_size (parser ?s) = length bs"
    using assms(1,2) by (simp_all add: ready_def)
  have load: "load_request (f, p, bs) ?s = load_request (f, p, bs) s
      \<lparr>parser := parser (load_request (f, p, bs) s)\<lparr>data_in := data_in (parser s) + 1\<rparr>\<rparr>"
    by (simp add: load_request_def)
  have "same_view (load_request (f, p, bs) s) (load_request (f, p, bs) ?s)"
    by (simp add: same_view_def input_view_def) (simp add: obs_def)
  then have core: "perform_core app p (load_request (f, p, bs) ?s) =
      on_parser (load_request (f, p, bs) ?s) (perform_core app p (load_request (f, p, bs) s))"
    by (rule perform_core_view) (simp_all add: assms(5))
  obtain d where d: "param d = get_param p (param_list ?s)" "func_num d = f" "page d = hi8 p"
    "inc_val d = func_inc f" "seted_data_size d = length bs" "at_bytes d (bs @ r)"
    "perform app (lo8 p) ?s =
      map_option (\<lambda>x. set_default_block_size (x\<lparr>parser := d\<lparr>data_in := data_in d + length bs\<rparr>\<rparr>))
        (perform_core app p (load_request (f, p, bs) ?s))"
    using perform_request [OF pre assms(3) rd(2) assms(5)] by blast
  have cmd: "lo8 p \<noteq> BGCP_CMD_PAGE" "lo8 p \<noteq> BGCP_CMD_FUNC" "lo8 p \<noteq> BGCP_CMD_SIZE"
    using assms(3) by (auto simp: req_ok_def is_command_byte_def)
  have step: "parse_round app s = Option.bind (perform app (lo8 p) ?s)
      (\<lambda>s. Some (reset_param_data (update_param_data_lifetime GET_TIME s)))"
    by (simp add: parse_round_def rd(1) cmd)
  show ?thesis
  proof (cases "perform_core app p (load_request (f, p, bs) s)")
    case None
    then show ?thesis unfolding step d(7) core by (simp add: exec_req_def on_parser_simps)
  next
    case (Some x)
    let ?y = "set_default_block_size (x\<lparr>parser := d\<lparr>data_in := data_in d + length bs\<rparr>\<rparr>)"
    let ?s' = "reset_param_data (update_param_data_lifetime GET_TIME ?y)"
    have round: "parse_round app s = Some ?s'"
      using Some unfolding step d(7) core by (simp add: on_parser_simps)
    have x: "param (parser x) = get_param p (param_list s)" "func_num (parser x) = f"
      using perform_core_parser [OF Some] by simp_all
    have "obs ?y = obs x" by (simp add: set_default_block_size_eq obs_def)
    then have "obs (update_param_data_lifetime GET_TIME ?y) = obs (update_param_data_lifetime GET_TIME x)"
      by (rule lifetime_obs) (simp_all add: x d(1,2) set_default_block_size_eq)
    then have "obs ?s' = obs (update_param_data_lifetime GET_TIME x)"
      by (simp add: reset_param_data_def obs_def)
    moreover have "parser ?s' = d\<lparr>data_in := data_in d + length bs, seted_data_size := block f,
        param := None, in_data_size := 0, in_val := None\<rparr>"
      using d(2) by (simp add: reset_param_data_def set_default_block_size_eq
          update_param_data_lifetime_def split: option.split)
    ultimately show ?thesis
      using Some round d at_bytes_append(1) [OF d(6)] by (simp add: exec_req_def ready_def)
  qed
qed

lemma parse_loop_encoding:
  assumes "app_local app"
  shows "ready cf cp (parser s) \<Longrightarrow> seted_data_size (parser s) = block cf \<Longrightarrow>
    at_bytes (parser s) (encode_from cf cp rs) \<Longrightarrow> \<forall>r \<in> set rs. req_ok r \<Longrightarrow> obs s = obs t \<Longrightarrow>
    map_option obs (parse_loop app s) = map_option obs (exec_reqs app rs t)"
proof (induction rs arbitrary: cf cp s t)
  case Nil
  then show ?case by (simp add: parse_loop_end)
next
  case (Cons r rs)
  obtain f p bs where r: "r = (f, p, bs)" by (cases r)
  have ok: "req_ok (f, p, bs)" using Cons.prems(4) r by simp
  obtain s1 where s1: "moves app s s1" "ready f (hi8 p) (parser s1)"
    "seted_data_size (parser s1) = length bs"
    "at_bytes (parser s1) (lo8 p # bs @ encode_from f (hi8 p) rs)"
    using header [OF Cons.prems(1,2) ok] Cons.prems(3) unfolding r by blast
  have loop: "parse_loop app s = Option.bind (parse_round app s1) (parse_loop app)"
    using s1(1) at_bytes_Cons(2) [OF s1(4)] unfolding moves_def by (subst (asm) (2) parse_loop.simps) simp
  have "obs s1 = obs t" using s1(1) Cons.prems(5) by (simp add: moves_def)
  then have eq: "map_option obs (exec_req app r s1) = map_option obs (exec_req app r t)"
    by (rule exec_req_obs [OF _ assms])
  note round = round_request [OF s1(2,3) ok s1(4) assms, folded r]
  show ?case
  proof (cases "exec_req app r s1")
    case None
    with eq round show ?thesis by (simp add: loop)
  next
    case (Some x)
    then obtain s' where s': "parse_round app s1 = Some s'" "obs s' = obs x"
      "ready f (hi8 p) (parser s')" "seted_data_size (parser s') = block f"
      "at_bytes (parser s') (encode_from f (hi8 p) rs)"
      using round by auto
    obtain y where y: "exec_req app r t = Some y" "obs y = obs x" 
      using eq Some by (cases "exec_req app r t") simp_all
    then have "map_option obs (parse_loop app s') = map_option obs (exec_reqs app rs y)"
      using Cons.IH [OF s'(3,4,5), of y] Cons.prems(4) s'(2) by simp
    with s'(1) y(1) show ?thesis by (simp add: loop)
  qed
qed

lemma parse_encoding:
  assumes "app_local app" "rs \<noteq> []" "\<forall>r \<in> set rs. req_ok r" "length (encode rs) < 2 ^ 16"
    "data = encode rs @ junk"
  shows "map_option obs (parse app data (of_nat (length (encode rs))) s) =
    map_option obs (exec_reqs app rs (s\<lparr>rq := reset_req_queue (rq s)\<rparr>))"
proof -
  obtain f p bs rs' where rs: "rs = (f, p, bs) # rs'" using assms(2) by (cases rs) auto
  have enc: "encode rs = f # encode_from f 0 rs" by (simp add: rs encode_def)
  have sz: "unat (of_nat (length (encode rs)) :: u16) = length (encode rs)"
    using assms(4) by (simp add: unat_of_nat take_bit_eq_mod)
  let ?s = "upd_parser (\<lambda>d. d\<lparr>packet := data, data_in := 0, data_in_end := length (encode rs), page := 0\<rparr>) s"
  have at: "at_bytes (parser ?s) (f # encode_from f 0 rs)"
    using assms(5) enc by (simp add: at_bytes_def)
  have f: "is_valid_func f" using assms(3) rs by (simp add: req_ok_def)
  let ?s1 = "upd_parser (\<lambda>d. d\<lparr>data_in := data_in d + 1,
    inc_val := func_inc f, func_num := f, seted_data_size := block f\<rparr>) ?s"
  let ?s2 = "reset_param_data (?s1\<lparr>rq := reset_req_queue (rq ?s1)\<rparr>)"
  have "parse app data (of_nat (length (encode rs))) s = parse_loop app ?s2"
    using set_new_func_at [OF at f] by (simp add: parse_def sz Let_def)
  moreover have "map_option obs (parse_loop app ?s2) =
      map_option obs (exec_reqs app rs (s\<lparr>rq := reset_req_queue (rq s)\<rparr>))"
  proof (rule parse_loop_encoding [OF assms(1)])
    show "ready f 0 (parser ?s2)" by (simp add: reset_param_data_def ready_def)
    show "at_bytes (parser ?s2) (encode_from f 0 rs)"
      using at_bytes_Cons(1) [OF at] by (simp add: reset_param_data_def)
  qed (simp_all add: reset_param_data_def assms(3) obs_def)
  ultimately show ?thesis by simp
qed

end
