(* ===== verification/Bgcp_Safety.thy ===== *)
theory Bgcp_Safety
  imports Bgcp_Parser
begin

text \<open>
  Memory safety of the parser: when every parameter of the table is linked to an object of
  the size its type needs, no packet makes \<open>parse\<close> access memory outside an object, and the
  state stays well formed.  The invariant \<open>bgcp_wf\<close> is about the table, the objects and the
  queue; \<open>cursor_ok\<close> is about the parser.
\<close>

section \<open>Well-formed states\<close>

text \<open>
  What a slot needs of the objects.  The type \<open>PARAM_TYPE_STR\<close> is excluded: no binding
  function registers it.
\<close>

definition param_wf :: "mem \<Rightarrow> Param \<Rightarrow> bool" where
  "param_wf m p =
     (case (data_type p, u p) of
        (PARAM_TYPE_8B, Description mn mx) \<Rightarrow> linked_data p = None \<or> has_bytes m (linked_data p) 1
      | (PARAM_TYPE_16B, Description mn mx) \<Rightarrow> linked_data p = None \<or> has_bytes m (linked_data p) 2
      | (PARAM_TYPE_1B, Description mn mx) \<Rightarrow> linked_data p = None \<or> has_bytes m (linked_data p) 1
      | (PARAM_TYPE_BIN, Description mn mx) \<Rightarrow> 0 \<le> mx \<and> has_bytes m (linked_data p) (nat mx)
      | (PARAM_TYPE_CONST_BIN, Description mn mx) \<Rightarrow>
          0 \<le> mx \<and> (linked_data p = None \<or> has_bytes m (linked_data p) (nat mx))
      | (PARAM_TYPE_8B_RANGE, Validator len vals) \<Rightarrow>
          (linked_data p = None \<or> has_bytes m (linked_data p) 1) \<and> has_bytes m vals (unat len)
      | (PARAM_TYPE_ACTION, Dascriptors d) \<Rightarrow>
          data_update_func d \<in> insert None (range (Some \<circ> App_fn)) \<and>
          resp_func d \<in> insert None (range (Some \<circ> App_fn))
      | (PARAM_TYPE_UNKNOWN, _) \<Rightarrow> True
      | _ \<Rightarrow> False)"

definition bgcp_wf :: "bgcp \<Rightarrow> bool" where
  "bgcp_wf s \<longleftrightarrow>
     queue_inv (rq s) \<and> length (param_list s) = PARAM_NUM \<and>
     (\<forall>p \<in> set (param_list s). param_wf (mem s) p)"

definition cursor_ok :: "ParserData \<Rightarrow> bool" where
  "cursor_ok p \<longleftrightarrow> data_in_end p \<le> length (packet p) \<and> seted_data_size p < 256"

text \<open>The parser points to a slot, and to input data inside the packet.\<close>

definition input_ok :: "bgcp \<Rightarrow> bool" where
  "input_ok s \<longleftrightarrow>
     in_data_size (parser s) < 256 \<and>
     (\<forall>i. in_val (parser s) = Some i \<longrightarrow> i + in_data_size (parser s) \<le> length (packet (parser s)))"

text \<open>
  The application's functions do what the component's own handlers do: they are free of
  undefined behaviour in every well-formed state and keep it well formed; and a function
  that is called for an action parameter does not bind it anew with a numeric type (its
  response function is read from the slot afterwards).
\<close>

definition app_ok :: "app_fns \<Rightarrow> bool" where
  "app_ok app \<longleftrightarrow>
     (\<forall>k s. bgcp_wf s \<longrightarrow>
        (\<exists>ps q m. app k s = Some (ps, q, m) \<and>
                  bgcp_wf (s\<lparr>param_list := ps, rq := q, mem := m\<rparr>) \<and>
                  (\<forall>i < PARAM_NUM. data_type (param_list s ! i) = PARAM_TYPE_ACTION \<longrightarrow>
                                data_type (ps ! i) = PARAM_TYPE_ACTION)))"

lemma bgcp_wf_parser [simp]: "bgcp_wf (s\<lparr>parser := p\<rparr>) = bgcp_wf s"
  by (simp add: bgcp_wf_def)

lemma bgcp_wf_rq: "bgcp_wf s \<Longrightarrow> queue_inv q \<Longrightarrow> bgcp_wf (s\<lparr>rq := q\<rparr>)"
  by (simp add: bgcp_wf_def)

lemma param_wf_shape: "same_shape m m' \<Longrightarrow> param_wf m' p = param_wf m p"
  by (cases "data_type p"; cases "u p") (simp_all add: param_wf_def same_shape_has_bytes)

lemma bgcp_wf_mem: "bgcp_wf s \<Longrightarrow> same_shape (mem s) m \<Longrightarrow> bgcp_wf (s\<lparr>mem := m\<rparr>)"
  by (simp add: bgcp_wf_def param_wf_shape)

lemma writes_linked_wf: "writes_linked s s' \<Longrightarrow> bgcp_wf s \<Longrightarrow> bgcp_wf s'"
  by (auto simp: writes_linked_def intro: bgcp_wf_mem)

lemma param_wf_time [simp]: "param_wf m (p\<lparr>time_update := t\<rparr>) = param_wf m p"
  by (cases "data_type p"; cases "u p") (simp_all add: param_wf_def)

lemma bgcp_wf_slot: "bgcp_wf s \<Longrightarrow> i < PARAM_NUM \<Longrightarrow> param_wf (mem s) (param_list s ! i)"
  by (simp add: bgcp_wf_def)

lemma bgcp_wf_update:
  "bgcp_wf s \<Longrightarrow> param_wf (mem s) p \<Longrightarrow> bgcp_wf (s\<lparr>param_list := (param_list s)[i := p]\<rparr>)"
  by (auto simp: bgcp_wf_def dest: set_update_subset_insert [THEN subsetD])

section \<open>Handlers are safe\<close>

lemma copy_input_data_safe: "input_ok s \<Longrightarrow> \<exists>r. copy_input_data s = Some r"
  by (auto simp: copy_input_data_def input_ok_def Let_def split: option.splits)

lemma get_input_data_size_eq:
  "input_ok s \<Longrightarrow> unat (get_input_data_size s) = n \<Longrightarrow> 0 < n \<Longrightarrow>
   \<exists>bs. copy_input_data s = Some (Some bs) \<and> length bs = n"
  by (auto simp: copy_input_data_def get_input_data_size_def input_ok_def Let_def unat_of_nat
      split: option.splits if_splits)

lemma store_safe: "has_bytes (mem s) p (length new) \<Longrightarrow> \<exists>s'. store p new s = Some s'"
  by (auto simp: store_def dest: mem_write_Some)

lemma copy_input_data_to_safe:
  assumes "input_ok s" "unat (get_input_data_size s) = n" "has_bytes (mem s) p n"
  shows "\<exists>s'. copy_input_data_to p s = Some s'"
proof (cases "n = 0")
  case True
  with assms have "copy_input_data s = Some None"
    by (auto simp: copy_input_data_def get_input_data_size_def input_ok_def Let_def unat_of_nat
        split: option.splits if_splits)
  then show ?thesis by (simp add: copy_input_data_to_def)
next
  case False
  then obtain bs where "copy_input_data s = Some (Some bs)" "length bs = n"
    using get_input_data_size_eq [OF assms(1,2)] by auto
  then show ?thesis
    using assms(3) mem_write_Some [of "mem s" p bs] by (auto simp: copy_input_data_to_def)
qed

lemma seek_from_safe: "n \<le> length vals \<Longrightarrow> \<exists>r. seek_from i v vals n = Some r"
proof (induction i v vals n rule: seek_from.induct)
  case (1 i v vals n)
  then show ?case by (subst seek_from.simps) auto
qed

lemma seek_from_bound: "seek_from i v vals n = Some (Some j) \<Longrightarrow> i \<le> j \<and> j < n \<and> vals ! j = v"
proof (induction i v vals n rule: seek_from.induct)
  case (1 i v vals n)
  from "1.prems" show ?case
    by (subst (asm) seek_from.simps) (use "1.IH" in \<open>force split: if_splits\<close>)
qed

lemma seek_safe:
  "unat len \<le> length vals \<Longrightarrow> \<exists>r. seek_val_in_range_list v vals len = Some r"
  by (simp add: seek_val_in_range_list_def seek_from_safe)

lemma write_response_safe:
  assumes "cur_param s = Some p" "queue_inv (rq s)"
    "data \<noteq> None \<Longrightarrow> has_bytes (mem s) data (unat sz)"
  shows "\<exists>q. write_response data sz s = Some (s\<lparr>rq := q\<rparr>) \<and> queue_inv q"
proof (cases data)
  case None
  show ?thesis
  proof (cases "sz = 0")
    case True
    with None assms show ?thesis
      by (auto simp: write_response_def queue_push_param_req_eq [unfolded queue_push_param_req_def])
  next
    case False
    with None assms have "write_response data sz s = Some (s\<lparr>rq := rq s\<rparr>)"
      by (simp add: write_response_def fault_simps)
    with assms(2) show ?thesis by blast
  qed
next
  case (Some a)
  with assms obtain bs where "mem s a = Some bs" "unat sz \<le> length bs"
    by (auto elim!: has_bytesE)
  with Some assms show ?thesis by (auto simp: write_response_def fault_simps)
qed

text \<open>The current parameter is well formed, and so are the input and the queue.\<close>

definition cur_ok :: "bgcp \<Rightarrow> Param \<Rightarrow> bool" where
  "cur_ok s p \<longleftrightarrow>
     cur_param s = Some p \<and> param_wf (mem s) p \<and> input_ok s \<and> queue_inv (rq s)"

lemma cur_ok_accessors:
  assumes "cur_ok s p"
  shows "cur_param s = Some p" "get_linked_data s = linked_data p" "input_ok s" "queue_inv (rq s)"
  using assms by (simp_all add: cur_ok_def get_linked_data_def)

lemma cur_ok_numeric:
  assumes "cur_ok s p" "u p = Description mn mx" "data_type p \<noteq> PARAM_TYPE_ACTION"
  shows "get_max_num_param_val s = Some mx" "get_min_num_param_val s = Some mn"
    "get_inc_val s = Some (inc_val (parser s))"
  using assms
  by (simp_all add: cur_ok_def get_max_num_param_val_def get_min_num_param_val_def get_inc_val_def)

lemma update_num_safe:
  assumes ok: "cur_ok s p" "u p = Description mn mx" "data_type p \<noteq> PARAM_TYPE_ACTION"
    and data: "linked_data p = None \<or> has_bytes (mem s) (linked_data p) (LENGTH('w) div 8)"
    and w: "8 \<le> LENGTH('w::len)"
  shows "\<exists>s'. update_num TYPE('w) s = Some s'"
proof -
  note acc = cur_ok_accessors [OF ok(1)] cur_ok_numeric [OF ok]
  let ?n = "LENGTH('w) div 8"
  have n: "0 < ?n" using w by simp
  have st: "\<exists>s'. store (linked_data p) (le_bytes ?n x) s = Some s'"
    if "linked_data p \<noteq> None" for x :: "'w word"
    using data that by (intro store_safe) auto
  obtain r where r: "copy_input_data s = Some r"
    using copy_input_data_safe [OF acc(3)] by blast
  show ?thesis
    using data st acc r by (cases r) (auto simp: update_num_def Let_def mem_read_Some)
qed

lemma update_bool_safe:
  assumes ok: "cur_ok s p"
    and data: "linked_data p = None \<or> has_bytes (mem s) (linked_data p) 1"
  shows "\<exists>s'. update_bool_data_type s = Some s'"
proof -
  note acc = cur_ok_accessors [OF ok]
  have st: "\<exists>s'. store (linked_data p) [x] s = Some s'" if "linked_data p \<noteq> None" for x
    using data that by (intro store_safe) auto
  obtain r where r: "copy_input_data s = Some r"
    using copy_input_data_safe [OF acc(3)] by blast
  show ?thesis
    using data st acc r by (cases r) (auto simp: update_bool_data_type_def Let_def mem_read_Some)
qed

lemma update_bin_safe:
  assumes ok: "cur_ok s p" "u p = Description mn mx" "data_type p \<noteq> PARAM_TYPE_ACTION"
    and data: "0 \<le> mx" "has_bytes (mem s) (linked_data p) (nat mx)"
  shows "\<exists>s'. update_bin_data_type s = Some s'"
proof -
  note acc = cur_ok_accessors [OF ok(1)] cur_ok_numeric [OF ok]
  have "\<exists>s'. copy_input_data_to (linked_data p) s = Some s'"
    if "uint (get_input_data_size s) = mx"
    using acc(3) data that by (intro copy_input_data_to_safe [where n = "nat mx"]) auto
  then show ?thesis using acc by (auto simp: update_bin_data_type_def)
qed

lemma update_range_safe:
  assumes ok: "cur_ok s p" "u p = Validator len vals" "data_type p = PARAM_TYPE_8B_RANGE"
    and data: "linked_data p = None \<or> has_bytes (mem s) (linked_data p) 1"
      "has_bytes (mem s) vals (unat len)"
  shows "\<exists>s'. update_range_data s = Some s'"
proof -
  note acc = cur_ok_accessors [OF ok(1)]
  have lens: "get_valid_val_list_len s = Some len" "get_valid_val_list s = Some vals"
    "get_inc_val s = Some (inc_val (parser s))"
    using ok acc by (simp_all add: get_valid_val_list_len_def get_valid_val_list_def get_inc_val_def)
  from data(2) obtain bs where bs: "valid_vals vals s = Some bs" "unat len \<le> length bs"
    by (auto simp: valid_vals_def elim!: has_bytesE)
  have st: "\<exists>s'. store (linked_data p) [x] s = Some s'" if "linked_data p \<noteq> None" for x
    using data that by (intro store_safe) auto
  have seek: "\<exists>r. seek_val_in_range_list v bs len = Some r" for v
    using bs by (intro seek_safe) simp
  consider "linked_data p = None"
    | "linked_data p \<noteq> None" "get_input_data_size s = 1"
    | "linked_data p \<noteq> None" "get_input_data_size s \<noteq> 1"
    by blast
  then show ?thesis
  proof cases
    case 1
    then show ?thesis using acc lens unfolding update_range_data_def Let_def by simp
  next
    case 2
    then obtain new where new: "copy_input_data s = Some (Some new)" "length new = 1"
      using get_input_data_size_eq [OF acc(3), of 1] by auto
    obtain r where r: "seek_val_in_range_list (le_word new) bs len = Some r"
      using seek by blast
    have "\<exists>s'. store (linked_data p) new s = Some s'"
      using 2 new(2) data(1) by (intro store_safe) auto
    with 2 new r show ?thesis
      using acc lens bs unfolding update_range_data_def Let_def by simp
  next
    case 3
    with data(1) have hb: "has_bytes (mem s) (linked_data p) 1" by simp
    then obtain c where c: "mem_read (mem s) (linked_data p) 1 = Some c"
      using mem_read_Some by blast
    obtain r where r: "seek_val_in_range_list (le_word c) bs len = Some r"
      using seek by blast
    have wr: "\<exists>s'. store (linked_data p) [x] s = Some s'" for x
      using hb by (intro store_safe) simp
    let ?tail = "\<lambda>inc. case r of None \<Rightarrow> Some s
      | Some i \<Rightarrow> (if 0 \<le> int i + inc \<and> int i + inc \<le> int (unat len) - 1
          then (if nat (int i + inc) < length bs
                then store (linked_data p) [bs ! nat (int i + inc)] s else None)
          else Some s)"
    have tail: "\<exists>s'. ?tail inc = Some s'" for inc
    proof -
      have "nat j < length bs" if "0 \<le> j" "j \<le> int (unat len) - 1" for j
        using that bs(2) by linarith
      then show ?thesis using wr by (cases r) simp_all
    qed
    have "update_range_data s =
        (if inc_val (parser s) = 1 \<or> inc_val (parser s) = -1 then ?tail (inc_val (parser s)) else Some s)"
      unfolding update_range_data_def Let_def lens acc(2) bind.bind_lunit
      by (simp only: 3 c r bs(1) bind.bind_lunit if_False)
    then show ?thesis using tail by simp
  qed
qed

text \<open>Response handlers.\<close>

lemma send_safe:
  assumes ok: "cur_ok s p" and data: "linked_data p = None \<or> has_bytes (mem s) (linked_data p) (unat sz)"
  shows "\<exists>q. write_response (get_linked_data s) sz s = Some (s\<lparr>rq := q\<rparr>) \<and> queue_inv q"
  using cur_ok_accessors [OF ok] data by (auto intro!: write_response_safe)

lemma send_bin_safe:
  assumes ok: "cur_ok s p" "u p = Description mn mx" "data_type p \<noteq> PARAM_TYPE_ACTION"
    and data: "0 \<le> mx" "linked_data p = None \<or> has_bytes (mem s) (linked_data p) (nat mx)"
  shows "\<exists>q. send_bin_data_type s = Some (s\<lparr>rq := q\<rparr>) \<and> queue_inv q"
proof -
  have "unat (word_of_int mx :: u8) \<le> nat mx"
    using zmod_le_nonneg_dividend [OF data(1), of 256] data(1)
    by (simp add: unat_eq_nat_uint uint_word_of_int take_bit_eq_mod nat_mono)
  then have "linked_data p = None \<or> has_bytes (mem s) (linked_data p) (unat (word_of_int mx :: u8))"
    using data(2) has_bytes_mono by blast
  then show ?thesis
    using send_safe [OF ok(1)] cur_ok_numeric [OF ok] by (simp add: send_bin_data_type_def)
qed

section \<open>The dispatcher is safe\<close>

text \<open>
  Calling one of the component's handlers on the parameter it is registered for.
\<close>

lemma get_descriptors_of_data_type_simps [simp]:
  "get_descriptors_of_data_type PARAM_TYPE_1B =
     Some \<lparr>data_update_func = Some update_bool_data_type_fn, resp_func = Some send_bool_data_type_fn\<rparr>"
  "get_descriptors_of_data_type PARAM_TYPE_BIN =
     Some \<lparr>data_update_func = Some update_bin_data_type_fn, resp_func = Some send_bin_data_type_fn\<rparr>"
  "get_descriptors_of_data_type PARAM_TYPE_CONST_BIN =
     Some \<lparr>data_update_func = None, resp_func = Some send_bin_data_type_fn\<rparr>"
  "get_descriptors_of_data_type PARAM_TYPE_STR =
     Some \<lparr>data_update_func = Some update_str_data_type_fn, resp_func = Some send_str_data_type_fn\<rparr>"
  "get_descriptors_of_data_type PARAM_TYPE_8B_RANGE =
     Some \<lparr>data_update_func = Some update_range_data_fn, resp_func = Some send_uint8_t_fn\<rparr>"
  "get_descriptors_of_data_type PARAM_TYPE_8B =
     Some \<lparr>data_update_func = Some update_uint8_t_fn, resp_func = Some send_uint8_t_fn\<rparr>"
  "get_descriptors_of_data_type PARAM_TYPE_16B =
     Some \<lparr>data_update_func = Some update_uint16_t_fn, resp_func = Some send_uint16_t_fn\<rparr>"
  "get_descriptors_of_data_type PARAM_TYPE_ACTION = None"
  "get_descriptors_of_data_type PARAM_TYPE_UNKNOWN = None"
  by (simp_all add: get_descriptors_of_data_type_def data_type_descriptor_list_def)

lemma call_update_safe:
  assumes ok: "cur_ok s p" and d: "get_descriptors_of_data_type (data_type p) = Some d"
  shows "\<exists>s'. call_opt app (data_update_func d) s = Some s' \<and> writes_linked s s'"
proof -
  have wf: "param_wf (mem s) p" using ok by (simp add: cur_ok_def)
  have "\<exists>s'. call_opt app (data_update_func d) s = Some s'"
    using wf d update_num_safe [where 'w = 8, OF ok] update_num_safe [where 'w = 16, OF ok]
      update_bool_safe [OF ok] update_bin_safe [OF ok] update_range_safe [OF ok]
    by (cases "data_type p"; cases "u p")
      (auto simp: param_wf_def call_opt_def update_uint8_t_def update_uint16_t_def)
  moreover have "writes_linked s s'" if "call_opt app (data_update_func d) s = Some s'" for s'
    using that d
    by (cases "data_type p")
      (auto simp: call_opt_def update_uint8_t_def update_uint16_t_def dest: update_writes)
  ultimately show ?thesis by blast
qed

lemma call_resp_safe:
  assumes ok: "cur_ok s p" and d: "get_descriptors_of_data_type (data_type p) = Some d"
  shows "\<exists>q. call_opt app (resp_func d) s = Some (s\<lparr>rq := q\<rparr>) \<and> queue_inv q"
proof -
  have wf: "param_wf (mem s) p" using ok by (simp add: cur_ok_def)
  note send = send_safe [OF ok] send_uint8_t_def send_uint16_t_def send_num_def send_bool_data_type_def
  show ?thesis
  proof (cases "data_type p = PARAM_TYPE_BIN \<or> data_type p = PARAM_TYPE_CONST_BIN")
    case True
    with wf obtain mn mx where "u p = Description mn mx" "0 \<le> mx"
      "linked_data p = None \<or> has_bytes (mem s) (linked_data p) (nat mx)"
      by (cases "u p") (auto simp: param_wf_def)
    with True obtain q where "send_bin_data_type s = Some (s\<lparr>rq := q\<rparr>)" "queue_inv q"
      using send_bin_safe [OF ok] by fastforce
    moreover have "call_opt app (resp_func d) s = send_bin_data_type s"
      using True d by (auto simp: call_opt_def)
    ultimately show ?thesis by auto
  next
    case False
    then show ?thesis
      using wf d by (cases "data_type p"; cases "u p") (auto simp: param_wf_def call_opt_def send)
  qed
qed

lemma writes_linked_cur_ok: "writes_linked s s' \<Longrightarrow> cur_ok s p \<Longrightarrow> cur_ok s' p"
  by (auto simp: writes_linked_def cur_ok_def input_ok_def param_wf_shape)

lemma app_call_safe:
  assumes "app_ok app" "bgcp_wf s" "f \<in> insert None (range (Some \<circ> App_fn))"
  shows "\<exists>s'. call_opt app f s = Some s' \<and> bgcp_wf s' \<and> parser s' = parser s \<and>
    (\<forall>i < PARAM_NUM. data_type (param_list s ! i) = PARAM_TYPE_ACTION \<longrightarrow>
                  data_type (param_list s' ! i) = PARAM_TYPE_ACTION)"
proof (cases f)
  case None
  with assms show ?thesis by (simp add: call_opt_def)
next
  case (Some g)
  with assms(3) obtain k where k: "f = Some (App_fn k)" by auto
  from assms(1,2) obtain ps q m where "app k s = Some (ps, q, m)"
    "bgcp_wf (s\<lparr>param_list := ps, rq := q, mem := m\<rparr>)"
    "\<forall>i < PARAM_NUM. data_type (param_list s ! i) = PARAM_TYPE_ACTION \<longrightarrow>
                  data_type (ps ! i) = PARAM_TYPE_ACTION"
    unfolding app_ok_def by metis
  with k show ?thesis by (simp add: call_opt_def)
qed

lemma action_slot:
  assumes "bgcp_wf s" "i < PARAM_NUM" "data_type (param_list s ! i) = PARAM_TYPE_ACTION"
  obtains d where "deref_descr (Slot_descr i) (param_list s) = Some d"
    "data_update_func d \<in> insert None (range (Some \<circ> App_fn))"
    "resp_func d \<in> insert None (range (Some \<circ> App_fn))"
  using bgcp_wf_slot [OF assms(1,2)] assms(3)
  by (cases "u (param_list s ! i)") (auto simp: param_wf_def)

lemma data_processing_action_safe:
  assumes app: "app_ok app" and wf: "bgcp_wf s" and i: "param (parser s) = Some i" "i < PARAM_NUM"
    and ty: "data_type (param_list s ! i) = PARAM_TYPE_ACTION"
  shows "\<exists>s'. data_processing app b c s = Some s' \<and> bgcp_wf s'"
proof -
  obtain d where d: "deref_descr (Slot_descr i) (param_list s) = Some d"
    "data_update_func d \<in> insert None (range (Some \<circ> App_fn))"
    using action_slot [OF wf i(2) ty] by blast
  let ?upd = "if b then do { d \<leftarrow> deref_descr (Slot_descr i) (param_list s);
      call_opt app (data_update_func d) s } else Some s"
  obtain s1 where s1: "?upd = Some s1" "bgcp_wf s1"
    "data_type (param_list s1 ! i) = PARAM_TYPE_ACTION"
    using app_call_safe [OF app wf d(2)] d(1) i(2) ty wf by (cases b) auto
  obtain d' where d': "deref_descr (Slot_descr i) (param_list s1) = Some d'"
    "resp_func d' \<in> insert None (range (Some \<circ> App_fn))"
    using action_slot [OF s1(2) i(2) s1(3)] by blast
  have "get_param_data_processor i (param_list s) = Some (Slot_descr i)"
    using ty by (simp add: get_param_data_processor_def)
  then show ?thesis
    using app_call_safe [OF app s1(2) d'(2)] d'(1) s1(1,2) i(1)
    unfolding data_processing_def by (auto simp del: deref_descr.simps)
qed

lemma data_processing_type_safe:
  assumes wf: "bgcp_wf s" and inp: "input_ok s"
    and i: "param (parser s) = Some i" "i < PARAM_NUM"
    and ty: "data_type (param_list s ! i) \<noteq> PARAM_TYPE_ACTION"
  shows "\<exists>s'. data_processing app b c s = Some s' \<and> bgcp_wf s'"
proof (cases "get_descriptors_of_data_type (data_type (param_list s ! i))")
  case None
  then show ?thesis
    using wf i ty by (simp add: data_processing_def get_param_data_processor_def)
next
  case (Some d)
  let ?p = "param_list s ! i"
  have ok: "cur_ok s ?p"
    using wf inp i bgcp_wf_slot [OF wf i(2)] by (simp add: cur_ok_def cur_param_def bgcp_wf_def)
  obtain s1 where s1: "(if b then call_opt app (data_update_func d) s else Some s) = Some s1"
    "writes_linked s s1"
    using call_update_safe [OF ok Some] by (cases b) auto
  have wf1: "bgcp_wf s1" using writes_linked_wf [OF s1(2) wf] .
  obtain q where "call_opt app (resp_func d) s1 = Some (s1\<lparr>rq := q\<rparr>)" "queue_inv q"
    using call_resp_safe [OF writes_linked_cur_ok [OF s1(2) ok] Some] by blast
  then show ?thesis
    using Some s1(1) wf1 i(1) ty bgcp_wf_rq
    by (auto simp: data_processing_def get_param_data_processor_def)
qed

lemma data_processing_safe:
  assumes "app_ok app" "bgcp_wf s" "input_ok s" "param (parser s) = Some i" "i < PARAM_NUM"
  shows "\<exists>s'. data_processing app b c s = Some s' \<and> bgcp_wf s'"
  using assms data_processing_action_safe data_processing_type_safe by blast

section \<open>The parser is safe\<close>

definition parser_wf :: "bgcp \<Rightarrow> bool" where
  "parser_wf s \<longleftrightarrow> bgcp_wf s \<and> cursor_ok (parser s)"

lemma read_byte_total:
  assumes "data_in_end (parser s) \<le> length (packet (parser s))"
  shows "\<exists>b n. read_byte s = Some (b, upd_parser (\<lambda>p. p\<lparr>data_in := n\<rparr>) s)"
proof (cases "data_in_end (parser s) \<le> data_in (parser s)")
  case True
  then have "read_byte s = Some (0, upd_parser (\<lambda>p. p\<lparr>data_in := data_in p\<rparr>) s)"
    by (simp add: read_byte_def Let_def)
  then show ?thesis by blast
next
  case False
  then show ?thesis using assms by (auto simp: read_byte_def Let_def)
qed

lemma read_byte_safe:
  "parser_wf s \<Longrightarrow> \<exists>b s'. read_byte s = Some (b, s') \<and> parser_wf s'"
  by (auto simp: read_byte_def parser_wf_def cursor_ok_def Let_def)

lemma parser_wf_default [simp]: "parser_wf s \<Longrightarrow> parser_wf (set_default_block_size s)"
  by (simp add: parser_wf_def set_default_block_size_def Let_def cursor_ok_def
      DEFAULT_DATA_BLOCK_SIZE_def)

lemma get_param_slot: "bgcp_wf s \<Longrightarrow> get_param num (param_list s) = Some i \<Longrightarrow> i < PARAM_NUM"
  by (auto simp: bgcp_wf_def dest: get_param_SomeD)

text \<open>The block size is set anew, whatever it was.\<close>

lemma set_new_func_safe:
  assumes "bgcp_wf s" "data_in_end (parser s) \<le> length (packet (parser s))"
  shows "\<exists>ok s'. set_new_func s = Some (ok, s') \<and> parser_wf s'"
proof -
  have default: "parser_wf (set_default_block_size s')"
    if "bgcp_wf s'" "data_in_end (parser s') \<le> length (packet (parser s'))" for s'
    using that by (simp add: set_default_block_size_def Let_def parser_wf_def cursor_ok_def
        DEFAULT_DATA_BLOCK_SIZE_def)
  obtain b n where "read_byte s = Some (b, upd_parser (\<lambda>p. p\<lparr>data_in := n\<rparr>) s)"
    using read_byte_total [OF assms(2)] by blast
  then show ?thesis using assms by (simp add: set_new_func_def Let_def default)
qed

lemma read_byte_in_val: "read_byte s = Some (b, s') \<Longrightarrow> in_val (parser s') = in_val (parser s)"
  by (auto simp: read_byte_def Let_def split: if_splits)

lemma set_default_block_size_in_val [simp]:
  "in_val (parser (set_default_block_size s)) = in_val (parser s)"
  by (simp add: set_default_block_size_def Let_def)

lemma set_new_func_in_val: "set_new_func s = Some (ok, s') \<Longrightarrow> in_val (parser s') = in_val (parser s)"
  unfolding set_new_func_def Let_def
  by (cases "read_byte s") (auto dest: read_byte_in_val)

lemma perform_safe:
  assumes app: "app_ok app" and wf: "parser_wf s" and idle: "in_val (parser s) = None"
  shows "\<exists>s'. perform app byte s = Some s' \<and> parser_wf s'"
proof -
  let ?pre = "if byte = BGCP_CMD_NOT_SUP
    then do { (b, s) \<leftarrow> read_byte s; Some (b, False, upd_parser (\<lambda>p. p\<lparr>seted_data_size := 0\<rparr>) s) }
    else Some (byte, check_data_in s, s)"
  obtain lb pp s1 where s1: "?pre = Some (lb, pp, s1)" "parser_wf s1" "pp \<Longrightarrow> check_data_in s1"
    "in_val (parser s1) = None"
  proof (cases "byte = BGCP_CMD_NOT_SUP")
    case True
    obtain b s' where "read_byte s = Some (b, s')" "parser_wf s'"
      using read_byte_safe [OF wf] by blast
    with True show thesis
      by (intro that [of b False "upd_parser (\<lambda>p. p\<lparr>seted_data_size := 0\<rparr>) s'"])
        (use idle in \<open>auto simp: parser_wf_def cursor_ok_def dest: read_byte_in_val\<close>)
  next
    case False
    with wf idle show thesis by (intro that) auto
  qed
  let ?num = "u16_of (page (parser s1)) lb"
  let ?s2 = "upd_parser (\<lambda>p. p\<lparr>param := get_param ?num (param_list s1)\<rparr>) s1"
  have wf2: "bgcp_wf ?s2" using s1(2) by (simp add: parser_wf_def)
  have finish: "parser_wf (set_default_block_size
      (upd_parser (\<lambda>p. p\<lparr>data_in := data_in p + seted_data_size p\<rparr>) s'))"
    if "bgcp_wf s'" "cursor_ok (parser s')" for s'
    using that by (intro parser_wf_default) (simp add: parser_wf_def cursor_ok_def)
  have cur2: "cursor_ok (parser ?s2)" using s1(2) by (simp add: parser_wf_def cursor_ok_def)
  have mid: "\<exists>s'. (if param (parser ?s2) = None
      then (if is_read_func (func_num (parser s))
            then do { q \<leftarrow> queue_push_no_sup_param ?num (rq ?s2); Some (?s2\<lparr>rq := q\<rparr>) }
            else Some ?s2)
      else if pp
      then data_processing app (is_write_func (func_num (parser s)))
             (is_read_func (func_num (parser s))) (link_data ?s2)
      else Some ?s2) = Some s' \<and> bgcp_wf s' \<and> cursor_ok (parser s')"
  proof (cases "get_param ?num (param_list s1)")
    case None
    have "queue_inv (rq s1)" using s1(2) by (simp add: parser_wf_def bgcp_wf_def)
    with None show ?thesis using wf2 cur2 by (auto simp: fault_simps intro: bgcp_wf_rq)
  next
    case (Some i)
    have i: "i < PARAM_NUM" using s1(2) Some by (auto simp: parser_wf_def intro: get_param_slot)
    have "bgcp_wf (link_data ?s2)" "param (parser (link_data ?s2)) = Some i"
      "cursor_ok (parser (link_data ?s2))"
      using s1(2) Some by (auto simp: parser_wf_def link_data_def Let_def cursor_ok_def)
    moreover have "input_ok (link_data ?s2)" if pp
      using s1(2,3,4) that
      by (auto simp: parser_wf_def cursor_ok_def link_data_def Let_def input_ok_def
          check_data_in_def split: if_splits)
    ultimately show ?thesis
      using Some wf2 cur2 data_processing_safe [OF app _ _ _ i] data_processing_parser
      by (cases pp) (simp, metis, simp)
  qed
  then obtain s3 where "perform app byte s = Some (set_default_block_size
      (upd_parser (\<lambda>p. p\<lparr>data_in := data_in p + seted_data_size p\<rparr>) s3))"
    "bgcp_wf s3" "cursor_ok (parser s3)"
    using s1(1) unfolding perform_def Let_def by (auto simp del: bind_eq_None_conv)
  then show ?thesis using finish by blast
qed

lemma update_param_data_lifetime_parser [simp]:
  "parser (update_param_data_lifetime t s) = parser s"
  by (simp add: update_param_data_lifetime_def split: option.split)

lemma bgcp_wf_lifetime: "bgcp_wf s \<Longrightarrow> bgcp_wf (update_param_data_lifetime t s)"
proof (cases "param (parser s)")
  case None
  then show "bgcp_wf s \<Longrightarrow> ?thesis" by (simp add: update_param_data_lifetime_def)
next
  case (Some i)
  assume wf: "bgcp_wf s"
  show ?thesis
  proof (cases "i < PARAM_NUM")
    case True
    with Some wf show ?thesis
      by (simp add: update_param_data_lifetime_def bgcp_wf_update bgcp_wf_slot)
  next
    case False
    with Some wf have "update_param_data_lifetime t s = s"
      by (simp add: update_param_data_lifetime_def list_update_beyond bgcp_wf_def)
    with wf show ?thesis by simp
  qed
qed

lemma parse_round_safe:
  assumes app: "app_ok app" and wf: "parser_wf s" and idle: "in_val (parser s) = None"
  shows "\<exists>s'. parse_round app s = Some s' \<and> parser_wf s' \<and> in_val (parser s') = None"
proof -
  obtain b s1 where s1: "read_byte s = Some (b, s1)" "parser_wf s1" "in_val (parser s1) = None"
    using read_byte_safe [OF wf] read_byte_in_val idle by metis
  obtain b' s2 where s2: "read_byte s1 = Some (b', s2)" "parser_wf s2" "in_val (parser s2) = None"
    using read_byte_safe [OF s1(2)] read_byte_in_val s1(3) by metis
  obtain ok s3 where s3: "set_new_func s1 = Some (ok, s3)" "parser_wf s3"
    using set_new_func_safe s1(2) unfolding parser_wf_def cursor_ok_def by blast
  have i3: "in_val (parser s3) = None"
    using set_new_func_in_val [OF s3(1)] s1(3) by simp
  obtain s4 where s4: "perform app b s1 = Some s4" "parser_wf s4"
    using perform_safe [OF app s1(2,3)] by blast
  have last: "parser_wf (reset_param_data (update_param_data_lifetime t s4))"
    "in_val (parser (reset_param_data (update_param_data_lifetime t s4))) = None" for t
    using s4(2) by (simp_all add: parser_wf_def reset_param_data_def cursor_ok_def bgcp_wf_lifetime)
  have "unat b' < 256" using unsigned_less [where ?'a = nat, of b'] by simp
  then have "\<exists>s'. set_data_size s1 = Some s' \<and> parser_wf s' \<and> in_val (parser s') = None"
    using s2 by (simp add: set_data_size_def Let_def parser_wf_def cursor_ok_def)
  moreover have "\<exists>s'. set_new_page s1 = Some s' \<and> parser_wf s' \<and> in_val (parser s') = None"
    using s2 by (simp add: set_new_page_def parser_wf_def cursor_ok_def)
  ultimately show ?thesis
    using s1(1) s3 i3 s4(1) last by (simp add: parse_round_def)
qed

lemma parse_loop_safe:
  assumes app: "app_ok app"
  shows "parser_wf s \<Longrightarrow> in_val (parser s) = None \<Longrightarrow>
    \<exists>s'. parse_loop app s = Some s' \<and> parser_wf s' \<and> in_val (parser s') = None"
  using app
proof (induction app s rule: parse_loop.induct)
  case (1 app s)
  obtain s1 where s1: "parse_round app s = Some s1" "parser_wf s1" "in_val (parser s1) = None"
    using parse_round_safe "1.prems" by blast
  show ?case
    using "1.IH" [OF _ _ s1(2,3)] "1.prems" s1(1) by (subst parse_loop.simps) auto
qed

lemma parse_safe:
  assumes "app_ok app" "bgcp_wf s" "unat sz \<le> length data"
  shows "\<exists>s'. parse app data sz s = Some s' \<and> bgcp_wf s'"
proof -
  let ?s = "upd_parser (\<lambda>p. p\<lparr>packet := data, data_in := 0, data_in_end := unat sz, page := 0\<rparr>) s"
  obtain ok s1 where s1: "set_new_func ?s = Some (ok, s1)" "parser_wf s1"
    using set_new_func_safe [of ?s] assms(2,3) by auto
  have "parser_wf (reset_param_data (s1\<lparr>rq := reset_req_queue (rq s1)\<rparr>))"
    "in_val (parser (reset_param_data (s1\<lparr>rq := reset_req_queue (rq s1)\<rparr>))) = None"
    using s1(2)
    by (simp_all add: parser_wf_def reset_param_data_def cursor_ok_def bgcp_wf_def queue_inv_def
        reset_req_queue_def)
  then obtain s2 where "parse_loop app (reset_param_data (s1\<lparr>rq := reset_req_queue (rq s1)\<rparr>)) = Some s2"
    "parser_wf s2"
    using parse_loop_safe [OF assms(1)] by blast
  then show ?thesis
    using s1 by (cases ok) (auto simp: parse_def Let_def parser_wf_def)
qed

end
