(* ===== verification/Bgcp_Requests.thy ===== *)
theory Bgcp_Requests
  imports Bgcp_Roundtrip Bgcp_Safety
begin

text \<open>
  What one request does to a parameter of each type: the value it stores, the objects it
  leaves alone and the response it queues.  Together with \<open>Bgcp_Roundtrip\<close> this says what a
  packet does.
\<close>

section \<open>A request for a bound parameter\<close>

lemma lookup_slot:
  "lookup p ps = Some q \<Longrightarrow> \<exists>i. get_param p ps = Some i \<and> ps ! i = q"
  by (auto simp: lookup_def)

lemma load_request_cur:
  "lookup p (param_list s) = Some q \<Longrightarrow> cur_param (load_request (f, p, bs) s) = Some q"
  by (auto simp: lookup_def cur_param_def load_request_def)

lemma load_request_keeps [simp]:
  "param_list (load_request r s) = param_list s"
  "rq (load_request r s) = rq s"
  "mem (load_request r s) = mem s"
  by (cases r; simp add: load_request_def)+

text \<open>The handlers of a type, run on the state a request loads.\<close>

definition typed_request :: "app_fns \<Rightarrow> Descriptors \<Rightarrow> request \<Rightarrow> bgcp \<Rightarrow> bgcp option" where
  "typed_request app d r s =
     (let f = fst r in
      do { s \<leftarrow> (if is_write_func f then call_opt app (data_update_func d) (load_request r s)
                else Some (load_request r s));
           (if is_read_func f then call_opt app (resp_func d) s else Some s) })"

lemma exec_req_typed:
  assumes "lookup p (param_list s) = Some q" "get_descriptors_of_data_type (data_type q) = Some d"
  shows "exec_req app (f, p, bs) s =
    map_option (update_param_data_lifetime GET_TIME) (typed_request app d (f, p, bs) s)"
proof -
  obtain i where i: "get_param p (param_list s) = Some i" "param_list s ! i = q"
    using lookup_slot [OF assms(1)] by blast
  have ty: "data_type q \<noteq> PARAM_TYPE_ACTION" using assms(2) by auto
  have "perform_core app p (load_request (f, p, bs) s) = typed_request app d (f, p, bs) s"
    using i ty assms(2)
    by (simp add: perform_core_def typed_request_def data_processing_def get_param_data_processor_def)
  then show ?thesis
    by (cases "typed_request app d (f, p, bs) s") (simp_all add: exec_req_def)
qed

lemma lifetime_keeps [simp]:
  "mem (update_param_data_lifetime t s) = mem s"
  "rq (update_param_data_lifetime t s) = rq s"
  by (simp_all add: update_param_data_lifetime_def split: option.split)

lemma lifetime_read [simp]:
  "\<not> is_write_func (func_num (parser s)) \<Longrightarrow> update_param_data_lifetime t s = s"
  by (simp add: update_param_data_lifetime_def split: option.split)

lemma func_kinds [simp]:
  "is_write_func BGCP_FUNC_W" "\<not> is_read_func BGCP_FUNC_W"
  "is_write_func BGCP_FUNC_RW" "is_read_func BGCP_FUNC_RW"
  "\<not> is_write_func BGCP_FUNC_R" "is_read_func BGCP_FUNC_R"
  "is_write_func BGCP_FUNC_INC_RW" "is_read_func BGCP_FUNC_INC_RW"
  "is_write_func BGCP_FUNC_DEC_RW" "is_read_func BGCP_FUNC_DEC_RW"
  "is_write_func BGCP_FUNC_RESP" "\<not> is_read_func BGCP_FUNC_RESP"
  by (simp_all add: is_write_func_def is_read_func_def bgcp_func_defs NO_FUNC_def)

lemma func_data [simp]:
  "carries_data BGCP_FUNC_W" "carries_data BGCP_FUNC_RW" "carries_data BGCP_FUNC_RESP"
  "\<not> carries_data BGCP_FUNC_R" "\<not> carries_data BGCP_FUNC_INC_RW" "\<not> carries_data BGCP_FUNC_DEC_RW"
  "func_inc BGCP_FUNC_W = 0" "func_inc BGCP_FUNC_RW = 0" "func_inc BGCP_FUNC_R = 0"
  "func_inc BGCP_FUNC_INC_RW = 1" "func_inc BGCP_FUNC_DEC_RW = -1" "func_inc BGCP_FUNC_RESP = 0"
  by (simp_all add: carries_data_def func_inc_def bgcp_func_defs)

lemma store_eq:
  "mem s a = Some old \<Longrightarrow> length new = length old \<Longrightarrow> store (Some a) new s = Some (s\<lparr>mem := (mem s)(a \<mapsto> new)\<rparr>)"
  by (simp add: store_def mem_write_def)

text \<open>The response of a typed parameter: how many bytes of its object are sent.\<close>

definition resp_size :: "Param \<Rightarrow> nat" where
  "resp_size q =
     (case data_type q of
        PARAM_TYPE_16B \<Rightarrow> 2
      | PARAM_TYPE_BIN \<Rightarrow> nat (desc_max (u q) mod 256)
      | PARAM_TYPE_CONST_BIN \<Rightarrow> nat (desc_max (u q) mod 256)
      | _ \<Rightarrow> 1)"

definition queue_response :: "u16 \<Rightarrow> u8 list \<Rightarrow> BGCPQueue \<Rightarrow> BGCPQueue" where
  "queue_response p bs q = push_pieces BGCP_FUNC_RESP p (param_pieces BGCP_FUNC_RESP p bs q) q"

lemma write_response_eq:
  assumes "cur_param s = Some q" "mem s a = Some bs" "unat sz \<le> length bs" "queue_inv (rq s)"
  shows "write_response (Some a) sz s =
    Some (s\<lparr>rq := queue_response (param_num q) (take (unat sz) bs) (rq s)\<rparr>)"
  using assms by (simp add: write_response_def queue_push_param_data_eq queue_response_def)

lemma unat_word_of_int8: "0 \<le> i \<Longrightarrow> unat (word_of_int i :: u8) = nat (i mod 256)"
  by (simp add: unat_eq_nat_uint uint_word_of_int take_bit_eq_mod)

text \<open>
  The response handler of each type that the component handles itself; a binary parameter's
  slot has its size in the union.
\<close>

lemma resp_eq:
  assumes cur: "cur_param s = Some q" and lin: "linked_data q = Some a" and obj: "mem s a = Some bs"
    and size: "resp_size q \<le> length bs" and inv: "queue_inv (rq s)"
    and d: "get_descriptors_of_data_type (data_type q) = Some d" "data_type q \<noteq> PARAM_TYPE_STR"
    and desc: "data_type q \<in> {PARAM_TYPE_BIN, PARAM_TYPE_CONST_BIN} \<Longrightarrow>
      \<exists>mn mx. u q = Description mn mx \<and> 0 \<le> mx"
  shows "call_opt app (resp_func d) s =
    Some (s\<lparr>rq := queue_response (param_num q) (take (resp_size q) bs) (rq s)\<rparr>)"
proof (cases "data_type q \<in> {PARAM_TYPE_BIN, PARAM_TYPE_CONST_BIN}")
  case True
  then obtain mn mx where u: "u q = Description mn mx" "0 \<le> mx" using desc by blast
  have sz: "unat (word_of_int mx :: u8) = resp_size q"
    using True u by (auto simp: resp_size_def unat_word_of_int8)
  have "call_opt app (resp_func d) s = send_bin_data_type s"
    using True d(1) by (auto simp: call_opt_def)
  moreover have "send_bin_data_type s = write_response (Some a) (word_of_int mx) s"
    using True cur lin u by (auto simp: send_bin_data_type_def get_max_num_param_val_def get_linked_data_def)
  ultimately show ?thesis using write_response_eq [OF cur obj _ inv] sz size by simp
next
  case False
  have "get_linked_data s = Some a" using cur lin by (simp add: get_linked_data_def)
  then have "call_opt app (resp_func d) s = write_response (Some a) (of_nat (resp_size q)) s"
    using False d by (cases "data_type q")
      (auto simp: call_opt_def send_uint8_t_def send_uint16_t_def send_num_def
        send_bool_data_type_def resp_size_def)
  moreover have "unat (of_nat (resp_size q) :: u8) = resp_size q"
    using False by (cases "data_type q") (auto simp: resp_size_def)
  ultimately show ?thesis using write_response_eq [OF cur obj _ inv] size by simp
qed

text \<open>The table after a request: a write notes the time in the slot.\<close>

definition touch :: "u8 \<Rightarrow> u16 \<Rightarrow> Param list \<Rightarrow> Param list" where
  "touch f p ps =
     (case get_param p ps of
        None \<Rightarrow> ps
      | Some i \<Rightarrow> if is_write_func f then ps[i := (ps ! i)\<lparr>time_update := GET_TIME\<rparr>] else ps)"

lemma touch_read [simp]: "\<not> is_write_func f \<Longrightarrow> touch f p ps = ps"
  by (simp add: touch_def split: option.split)

lemma exec_req_obs_typed:
  assumes "lookup p (param_list s) = Some q" "get_descriptors_of_data_type (data_type q) = Some d"
    "typed_request app d (f, p, bs) s = Some t" "param_list t = param_list s"
    "parser t = parser (load_request (f, p, bs) s)"
  shows "map_option obs (exec_req app (f, p, bs) s) = Some (touch f p (param_list s), rq t, mem t)"
proof -
  have "param (parser t) = get_param p (param_list s)" "func_num (parser t) = f"
    by (simp_all add: assms(5))
  then have "obs (update_param_data_lifetime GET_TIME t) = (touch f p (param_list s), rq t, mem t)"
    using assms(4) by (simp add: update_param_data_lifetime_def touch_def obs_def split: option.split)
  then show ?thesis using exec_req_typed [OF assms(1,2)] assms(3) by simp
qed

text \<open>A parameter of type \<open>ty\<close> is linked to the object \<open>a\<close> with the given union.\<close>

definition linked_param :: "bgcp \<Rightarrow> param_type \<Rightarrow> u16 \<Rightarrow> nat \<Rightarrow> param_union \<Rightarrow> bool" where
  "linked_param s ty p a w \<longleftrightarrow>
     (case lookup p (param_list s) of
        None \<Rightarrow> False
      | Some q \<Rightarrow> data_type q = ty \<and> linked_data q = Some a \<and> u q = w)"

lemma linked_paramE:
  assumes "linked_param s ty p a w"
  obtains q where "lookup p (param_list s) = Some q" "data_type q = ty" "linked_data q = Some a"
    "u q = w" "param_num q = p"
  using assms by (auto simp: linked_param_def split: option.splits dest: lookup_num)

text \<open>The two numeric update handlers.\<close>

lemma update_num_write:
  assumes q: "cur_param s = Some q" "data_type q \<noteq> PARAM_TYPE_ACTION" "linked_data q = Some a"
    "u q = Description mn mx" "inc_val (parser s) = 0"
    and n: "LENGTH('w) div 8 = n" and obj: "mem s a = Some old" "length old = n"
    and inp: "copy_input_data s = Some (Some bs)" "unat (get_input_data_size s) = n"
  shows "update_num TYPE('w::len) s = Some (s\<lparr>mem := (mem s)(a \<mapsto>
    le_bytes n (num_clamp (word_of_int mn :: 'w word) (word_of_int mx) (le_word bs)))\<rparr>)"
proof -
  have "get_linked_data s = Some a" "get_max_num_param_val s = Some mx"
    "get_min_num_param_val s = Some mn" "get_inc_val s = Some 0"
    using q by (simp_all add: get_linked_data_def get_max_num_param_val_def
        get_min_num_param_val_def get_inc_val_def)
  then show ?thesis using n obj inp by (simp add: update_num_def store_eq Let_def)
qed

lemma update_num_step:
  assumes q: "cur_param s = Some q" "data_type q \<noteq> PARAM_TYPE_ACTION" "linked_data q = Some a"
    "u q = Description mn mx" "inc_val (parser s) = i" "(word_of_int i :: 'w word) \<noteq> 0"
    and n: "LENGTH('w) div 8 = n" and obj: "mem s a = Some old" "length old = n"
  shows "update_num TYPE('w::len) s = Some (s\<lparr>mem := (mem s)(a \<mapsto>
    le_bytes n (num_step (word_of_int mn :: 'w word) (word_of_int mx) (word_of_int i) (le_word old)))\<rparr>)"
proof -
  have "get_linked_data s = Some a" "get_max_num_param_val s = Some mx"
    "get_min_num_param_val s = Some mn" "get_inc_val s = Some i"
    using q by (simp_all add: get_linked_data_def get_max_num_param_val_def
        get_min_num_param_val_def get_inc_val_def)
  then show ?thesis
    using n obj q(6) by (simp add: update_num_def store_eq mem_read_def Let_def)
qed

text \<open>A request whose update handler stores \<open>new\<close> and whose response sends the object.\<close>

lemma exec_write:
  assumes p: "linked_param s ty p a w" and d: "get_descriptors_of_data_type ty = Some d"
    and f: "is_write_func f" "\<not> is_read_func f"
    and upd: "call_opt app (data_update_func d) (load_request (f, p, bs) s) =
      Some ((load_request (f, p, bs) s)\<lparr>mem := m\<rparr>)"
  shows "map_option obs (exec_req app (f, p, bs) s) = Some (touch f p (param_list s), rq s, m)"
proof -
  obtain q where q: "lookup p (param_list s) = Some q" "data_type q = ty" using p linked_paramE by blast
  have "typed_request app d (f, p, bs) s = Some ((load_request (f, p, bs) s)\<lparr>mem := m\<rparr>)"
    using f upd by (simp add: typed_request_def)
  then show ?thesis using exec_req_obs_typed [of p s q d app f bs] q d by simp
qed

lemma exec_write_read:
  assumes p: "linked_param s ty p a w" and d: "get_descriptors_of_data_type ty = Some d"
    and ty: "ty \<noteq> PARAM_TYPE_STR" "ty \<notin> {PARAM_TYPE_BIN, PARAM_TYPE_CONST_BIN}"
    and f: "is_write_func f" "is_read_func f"
    and upd: "call_opt app (data_update_func d) (load_request (f, p, bs) s) =
      Some ((load_request (f, p, bs) s)\<lparr>mem := (mem s)(a \<mapsto> new)\<rparr>)"
    and new: "length new = (if ty = PARAM_TYPE_16B then 2 else 1)" and inv: "queue_inv (rq s)"
  shows "map_option obs (exec_req app (f, p, bs) s) =
    Some (touch f p (param_list s), queue_response p new (rq s), (mem s)(a \<mapsto> new))"
proof -
  obtain q where q: "lookup p (param_list s) = Some q" "data_type q = ty" "linked_data q = Some a"
    "param_num q = p"
    using p by (rule linked_paramE)
  let ?s = "(load_request (f, p, bs) s)\<lparr>mem := (mem s)(a \<mapsto> new)\<rparr>"
  have size: "resp_size q = length new" using q(2) new ty by (cases ty) (simp_all add: resp_size_def)
  have "call_opt app (resp_func d) ?s = Some (?s\<lparr>rq := queue_response (param_num q) (take (resp_size q) new) (rq ?s)\<rparr>)"
    by (rule resp_eq) (use q d ty inv size load_request_cur [OF q(1)] in auto)
  then have "typed_request app d (f, p, bs) s = Some (?s\<lparr>rq := queue_response p new (rq s)\<rparr>)"
    using f upd q(4) size by (simp add: typed_request_def)
  then show ?thesis using exec_req_obs_typed [of p s q d app f bs] q d by simp
qed

lemma exec_read:
  assumes q: "lookup p (param_list s) = Some q" "linked_data q = Some a" "mem s a = Some bs"
    and size: "resp_size q \<le> length bs" and inv: "queue_inv (rq s)"
    and d: "get_descriptors_of_data_type (data_type q) \<noteq> None" "data_type q \<noteq> PARAM_TYPE_STR"
    and desc: "data_type q \<in> {PARAM_TYPE_BIN, PARAM_TYPE_CONST_BIN} \<Longrightarrow>
      \<exists>mn mx. u q = Description mn mx \<and> 0 \<le> mx"
  shows "map_option obs (exec_req app (BGCP_FUNC_R, p, []) s) =
    Some (param_list s, queue_response p (take (resp_size q) bs) (rq s), mem s)"
proof -
  let ?s = "load_request (BGCP_FUNC_R, p, []) s"
  obtain d' where d': "get_descriptors_of_data_type (data_type q) = Some d'" using d(1) by blast
  have "call_opt app (resp_func d') ?s =
      Some (?s\<lparr>rq := queue_response (param_num q) (take (resp_size q) bs) (rq ?s)\<rparr>)"
    by (rule resp_eq) (use q size inv d(2) d' desc load_request_cur [OF q(1)] in auto)
  then have "typed_request app d' (BGCP_FUNC_R, p, []) s =
      Some (?s\<lparr>rq := queue_response p (take (resp_size q) bs) (rq s)\<rparr>)"
    using lookup_num [OF q(1)] by (simp add: typed_request_def)
  then show ?thesis using exec_req_obs_typed [OF q(1) d', of app BGCP_FUNC_R "[]"] by simp
qed

section \<open>Values of each type\<close>

lemma word_of_uint [simp]: "word_of_int (uint (w :: 'w::len word)) = w"
  by simp

lemma le_word_single [simp]: "(le_word [b] :: u8) = b"
  by simp

lemma le_bytes_single [simp]: "le_bytes (Suc 0) (b :: u8) = [b]"
  by (simp add: le_bytes_def)

lemma call_update_num:
  assumes p: "linked_param s PARAM_TYPE_8B p a (Description mn mx)"
    and d: "get_descriptors_of_data_type PARAM_TYPE_8B = Some d"
    and obj: "mem s a = Some [v]" and f: "func_inc f = i" "i = 1 \<or> i = -1"
  shows "call_opt app (data_update_func d) (load_request (f, p, []) s) =
    Some ((load_request (f, p, []) s)\<lparr>mem := (mem s)(a \<mapsto>
      [num_step (word_of_int mn) (word_of_int mx) (word_of_int i) v])\<rparr>)"
proof -
  let ?s = "load_request (f, p, []) s"
  obtain q where q: "lookup p (param_list s) = Some q" "data_type q = PARAM_TYPE_8B"
    "linked_data q = Some a" "u q = Description mn mx"
    using p by (rule linked_paramE)
  have "(word_of_int i :: u8) \<noteq> 0" using f(2) by auto
  then have "update_num TYPE(8) ?s = Some (?s\<lparr>mem := (mem ?s)(a \<mapsto>
      le_bytes 1 (num_step (word_of_int mn) (word_of_int mx) (word_of_int i) (le_word [v] :: u8)))\<rparr>)"
    by (intro update_num_step) (use q obj f(1) load_request_cur [OF q(1)] in auto)
  then show ?thesis using d by (auto simp: call_opt_def update_uint8_t_def)
qed

lemma call_write_num:
  assumes p: "linked_param s PARAM_TYPE_16B p a (Description mn mx)"
    and d: "get_descriptors_of_data_type PARAM_TYPE_16B = Some d"
    and obj: "mem s a = Some old" "length old = 2" and f: "carries_data f"
  shows "call_opt app (data_update_func d) (load_request (f, p, le_bytes 2 v) s) =
    Some ((load_request (f, p, le_bytes 2 v) s)\<lparr>mem := (mem s)(a \<mapsto>
      le_bytes 2 (num_clamp (word_of_int mn) (word_of_int mx) (v :: u16)))\<rparr>)"
proof -
  let ?s = "load_request (f, p, le_bytes 2 v) s"
  obtain q where q: "lookup p (param_list s) = Some q" "data_type q = PARAM_TYPE_16B"
    "linked_data q = Some a" "u q = Description mn mx"
    using p by (rule linked_paramE)
  have inc: "func_inc f = 0" using f by (auto simp: func_inc_def carries_data_def bgcp_func_defs)
  have "le_bytes 2 v \<noteq> []" by (metis length_le_bytes list.size(3) zero_neq_numeral)
  then have "update_num TYPE(16) ?s = Some (?s\<lparr>mem := (mem ?s)(a \<mapsto>
      le_bytes 2 (num_clamp (word_of_int mn) (word_of_int mx) (le_word (le_bytes 2 v) :: u16)))\<rparr>)"
    by (intro update_num_write) (use q obj f inc load_request_cur [OF q(1)] in auto)
  then show ?thesis using d by (auto simp: call_opt_def update_uint16_t_def)
qed

lemma call_write_bool:
  assumes p: "linked_param s PARAM_TYPE_1B p a w"
    and d: "get_descriptors_of_data_type PARAM_TYPE_1B = Some d"
    and obj: "mem s a = Some [old]" and f: "carries_data f"
  shows "call_opt app (data_update_func d) (load_request (f, p, [v]) s) =
    Some ((load_request (f, p, [v]) s)\<lparr>mem := (mem s)(a \<mapsto>
      [if v = SWITCH then (if old = 0 then 1 else 0) else if v = ON \<or> v = OFF then v else old])\<rparr>)"
proof -
  obtain q where q: "lookup p (param_list s) = Some q" "data_type q = PARAM_TYPE_1B"
    "linked_data q = Some a"
    using p by (rule linked_paramE)
  let ?s = "load_request (f, p, [v]) s"
  have "get_linked_data ?s = Some a"
    using load_request_cur [OF q(1)] q(3) by (simp add: get_linked_data_def)
  moreover have "mem_read (mem s) (Some a) 1 = Some [old]" using obj by (simp add: mem_read_def)
  moreover have "(mem s)(a \<mapsto> [old]) = mem s" using obj by (simp add: fun_upd_idem)
  ultimately show ?thesis
    using d f obj by (auto simp: call_opt_def update_bool_data_type_def store_eq OFF_def ON_def SWITCH_def Let_def)
qed

lemma call_write_bin:
  assumes p: "linked_param s PARAM_TYPE_BIN p a (Description mn mx)"
    and d: "get_descriptors_of_data_type PARAM_TYPE_BIN = Some d"
    and obj: "mem s a = Some old" "int (length old) = mx" and f: "carries_data f"
    and bs: "bs \<noteq> []" "length bs < 256"
  shows "call_opt app (data_update_func d) (load_request (f, p, bs) s) =
    Some ((load_request (f, p, bs) s)\<lparr>mem := (mem s)(a \<mapsto> (if length bs = length old then bs else old))\<rparr>)"
proof -
  obtain q where q: "lookup p (param_list s) = Some q" "data_type q = PARAM_TYPE_BIN"
    "linked_data q = Some a" "u q = Description mn mx"
    using p by (rule linked_paramE)
  let ?s = "load_request (f, p, bs) s"
  have cur: "get_linked_data ?s = Some a" "get_max_num_param_val ?s = Some mx"
    using load_request_cur [OF q(1)] q(2-4)
    by (simp_all add: get_linked_data_def get_max_num_param_val_def)
  have "uint (of_nat (length bs) :: u8) = int (length bs)"
    using bs(2) by (simp add: uint_nat unat_of_nat)
  moreover have "(mem s)(a \<mapsto> old) = mem s" using obj by (simp add: fun_upd_idem)
  ultimately show ?thesis
    using d f obj bs cur
    by (auto simp: call_opt_def update_bin_data_type_def copy_input_data_to_def mem_write_def)
qed

lemma seek_from_found: "seek_from i v vals n = Some r \<Longrightarrow> n \<le> length vals \<Longrightarrow> r = None \<longleftrightarrow> v \<notin> set (drop i (take n vals))"
proof (induction i v vals n rule: seek_from.induct)
  case (1 i v vals n)
  show ?case
  proof (cases "i < n")
    case True
    then have "drop i (take n vals) = vals ! i # drop (Suc i) (take n vals)"
      using "1.prems"(2) by (simp add: Cons_nth_drop_Suc [symmetric])
    moreover have "seek_from i v vals n =
        (if vals ! i = v then Some (Some i) else seek_from (Suc i) v vals n)"
      using True "1.prems"(2) by (subst seek_from.simps) simp
    ultimately show ?thesis
      using "1.IH" "1.prems" True by (cases "vals ! i = v") auto
  next
    case False
    then have "seek_from i v vals n = Some None" by (subst seek_from.simps) simp
    with False "1.prems" show ?thesis by simp
  qed
qed

lemma call_write_range:
  assumes p: "linked_param s PARAM_TYPE_8B_RANGE p a (Validator len (Some b))"
    and d: "get_descriptors_of_data_type PARAM_TYPE_8B_RANGE = Some d"
    and obj: "mem s a = Some [old]" "mem s b = Some vals" "unat len = length vals" and f: "carries_data f"
  shows "call_opt app (data_update_func d) (load_request (f, p, [v]) s) =
    Some ((load_request (f, p, [v]) s)\<lparr>mem := (mem s)(a \<mapsto> [if v \<in> set vals then v else old])\<rparr>)"
proof -
  obtain q where q: "lookup p (param_list s) = Some q" "data_type q = PARAM_TYPE_8B_RANGE"
    "linked_data q = Some a" "u q = Validator len (Some b)"
    using p by (rule linked_paramE)
  let ?s = "load_request (f, p, [v]) s"
  have cur: "get_linked_data ?s = Some a" "get_valid_val_list_len ?s = Some len"
    "get_valid_val_list ?s = Some (Some b)" "valid_vals (Some b) ?s = Some vals"
    using load_request_cur [OF q(1)] q(2-4) obj(2)
    by (simp_all add: get_linked_data_def get_valid_val_list_len_def get_valid_val_list_def valid_vals_def)
  obtain r where r: "seek_val_in_range_list v vals len = Some r"
    using seek_safe [of len vals v] obj(3) by auto
  then have "r = None \<longleftrightarrow> v \<notin> set vals"
    using seek_from_found [of 0 v vals "unat len" r] obj(3) by (simp add: seek_val_in_range_list_def)
  moreover have "(mem s)(a \<mapsto> [old]) = mem s" using obj by (simp add: fun_upd_idem)
  ultimately show ?thesis
    using d f obj cur r by (auto simp: call_opt_def update_range_data_def store_eq)
qed

section \<open>Packets that only read\<close>

text \<open>The state between two bytes of a packet without function commands that started with a read.\<close>

definition reading :: "bgcp \<Rightarrow> bgcp \<Rightarrow> bool" where
  "reading s0 s \<longleftrightarrow> mem s = mem s0 \<and> param_list s = param_list s0 \<and>
     func_num (parser s) = BGCP_FUNC_R \<and> BGCP_CMD_FUNC \<notin> set (packet (parser s))"

lemma read_byte_frame:
  assumes "read_byte s = Some (b, s')"
  shows "mem s' = mem s" "param_list s' = param_list s" "rq s' = rq s"
    "func_num (parser s') = func_num (parser s)" "packet (parser s') = packet (parser s)"
    "b = 0 \<or> b \<in> set (packet (parser s))"
  using assms by (auto simp: read_byte_def Let_def split: if_splits)

lemma reading_read_byte: "read_byte s = Some (b, s') \<Longrightarrow> reading s0 s \<Longrightarrow> reading s0 s' \<and> b \<noteq> BGCP_CMD_FUNC"
  using read_byte_frame [of s b s'] by (auto simp: reading_def bgcp_cmd_defs)

lemma call_resp_writes:
  "get_descriptors_of_data_type ty = Some d \<Longrightarrow> call_opt app (resp_func d) s = Some s' \<Longrightarrow> writes_queue s s'"
  by (cases ty)
    (auto simp: call_opt_def send_uint8_t_def send_uint16_t_def send_num_def send_bool_data_type_def
      dest: send_writes)

lemma response_writes:
  assumes "data_processing app False b s = Some s'" "param (parser s) = Some i"
    "data_type (param_list s ! i) \<noteq> PARAM_TYPE_ACTION"
  shows "writes_queue s s'"
  using assms call_resp_writes
  by (auto simp: data_processing_def get_param_data_processor_def split: option.splits if_splits)

lemma reading_queue: "writes_queue s s' \<Longrightarrow> reading s0 s \<Longrightarrow> reading s0 s'"
  by (auto simp: writes_queue_def reading_def)

lemma reading_default [simp]: "reading s0 (set_default_block_size s) = reading s0 s"
  by (simp add: reading_def set_default_block_size_def Let_def)

lemma reading_perform:
  assumes "perform app byte s = Some s'" "reading s0 s"
    "\<forall>q \<in> set (param_list s0). data_type q \<noteq> PARAM_TYPE_ACTION"
  shows "reading s0 s'"
proof -
  let ?pre = "if byte = BGCP_CMD_NOT_SUP
    then do { (b, s) \<leftarrow> read_byte s; Some (b, False, upd_parser (\<lambda>p. p\<lparr>seted_data_size := 0\<rparr>) s) }
    else Some (byte, check_data_in s, s)"
  have f: "func_num (parser s) = BGCP_FUNC_R" using assms(2) by (simp add: reading_def)
  obtain lb pp s1 where pre: "?pre = Some (lb, pp, s1)"
    using assms(1) unfolding perform_def Let_def by (auto elim!: bind_SomeE)
  have s1: "reading s0 s1"
  proof (cases "byte = BGCP_CMD_NOT_SUP")
    case True
    with pre obtain b s2 where "read_byte s = Some (b, s2)"
      "s1 = upd_parser (\<lambda>p. p\<lparr>seted_data_size := 0\<rparr>) s2"
      by (auto elim!: bind_SomeE)
    then show ?thesis using reading_read_byte [of s b s2 s0] assms(2) by (auto simp: reading_def)
  next
    case False
    with pre assms(2) show ?thesis by simp
  qed
  let ?num = "u16_of (page (parser s1)) lb"
  let ?s2 = "upd_parser (\<lambda>p. p\<lparr>param := get_param ?num (param_list s1)\<rparr>) s1"
  have s2: "reading s0 ?s2" "reading s0 (link_data ?s2)"
    using s1 by (simp_all add: reading_def link_data_def Let_def)
  let ?mid = "if param (parser ?s2) = None
      then do { q \<leftarrow> queue_push_no_sup_param ?num (rq ?s2); Some (?s2\<lparr>rq := q\<rparr>) }
      else if pp then data_processing app False True (link_data ?s2) else Some ?s2"
  have "perform app byte s = Option.bind ?mid (\<lambda>x. Some (set_default_block_size
      (upd_parser (\<lambda>p. p\<lparr>data_in := data_in p + seted_data_size p\<rparr>) x)))"
    unfolding perform_def Let_def f pre by (simp cong: if_cong)
  with assms(1) obtain s3 where s3: "?mid = Some s3"
    "s' = set_default_block_size (upd_parser (\<lambda>p. p\<lparr>data_in := data_in p + seted_data_size p\<rparr>) s3)"
    by (auto elim: bind_SomeE)
  have "reading s0 s3"
  proof (cases "param (parser ?s2)")
    case None
    with s3(1) obtain q where "s3 = ?s2\<lparr>rq := q\<rparr>" by (auto elim!: bind_SomeE)
    with s2(1) show ?thesis by (simp add: reading_def)
  next
    case (Some i)
    have "i < length (param_list s0)" "param_list s1 = param_list s0"
      using Some s1 get_param_SomeD [of ?num "param_list s1" i] by (auto simp: reading_def)
    then have ty: "data_type (param_list (link_data ?s2) ! i) \<noteq> PARAM_TYPE_ACTION"
      using assms(3) by (simp add: link_data_def Let_def)
    have p: "param (parser (link_data ?s2)) = Some i"
      using Some by (simp add: link_data_def Let_def)
    show ?thesis
    proof (cases pp)
      case True
      then have "data_processing app False True (link_data ?s2) = Some s3" using s3(1) Some by simp
      then show ?thesis by (rule reading_queue [OF response_writes [OF _ p ty] s2(2)])
    next
      case False
      then show ?thesis using s3(1) Some s2(1) by simp
    qed
  qed
  then have "reading s0 (upd_parser (\<lambda>p. p\<lparr>data_in := data_in p + seted_data_size p\<rparr>) s3)"
    by (simp add: reading_def)
  then show ?thesis unfolding s3(2) reading_default .
qed

lemma reading_round:
  assumes "parse_round app s = Some s'" "reading s0 s"
    "\<forall>q \<in> set (param_list s0). data_type q \<noteq> PARAM_TYPE_ACTION"
  shows "reading s0 s'"
proof -
  obtain b s1 where s1: "read_byte s = Some (b, s1)"
    using assms(1) by (auto simp: parse_round_def elim!: bind_SomeE)
  then have r1: "reading s0 s1" "b \<noteq> BGCP_CMD_FUNC" using reading_read_byte assms(2) by blast+
  consider (page) "b = BGCP_CMD_PAGE" | (size) "b = BGCP_CMD_SIZE" "b \<noteq> BGCP_CMD_PAGE"
    | (param) "b \<noteq> BGCP_CMD_PAGE" "b \<noteq> BGCP_CMD_SIZE" by blast
  then show ?thesis
  proof cases
    case page
    with assms(1) s1 obtain c s2 where "read_byte s1 = Some (c, s2)"
      "s' = upd_parser (\<lambda>p. p\<lparr>page := c\<rparr>) s2"
      by (auto simp: parse_round_def set_new_page_def elim!: bind_SomeE)
    then show ?thesis using reading_read_byte [of s1 c s2 s0] r1 by (auto simp: reading_def)
  next
    case size
    with assms(1) s1 r1(2) obtain c s2 where c: "read_byte s1 = Some (c, s2)"
      "s' = upd_parser (\<lambda>p. p\<lparr>seted_data_size := unat c\<rparr>) s2 \<or> s' = s2"
      by (auto simp: parse_round_def set_data_size_def Let_def elim!: bind_SomeE split: if_splits)
    then show ?thesis using reading_read_byte [of s1 c s2 s0] r1 by (auto simp: reading_def)
  next
    case param
    with assms(1) s1 r1(2) obtain s2 where s2: "perform app b s1 = Some s2"
      "s' = reset_param_data (update_param_data_lifetime GET_TIME s2)"
      by (auto simp: parse_round_def elim!: bind_SomeE)
    have "reading s0 s2" using reading_perform [OF s2(1) r1(1) assms(3)] .
    moreover then have "update_param_data_lifetime GET_TIME s2 = s2" by (simp add: reading_def)
    ultimately show ?thesis using s2(2) by (simp add: reading_def reset_param_data_def)
  qed
qed

lemma reading_loop:
  "reading s0 s \<Longrightarrow> \<forall>q \<in> set (param_list s0). data_type q \<noteq> PARAM_TYPE_ACTION \<Longrightarrow>
   parse_loop app s = Some s' \<Longrightarrow> reading s0 s'"
proof (induction app s rule: parse_loop.induct)
  case (1 app s)
  show ?case
  proof (cases "data_in (parser s) < data_in_end (parser s)")
    case True
    then obtain s1 where s1: "parse_round app s = Some s1" "parse_loop app s1 = Some s'"
      using "1.prems"(3) by (subst (asm) parse_loop.simps) (auto elim!: bind_SomeE)
    show ?thesis
      using "1.IH" [OF True] s1 reading_round [OF s1(1) "1.prems"(1,2)] "1.prems"(2) by blast
  next
    case False
    then have "parse_loop app s = Some s" by (subst parse_loop.simps) simp
    then show ?thesis using "1.prems" by simp
  qed
qed

section \<open>A state to try the statements on\<close>

text \<open>
  Six parameters of different types, each linked to an object of its own; the last is an
  action of an application that does nothing.
\<close>

definition sample_params :: "Param list" where
  "sample_params =
     [num_record PARAM_TYPE_1B (Some 0) 2 0 1,
      num_record PARAM_TYPE_8B (Some 1) 0 222 4,
      num_record PARAM_TYPE_16B (Some 2) 10 3000 278,
      ranked_record (Some 3) (Some 4) 3 7,
      num_record PARAM_TYPE_BIN (Some 5) 0 4 149,
      action_record None (Some (App_fn 0)) None 128] @ replicate 9 zero_param"

definition sample_mem :: mem where
  "sample_mem =
     (\<lambda>a. None)(0 \<mapsto> [1], 1 \<mapsto> [222], 2 \<mapsto> [123, 0], 3 \<mapsto> [5], 4 \<mapsto> [2, 5, 9], 5 \<mapsto> [1, 2, 3, 4])"

definition sample_queue :: BGCPQueue where
  "sample_queue = \<lparr>cur_func = 0, cur_page = 0, queue_size = 0, queue_buf = replicate 512 0\<rparr>"

definition sample_parser :: ParserData where
  "sample_parser = \<lparr>err_status = 0, in_val = None, param = None, func_num = 0, packet = [],
     data_in = 0, data_in_end = 0, page = 0, inc_val = 0, seted_data_size = 0, in_data_size = 0\<rparr>"

definition sample :: bgcp where
  "sample = \<lparr>parser = sample_parser, param_list = sample_params, rq = sample_queue, mem = sample_mem\<rparr>"

definition sample_app :: app_fns where
  "sample_app k s = Some (param_list s, rq s, mem s)"

lemma sample_fields [simp]:
  "parser sample = sample_parser" "param_list sample = sample_params" "rq sample = sample_queue"
  "mem sample = sample_mem"
  by (simp_all add: sample_def)

lemma sample_queue_inv [simp]: "queue_inv sample_queue" "queue_size sample_queue = 0"
  "cur_func sample_queue = 0" "cur_page sample_queue = 0"
  by (simp_all add: sample_queue_def queue_inv_def QUEUE_BUF_SIZE_def)

lemma sample_mem_simps [simp]:
  "sample_mem 0 = Some [1]" "sample_mem (Suc 0) = Some [222]" "sample_mem 2 = Some [123, 0]"
  "sample_mem 3 = Some [5]" "sample_mem 4 = Some [2, 5, 9]" "sample_mem 5 = Some [1, 2, 3, 4]"
  by (simp_all add: sample_mem_def)

lemma sample_wf: "bgcp_wf sample"
  by (simp add: bgcp_wf_def sample_params_def PARAM_NUM_def param_wf_def zero_param_def has_bytes_def)

lemma sample_app_ok: "app_ok sample_app"
  by (simp add: app_ok_def sample_app_def)

lemma sample_app_local: "app_local sample_app"
  by (auto simp: app_local_def sample_app_def dest: same_viewD(1-3))

end
