(* ===== verification/Bgcp_Properties.thy ===== *)
theory Bgcp_Properties
  imports Bgcp_Requests
begin

text \<open>
  The properties of the BGCP component: the queue, the table, the handlers and the parser.
  Requests are stated against \<open>exec_req\<close>, which \<open>queue_parser_roundtrip\<close> ties to packets; the
  result of a request is the triple of table, queue and objects (\<open>obs\<close>).
\<close>

section \<open>Packets\<close>

text \<open>C1: For every packet, a state whose parameters are linked to objects of the right size,
  and application handlers that are themselves safe, \<open>parse\<close> returns: it makes no access
  outside an object, through a null pointer or past the end of the packet or of the response
  queue, and the state after it is well formed again.\<close>

theorem parse_memory_safe:
  assumes "app_ok app" "bgcp_wf s" "unat sz \<le> length data"
  shows "\<exists>s'. parse app data sz s = Some s' \<and> bgcp_wf s'"
  using assms by (rule parse_safe)

theorem parse_memory_safe_witness:
  "\<exists>s'. parse sample_app [2, 1, 2, 0xFC, 4, 0xFF, 1, 22, 0xFE, 3] 10 sample = Some s' \<and> bgcp_wf s'"
  by (rule parse_memory_safe [OF sample_app_ok sample_wf]) simp

text \<open>C2: What the request functions of the queue write, the parser performs: for a list of
  requests whose encoding fits the buffer, pushing them all succeeds, and parsing the queue's
  bytes has the effect of performing the requests one after another on the table, the objects
  and the response queue.\<close>

theorem queue_parser_roundtrip:
  assumes "app_local app" "rs \<noteq> []" "\<forall>r \<in> set rs. req_ok r" "length (encode rs) < QUEUE_BUF_SIZE"
    "length (queue_buf q0) = QUEUE_BUF_SIZE"
  shows "\<exists>q. push_requests rs (reset_req_queue q0) = Some q \<and>
    map_option obs (parse app (get_req_queue_data q) (get_req_queue_size q) s) =
    map_option obs (exec_reqs app rs (s\<lparr>rq := reset_req_queue (rq s)\<rparr>))"
proof -
  obtain q where q: "push_requests rs (reset_req_queue q0) = Some q" "queue_inv q"
    "contents q = encode rs"
    using push_requests_encode [of "reset_req_queue q0" rs] assms(3-5)
    by (auto simp: reset_req_queue_def queue_inv_def QUEUE_BUF_SIZE_def)
  have data: "queue_buf q = encode rs @ drop (unat (queue_size q)) (queue_buf q)"
    using q(3) by (simp add: contents_def) (metis append_take_drop_id)
  have "unat (queue_size q) = length (encode rs)" using length_contents [OF q(2)] q(3) by simp
  then have sz: "queue_size q = of_nat (length (encode rs))" 
    using assms(4) by (simp add: word_unat_eq_iff unat_of_nat take_bit_eq_mod QUEUE_BUF_SIZE_def)
  show ?thesis
    using q(1) parse_encoding [OF assms(1-3) _ data] assms(4) sz
    by (simp add: get_req_queue_data_def get_req_queue_size_def QUEUE_BUF_SIZE_def)
qed

theorem queue_parser_roundtrip_witness:
  "\<exists>q. push_requests [(BGCP_FUNC_W, 278, [7, 1]), (BGCP_FUNC_INC_RW, 4, [])] (reset_req_queue sample_queue) = Some q \<and>
    map_option obs (parse sample_app (get_req_queue_data q) (get_req_queue_size q) sample) =
    map_option obs (exec_reqs sample_app [(BGCP_FUNC_W, 278, [7, 1]), (BGCP_FUNC_INC_RW, 4, [])]
      (sample\<lparr>rq := reset_req_queue (rq sample)\<rparr>))"
  by (rule queue_parser_roundtrip [OF sample_app_local])
    (simp_all add: req_ok_def is_valid_func_def is_command_byte_def lo8_def hi8_def carries_data_def
      bgcp_cmd_defs bgcp_func_defs encode_def QUEUE_BUF_SIZE_def sample_queue_def)

text \<open>C3: The queue writes exactly the reference encoding of the requests: function and page
  headers only where they change, a size only for data of more than one byte.\<close>

theorem queue_writes_encoding:
  assumes "\<forall>r \<in> set rs. req_ok r" "length (encode rs) < QUEUE_BUF_SIZE"
    "length (queue_buf q0) = QUEUE_BUF_SIZE"
  shows "\<exists>q. push_requests rs (reset_req_queue q0) = Some q \<and> contents q = encode rs \<and>
    unat (get_req_queue_size q) = length (encode rs)"
proof -
  obtain q where q: "push_requests rs (reset_req_queue q0) = Some q" "queue_inv q"
    "contents q = encode rs"
    using push_requests_encode [of "reset_req_queue q0" rs] assms
    by (auto simp: reset_req_queue_def queue_inv_def QUEUE_BUF_SIZE_def)
  then show ?thesis using length_contents [OF q(2)] by (simp add: get_req_queue_size_def)
qed

theorem queue_writes_encoding_witness:
  "\<exists>q. push_requests [(BGCP_FUNC_W, 278, [7, 1]), (BGCP_FUNC_W, 4, [9])] (reset_req_queue sample_queue) = Some q \<and>
    contents q = [2, 0xFF, 1, 0xFE, 2, lo8 278, 7, 1, 0xFF, 0, lo8 4, 9]"
proof -
  let ?rs = "[(BGCP_FUNC_W, 278, [7, 1]), (BGCP_FUNC_W, 4, [9])] :: request list"
  have enc: "encode ?rs = [2, 0xFF, 1, 0xFE, 2, lo8 278, 7, 1, 0xFF, 0, lo8 4, 9]"
    by (simp add: encode_def hi8_def bgcp_cmd_defs bgcp_func_defs)
  have "\<forall>r \<in> set ?rs. req_ok r"
    by (simp add: req_ok_def is_valid_func_def is_command_byte_def lo8_def carries_data_def
        bgcp_cmd_defs bgcp_func_defs)
  then have "\<exists>q. push_requests ?rs (reset_req_queue sample_queue) = Some q \<and>
      contents q = encode ?rs \<and> unat (get_req_queue_size q) = length (encode ?rs)"
    by (rule queue_writes_encoding) (simp_all add: enc QUEUE_BUF_SIZE_def sample_queue_def)
  then show ?thesis unfolding enc by blast
qed

section \<open>The queue\<close>

text \<open>C4: No sequence of pushes writes outside the 512-byte buffer: every push returns, the size
  stays below 512, and what was queued before is never changed or cut.\<close>

theorem queue_never_overflows:
  assumes "queue_inv q" "\<forall>x \<in> set xs. op_ok x"
  shows "\<exists>q' r. queue_run xs q = Some q' \<and> unat (get_req_queue_size q') < QUEUE_BUF_SIZE \<and>
    length (get_req_queue_data q') = QUEUE_BUF_SIZE \<and> contents q' = contents q @ r"
  using queue_run_total [OF assms]
  by (auto simp: queue_inv_def get_req_queue_size_def get_req_queue_data_def)

theorem queue_never_overflows_witness:
  "\<exists>q' r. queue_run (replicate 400 (Op_uint16 BGCP_FUNC_W 278 3)) sample_queue = Some q' \<and>
    unat (get_req_queue_size q') < QUEUE_BUF_SIZE \<and>
    length (get_req_queue_data q') = QUEUE_BUF_SIZE \<and> contents q' = contents sample_queue @ r"
  by (rule queue_never_overflows) simp_all

text \<open>A message is not queued as a whole: when its header fits but its data does not, the
  size and the parameter number are queued without the data they announce.\<close>

lemma full_queue_drops_data_only:
  assumes "queue_inv q" "cur_func q = f" "cur_page q = hi8 p" "1 < length bs" "length bs < 256"
    "length (contents q) + 3 < QUEUE_BUF_SIZE" "QUEUE_BUF_SIZE \<le> length (contents q) + 3 + length bs"
  shows "\<exists>q'. queue_push_param_data f p (Some bs) (of_nat (length bs)) q = Some q' \<and>
    contents q' = contents q @ [BGCP_CMD_SIZE, of_nat (length bs), lo8 p]"
  using assms by (rule param_header_only)

definition nearly_full :: BGCPQueue where
  "nearly_full = \<lparr>cur_func = 2, cur_page = 0, queue_size = 507, queue_buf = replicate 512 7\<rparr>"

lemma full_queue_drops_data_only_witness:
  "\<exists>q'. queue_push_param_data 2 4 (Some [1, 2]) (of_nat (length [1::u8, 2])) nearly_full = Some q' \<and>
    contents q' = contents nearly_full @ [BGCP_CMD_SIZE, of_nat (length [1::u8, 2]), lo8 4]"
  by (rule full_queue_drops_data_only)
    (simp_all add: nearly_full_def queue_inv_def contents_def QUEUE_BUF_SIZE_def hi8_def)

section \<open>The table\<close>

text \<open>Fifteen different numbers can be bound, in any order and by any of the binding
  functions; each is then found with what its binding stored; and any further number is
  refused, with the table unchanged.\<close>

lemma table_holds_fifteen:
  assumes "distinct (map snd xs)" "NO_PARAM \<notin> snd ` set xs" "length xs = PARAM_NUM"
    "num \<notin> snd ` set xs" "num \<noteq> NO_PARAM"
  shows "let (ok, ps) = bind_params xs init_param_list in
    ok \<and> (\<forall>(d, k) \<in> set xs. lookup k ps = Some (bound_record d k)) \<and> do_bind d num ps = (False, ps)"
proof -
  let ?ps = "snd (bind_params xs init_param_list)"
  have all: "fst (bind_params xs init_param_list) \<and>
      (\<forall>(d, k) \<in> set xs. lookup k ?ps = Some (bound_record d k))"
    unfolding bind_params_bind_all by (rule tablep.bind_all_ok [OF assms(1,2)]) (simp add: assms(3))
  have "\<forall>x \<in> set xs. lookup (snd x) init_param_list = None"
    using assms(2) lookup_init by (metis image_eqI)
  then have "free_slots ?ps = 0" using bind_params_free [OF assms(1,2)] assms(3) by simp
  moreover have "lookup num ?ps = None"
    using assms(2,4,5) by (simp add: bind_params_bind_all tablep.bind_all_other)
  ultimately have "do_bind d num ?ps = (False, ?ps)" by (rule tablep.bind_full)
  with all show ?thesis by (simp add: case_prod_beta)
qed

lemma table_holds_fifteen_witness:
  "let (ok, ps) = bind_params [(Bind_bool None, 1), (Bind_bool None, 2), (Bind_bool None, 3),
      (Bind_uint8 None 0 9, 4), (Bind_uint8 None 0 9, 5), (Bind_uint8 None 0 9, 6),
      (Bind_uint16 None 0 9, 7), (Bind_uint16 None 0 9, 8), (Bind_uint16 None 0 9, 9),
      (Bind_cmd None, 10), (Bind_resp None, 11), (Bind_str None 0 9, 12),
      (Bind_binary None 5, 13), (Bind_const None 5, 14), (Bind_ranked None None 0, 15)] init_param_list in
    ok \<and> (\<forall>(d, k) \<in> set [(Bind_bool None, 1), (Bind_bool None, 2), (Bind_bool None, 3),
      (Bind_uint8 None 0 9, 4), (Bind_uint8 None 0 9, 5), (Bind_uint8 None 0 9, 6),
      (Bind_uint16 None 0 9, 7), (Bind_uint16 None 0 9, 8), (Bind_uint16 None 0 9, 9),
      (Bind_cmd None, 10), (Bind_resp None, 11), (Bind_str None 0 9, 12),
      (Bind_binary None 5, 13), (Bind_const None 5, 14), (Bind_ranked None None 0, 15)].
        lookup k ps = Some (bound_record d k)) \<and> do_bind (Bind_bool None) 16 ps = (False, ps)"
  by (rule table_holds_fifteen) (simp_all add: NO_PARAM_def PARAM_NUM_def)

text \<open>A second binding of a number replaces the first in place and leaves every other
  parameter as it was.\<close>

lemma rebinding_replaces:
  assumes "lookup num ps = Some q" "num \<noteq> NO_PARAM" "do_bind d num ps = (ok, ps')"
  shows "ok \<and> lookup num ps' = Some (bound_record d num) \<and> length ps' = length ps \<and>
    free_slots ps' = free_slots ps \<and> (\<forall>k. k \<noteq> num \<and> k \<noteq> NO_PARAM \<longrightarrow> lookup k ps' = lookup k ps)"
proof -
  have ok: "fst (do_bind d num ps)" using assms(1) by (simp add: tablep.bind_ok_iff)
  then show ?thesis
    using tablep.bind_hit [OF ok] tablep.bind_length [of d num ps] tablep.bind_free [OF assms(2) ok]
      tablep.bind_other [of _ num d ps] assms(1,3) by simp
qed

lemma rebinding_replaces_witness:
  "lookup 4 (snd (do_bind (Bind_bool (Some 1)) 4 sample_params)) = Some (bound_record (Bind_bool (Some 1)) 4)"
proof -
  have "lookup 4 sample_params = Some (num_record PARAM_TYPE_8B (Some 1) 0 222 4)"
    by (simp add: sample_params_def)
  moreover have "(4 :: u16) \<noteq> NO_PARAM" by (simp add: NO_PARAM_def)
  ultimately show ?thesis
    using rebinding_replaces [OF _ _ prod.collapse [symmetric]] by blast
qed

text \<open>No binding makes a parameter of type \<open>PARAM_TYPE_STR\<close>: the binding of a string buffer
  registers it as binary data, so the string handlers are never called and a string is
  written only when it has exactly the size of the buffer.\<close>

lemma no_string_parameters:
  "(\<forall>q \<in> set (snd (bind_params xs init_param_list)). data_type q \<noteq> PARAM_TYPE_STR) \<and>
   (fst (bind_str_param num buf min_len len ps) \<longrightarrow>
      map_option data_type (lookup num (snd (bind_str_param num buf min_len len ps))) = Some PARAM_TYPE_BIN)"
proof -
  have "\<forall>q \<in> set init_param_list. data_type q \<noteq> PARAM_TYPE_STR"
    by (simp add: init_param_list_def zero_param_def)
  then show ?thesis
    using bind_params_types [of init_param_list xs] strp.bind_hit [of "(buf, min_len, len)" num ps]
    by simp
qed

lemma no_string_parameters_witness:
  "fst (bind_str_param 149 (Some 0) 1 32 init_param_list) \<and>
   map_option data_type (lookup 149 (snd (bind_str_param 149 (Some 0) 1 32 init_param_list))) = Some PARAM_TYPE_BIN"
proof -
  have "fst (bind_str_param 149 (Some 0) 1 32 init_param_list)"
    using strp.bind_ok_iff [of "(Some 0, 1, 32)" 149 init_param_list] by (simp add: PARAM_NUM_def)
  then show ?thesis using no_string_parameters [of "[]" 149 "Some 0" 1 32 init_param_list] by blast
qed

section \<open>Requests\<close>

text \<open>C15: A write to a 16-bit parameter stores the value cut to the parameter's range (the maximum
  for a value above it, the minimum for one below it, the value itself otherwise), in the linked
  object and nowhere else, and queues no response.\<close>

theorem write_clamps:
  fixes mn mx v :: u16
  assumes "linked_param s PARAM_TYPE_16B p a (Description (uint mn) (uint mx))"
    "mem s a = Some old" "length old = 2"
  shows "map_option obs (exec_req app (BGCP_FUNC_W, p, le_bytes 2 v) s) =
      Some (touch BGCP_FUNC_W p (param_list s), rq s, (mem s)(a \<mapsto> le_bytes 2 (if mx < v then mx else if v < mn then mn else v)))"
proof -
  obtain d where d: "get_descriptors_of_data_type PARAM_TYPE_16B = Some d" by simp
  show ?thesis
    using exec_write [OF assms(1) d _ _ call_write_num [OF assms(1) d assms(2,3)]]
    by (simp add: num_clamp_def not_less)
qed

theorem write_clamps_witness:
  "map_option obs (exec_req sample_app (BGCP_FUNC_W, 278, le_bytes 2 (4000 :: u16)) sample) =
    Some (touch BGCP_FUNC_W 278 sample_params, sample_queue, sample_mem(2 \<mapsto> le_bytes 2 (3000 :: u16)))"
  using write_clamps [of sample 278 2 10 3000 "[123, 0]" sample_app 4000]
  by (simp add: linked_param_def sample_params_def)

text \<open>C16: A step of an 8-bit parameter whose value is in its range stays in the range, wraps
  from one end to the other, and answers with the new value.  At the ends of \<open>uint8_t\<close> it does
  not wrap: a decrement at a minimum of 0 (and an increment at a maximum of 255 with another
  minimum) leaves the value.\<close>

theorem step_wraps:
  assumes "linked_param s PARAM_TYPE_8B p a (Description (uint mn) (uint mx))"
    "mem s a = Some [v]" "mn \<le> v" "v \<le> mx" "queue_inv (rq s)"
    "v' = (if up then (if v \<noteq> mx then v + 1 else if mx = -1 \<and> mn \<noteq> 0 then mx else mn)
           else (if v \<noteq> mn then v - 1 else if mn = 0 \<and> mx \<noteq> -1 then mn else mx))"
    "f = (if up then BGCP_FUNC_INC_RW else BGCP_FUNC_DEC_RW)"
  shows "map_option obs (exec_req app (f, p, []) s) =
      Some (touch f p (param_list s), queue_response p [v'] (rq s), (mem s)(a \<mapsto> [v']))"
proof -
  obtain d where d: "get_descriptors_of_data_type PARAM_TYPE_8B = Some d" by simp
  let ?i = "if up then 1 else -1 :: int"
  have f: "is_write_func f" "is_read_func f" "func_inc f = ?i" "?i = 1 \<or> ?i = -1"
    using assms(7) by simp_all
  have v': "num_step mn mx (word_of_int ?i) v = v'"
    using num_step_inc [OF assms(3,4)] num_step_dec [OF assms(3,4)] assms(6) by simp
  show ?thesis
    using exec_write_read [OF assms(1) d _ _ f(1,2), of app "[]" "[v']"]
      call_update_num [OF assms(1) d assms(2) f(3,4)] assms(5) v' by simp
qed

theorem step_wraps_witness:
  "map_option obs (exec_req sample_app (BGCP_FUNC_INC_RW, 4, []) sample) =
    Some (touch BGCP_FUNC_INC_RW 4 sample_params, queue_response 4 [0] sample_queue, sample_mem(1 \<mapsto> [0]))"
  using step_wraps [of sample 4 1 0 222 222 0 True BGCP_FUNC_INC_RW sample_app]
  by (simp add: linked_param_def sample_params_def)

text \<open>A read of a parameter of any type the component handles itself changes no object and
  no slot, and queues one response with the bytes of the linked object.\<close>

lemma read_answers:
  assumes "lookup p (param_list s) = Some q" "linked_data q = Some a" "mem s a = Some bs"
    "resp_size q \<le> length bs" "queue_inv (rq s)"
    "get_descriptors_of_data_type (data_type q) \<noteq> None" "data_type q \<noteq> PARAM_TYPE_STR"
    "data_type q \<in> {PARAM_TYPE_BIN, PARAM_TYPE_CONST_BIN} \<Longrightarrow> \<exists>mn mx. u q = Description mn mx \<and> 0 \<le> mx"
  shows "map_option obs (exec_req app (BGCP_FUNC_R, p, []) s) =
    Some (param_list s, queue_response p (take (resp_size q) bs) (rq s), mem s)"
  using assms by (rule exec_read)

lemma read_answers_witness:
  "map_option obs (exec_req sample_app (BGCP_FUNC_R, 149, []) sample) =
    Some (sample_params, queue_response 149 [1, 2, 3, 4] sample_queue, sample_mem)"
proof -
  let ?q = "num_record PARAM_TYPE_BIN (Some 5) 0 4 149"
  have "map_option obs (exec_req sample_app (BGCP_FUNC_R, 149, []) sample) =
      Some (param_list sample, queue_response 149 (take (resp_size ?q) [1, 2, 3, 4]) (rq sample), mem sample)"
    by (rule read_answers [where q = ?q and a = 5]) (simp_all add: sample_params_def resp_size_def)
  then show ?thesis by (simp add: resp_size_def)
qed

text \<open>A request for a number that is not in the table stores nothing; a reading one is
  answered with \<open>BGCP_CMD_NOT_SUP\<close> and the number, a writing one with nothing.\<close>

lemma unknown_parameter:
  assumes "get_param p (param_list s) = None" "queue_inv (rq s)"
  shows "map_option obs (exec_req app (f, p, bs) s) =
    Some (param_list s,
      if is_read_func f then push_pieces BGCP_FUNC_RESP p (no_sup_pieces p (rq s)) (rq s) else rq s,
      mem s)"
  using assms
  by (simp add: exec_req_def perform_core_def queue_push_no_sup_param_eq obs_def
      update_param_data_lifetime_def)

lemma unknown_parameter_witness:
  "map_option obs (exec_req sample_app (BGCP_FUNC_RW, 77, [3]) sample) =
    Some (sample_params, push_pieces BGCP_FUNC_RESP 77 (no_sup_pieces 77 sample_queue) sample_queue, sample_mem)"
  using unknown_parameter [of 77 sample sample_app BGCP_FUNC_RW "[3]"]
  by (simp add: sample_params_def get_param_None_iff zero_param_def)

text \<open>A write to a Boolean parameter sets it for 1 (\<open>ON\<close>), clears it for 0 (\<open>OFF\<close>), inverts it
  for 2 (\<open>SWITCH\<close>) and ignores every other value.\<close>

lemma write_bool:
  assumes "linked_param s PARAM_TYPE_1B p a w" "mem s a = Some [old]"
  shows "map_option obs (exec_req app (BGCP_FUNC_W, p, [v]) s) =
    Some (touch BGCP_FUNC_W p (param_list s), rq s,
      (mem s)(a \<mapsto> [if v = SWITCH then (if old = 0 then 1 else 0) else if v = ON \<or> v = OFF then v else old]))"
proof -
  obtain d where d: "get_descriptors_of_data_type PARAM_TYPE_1B = Some d" by simp
  show ?thesis
    using exec_write [OF assms(1) d _ _ call_write_bool [OF assms(1) d assms(2)]]
    by simp
qed

lemma write_bool_witness:
  "map_option obs (exec_req sample_app (BGCP_FUNC_W, 1, [2]) sample) =
    Some (touch BGCP_FUNC_W 1 sample_params, sample_queue, sample_mem(0 \<mapsto> [0]))"
  using write_bool [of sample 1 0 "Description 2 0" 1 sample_app 2]
  by (simp add: linked_param_def sample_params_def SWITCH_def)

text \<open>A write to a parameter with a list of valid values stores the value only when it is
  in the list.\<close>

lemma write_range:
  assumes "linked_param s PARAM_TYPE_8B_RANGE p a (Validator len (Some b))"
    "mem s a = Some [old]" "mem s b = Some vals" "unat len = length vals"
  shows "map_option obs (exec_req app (BGCP_FUNC_W, p, [v]) s) =
    Some (touch BGCP_FUNC_W p (param_list s), rq s, (mem s)(a \<mapsto> [if v \<in> set vals then v else old]))"
proof -
  obtain d where d: "get_descriptors_of_data_type PARAM_TYPE_8B_RANGE = Some d" by simp
  show ?thesis
    using exec_write [OF assms(1) d _ _ call_write_range [OF assms(1) d assms(2,3,4)]] by simp
qed

lemma write_range_witness:
  "map_option obs (exec_req sample_app (BGCP_FUNC_W, 7, [9]) sample) =
    Some (touch BGCP_FUNC_W 7 sample_params, sample_queue, sample_mem(3 \<mapsto> [9]))"
  using write_range [of sample 7 3 3 4 5 "[2, 5, 9]" sample_app 9]
  by (simp add: linked_param_def sample_params_def)

text \<open>A write to a binary parameter replaces the whole object, or nothing: data of another
  size than the object's is ignored.\<close>

lemma write_binary:
  assumes "linked_param s PARAM_TYPE_BIN p a (Description mn mx)" "mem s a = Some old"
    "int (length old) = mx" "bs \<noteq> []" "length bs < 256"
  shows "map_option obs (exec_req app (BGCP_FUNC_W, p, bs) s) =
    Some (touch BGCP_FUNC_W p (param_list s), rq s,
      (mem s)(a \<mapsto> (if length bs = length old then bs else old)))"
proof -
  obtain d where d: "get_descriptors_of_data_type PARAM_TYPE_BIN = Some d" by simp
  show ?thesis
    using exec_write [OF assms(1) d _ _ call_write_bin [OF assms(1) d assms(2,3) _ assms(4,5)]] by simp
qed

lemma write_binary_witness:
  "map_option obs (exec_req sample_app (BGCP_FUNC_W, 149, [9, 8, 7, 6]) sample) =
    Some (touch BGCP_FUNC_W 149 sample_params, sample_queue, sample_mem(5 \<mapsto> [9, 8, 7, 6]))"
  using write_binary [of sample 149 5 0 4 "[1, 2, 3, 4]" "[9, 8, 7, 6]" sample_app]
  by (simp add: linked_param_def sample_params_def)

section \<open>Whole packets\<close>

text \<open>A packet that starts with a read and contains no function command changes no object
  and no slot, whatever else it contains (parameters with handlers of the application, which
  may do anything, excepted): it can only queue responses.\<close>

lemma read_packet_changes_nothing:
  assumes "app_ok app" "bgcp_wf s" "unat sz \<le> length data"
    "\<forall>q \<in> set (param_list s). data_type q \<noteq> PARAM_TYPE_ACTION"
    "sz \<noteq> 0" "hd data = BGCP_FUNC_R" "BGCP_CMD_FUNC \<notin> set data"
  shows "\<exists>s'. parse app data sz s = Some s' \<and> mem s' = mem s \<and> param_list s' = param_list s"
proof -
  let ?s = "upd_parser (\<lambda>p. p\<lparr>packet := data, data_in := 0, data_in_end := unat sz, page := 0\<rparr>) s"
  obtain s' where s': "parse app data sz s = Some s'" using parse_safe [OF assms(1-3)] by blast
  have sz: "0 < unat sz" using assms(5) by (simp add: unat_gt_0)
  then obtain rest where data: "data = BGCP_FUNC_R # rest" using assms(3,6) by (cases data) auto
  have "at_bytes (parser ?s) (BGCP_FUNC_R # take (unat sz - 1) rest)"
    using assms(3) sz data by (simp add: at_bytes_def take_Cons')
  then have "set_new_func ?s = Some (True, upd_parser (\<lambda>d. d\<lparr>data_in := data_in d + 1,
      inc_val := func_inc BGCP_FUNC_R, func_num := BGCP_FUNC_R, seted_data_size := block BGCP_FUNC_R\<rparr>) ?s)"
    by (rule set_new_func_at) (simp add: is_valid_func_def)
  then obtain s1 where s1: "parse app data sz s = parse_loop app s1" "reading s s1"
    using assms(7) by (auto simp: parse_def Let_def reading_def reset_param_data_def)
  then have "reading s s'" using reading_loop [OF s1(2) assms(4)] s' by simp
  then show ?thesis using s' by (simp add: reading_def)
qed

definition sample_plain :: bgcp where
  "sample_plain = sample\<lparr>param_list := take 5 sample_params @ replicate 10 zero_param\<rparr>"

lemma read_packet_changes_nothing_witness:
  "\<exists>s'. parse sample_app [1, 1, 4, 0xFF, 1, 22, 2, 0xFD] 8 sample_plain = Some s' \<and>
    mem s' = mem sample_plain \<and> param_list s' = param_list sample_plain"
  by (rule read_packet_changes_nothing [OF sample_app_ok])
    (simp_all add: sample_plain_def sample_params_def bgcp_wf_def PARAM_NUM_def param_wf_def
      zero_param_def has_bytes_def bgcp_func_defs bgcp_cmd_defs)

text \<open>A packet whose first byte is not a function, and an empty one, is dropped: no object,
  slot or byte of the queue changes.  In particular the response to the packet before it stays
  queued.\<close>

lemma invalid_function_drops_packet:
  assumes "unat sz \<le> length data" "sz = 0 \<or> \<not> is_valid_func (hd data)"
  shows "\<exists>s'. parse app data sz s = Some s' \<and> obs s' = obs s"
proof (cases "sz = 0")
  case True
  then show ?thesis
    by (simp add: parse_def set_new_func_def read_byte_def Let_def is_valid_func_def bgcp_func_defs
        set_default_block_size_eq obs_def)
next
  case False
  then have "0 < unat sz" by (simp add: unat_gt_0)
  then obtain b rest where "data = b # rest" "0 < unat sz" using assms(1) by (cases data) auto
  with False assms show ?thesis
    by (simp add: parse_def set_new_func_def read_byte_def Let_def set_default_block_size_eq obs_def)
qed

lemma invalid_function_drops_packet_witness:
  "\<exists>s'. parse sample_app [9, 1, 4] 3 (sample\<lparr>rq := nearly_full\<rparr>) = Some s' \<and>
    obs s' = obs (sample\<lparr>rq := nearly_full\<rparr>)"
  by (rule invalid_function_drops_packet) (simp_all add: is_valid_func_def bgcp_func_defs)

end
