(* ===== verification/Bgcp_Table_Map.thy ===== *)
theory Bgcp_Table_Map
  imports Bgcp_Param
begin

text \<open>
  What the table of 15 parameters promises its users: a map from numbers to records of at most 15
  entries.  The binding functions of \<open>components/bgcp/bgcp_data_descriptor.c\<close> and the search of
  \<open>bgcp_param_table.c\<close> refine it.
\<close>

definition table_map :: "Param list \<Rightarrow> u16 \<rightharpoonup> Param" where
  "table_map ps = (\<lambda>n. if n = NO_PARAM then None else lookup n ps)"

text \<open>The specification: a number that is in the map, or for which there is room, is bound.\<close>

definition map_bind :: "binding \<Rightarrow> u16 \<Rightarrow> (u16 \<rightharpoonup> Param) \<Rightarrow> bool \<times> (u16 \<rightharpoonup> Param)" where
  "map_bind d n M =
     (if n \<in> dom M \<or> card (dom M) < PARAM_NUM then (True, M(n \<mapsto> bound_record d n)) else (False, M))"

fun run_binds :: "(binding \<times> u16) list \<Rightarrow> Param list \<Rightarrow> bool list \<times> Param list" where
  "run_binds [] ps = ([], ps)"
| "run_binds ((d, n) # xs) ps =
     (case do_bind d n ps of (r, ps) \<Rightarrow> (case run_binds xs ps of (rs, ps) \<Rightarrow> (r # rs, ps)))"

fun run_map :: "(binding \<times> u16) list \<Rightarrow> (u16 \<rightharpoonup> Param) \<Rightarrow> bool list \<times> (u16 \<rightharpoonup> Param)" where
  "run_map [] M = ([], M)"
| "run_map ((d, n) # xs) M =
     (case map_bind d n M of (r, M) \<Rightarrow> (case run_map xs M of (rs, M) \<Rightarrow> (r # rs, M)))"

text \<open>The free slots are those the map leaves.\<close>

definition table_ok :: "Param list \<Rightarrow> bool" where
  "table_ok ps \<longleftrightarrow> free_slots ps + card (dom (table_map ps)) = PARAM_NUM"

lemma finite_table_map: "finite (dom (table_map ps))"
proof (rule finite_subset)
  show "dom (table_map ps) \<subseteq> param_num ` set ps"
  proof
    fix n assume "n \<in> dom (table_map ps)"
    then have "get_param n ps \<noteq> None" by (auto simp: table_map_def lookup_def split: if_splits)
    then show "n \<in> param_num ` set ps" by (simp add: get_param_None_iff)
  qed
qed simp

lemma table_ok_init: "table_ok init_param_list" "table_map init_param_list = Map.empty"
proof -
  show "table_map init_param_list = Map.empty" by (rule ext) (simp add: table_map_def)
  then show "table_ok init_param_list" by (simp add: table_ok_def)
qed

lemma do_bind_refines:
  assumes "table_ok ps" "n \<noteq> NO_PARAM" "do_bind d n ps = (r, ps')"
  shows "map_bind d n (table_map ps) = (r, table_map ps') \<and> table_ok ps'"
proof -
  have look: "table_map ps n = lookup n ps" using assms(2) by (simp add: table_map_def)
  have r: "r \<longleftrightarrow> n \<in> dom (table_map ps) \<or> card (dom (table_map ps)) < PARAM_NUM"
    using tablep.bind_ok_iff [of d n ps] assms(1,3) look by (auto simp: table_ok_def)
  show ?thesis
  proof (cases r)
    case False
    then show ?thesis using r assms tablep.bind_fail [of d n ps] by (auto simp: map_bind_def)
  next
    case True
    then have ok: "fst (do_bind d n ps)" using assms(3) by simp
    have map: "table_map ps' = (table_map ps)(n \<mapsto> bound_record d n)"
      using tablep.bind_hit [OF ok] tablep.bind_other [of _ n d ps] assms(2,3)
      by (intro ext) (auto simp: table_map_def)
    have "table_ok ps'"
    proof (cases "n \<in> dom (table_map ps)")
      case True
      then have "dom (table_map ps') = dom (table_map ps)" by (auto simp: map)
      then show ?thesis using assms True tablep.bind_free [OF assms(2) ok] look by (auto simp: table_ok_def)
    next
      case False
      then have "card (dom (table_map ps')) = Suc (card (dom (table_map ps)))"
        using finite_table_map [of ps] by (simp add: map)
      moreover have "lookup n ps = None" using False look by auto
      moreover have "0 < free_slots ps"
        using ok tablep.bind_ok_iff [of d n ps] \<open>lookup n ps = None\<close> by simp
      ultimately show ?thesis using assms(1,3) tablep.bind_free [OF assms(2) ok] by (simp add: table_ok_def)
    qed
    then show ?thesis using map r True by (simp add: map_bind_def)
  qed
qed

lemma run_binds_refines:
  "table_ok ps \<Longrightarrow> NO_PARAM \<notin> snd ` set xs \<Longrightarrow> run_binds xs ps = (rs, ps') \<Longrightarrow>
     run_map xs (table_map ps) = (rs, table_map ps')"
proof (induction xs arbitrary: ps rs)
  case Nil
  then show ?case by simp
next
  case (Cons x xs)
  obtain d n where x: "x = (d, n)" by (cases x)
  obtain r ps1 where b: "do_bind d n ps = (r, ps1)" by (cases "do_bind d n ps")
  obtain rs1 where rs: "run_binds xs ps1 = (rs1, ps')" "rs = r # rs1"
    using Cons.prems(3) x b by (auto split: prod.splits)
  have "n \<noteq> NO_PARAM" using Cons.prems(2) x by auto
  from do_bind_refines [OF Cons.prems(1) this b] Cons.IH [of ps1, OF _ _ rs(1)] Cons.prems(2) x rs(2)
  show ?case by simp
qed

text \<open>C40: From the empty table, every sequence of bindings gives the results and, through
  \<open>table_map\<close>, the contents that the map of at most 15 entries gives, and a search of the table
  finds exactly what the map holds.\<close>

theorem param_table_refines_map:
  assumes "NO_PARAM \<notin> snd ` set xs" "run_binds xs init_param_list = (rs, ps)"
  shows "run_map xs Map.empty = (rs, table_map ps) \<and>
         (\<forall>n. n \<noteq> NO_PARAM \<longrightarrow> map_option ((!) ps) (get_param n ps) = table_map ps n)"
  using run_binds_refines [OF table_ok_init(1) assms, unfolded table_ok_init(2)]
  by (simp add: table_map_def lookup_def)

theorem param_table_refines_map_witness:
  "\<exists>rs ps. run_binds [(Bind_bool None, 4), (Bind_uint8 None 0 9, 5), (Bind_cmd None, 4)] init_param_list = (rs, ps) \<and>
     run_map [(Bind_bool None, 4), (Bind_uint8 None 0 9, 5), (Bind_cmd None, 4)] Map.empty = (rs, table_map ps)"
proof -
  obtain rs ps where r: "run_binds [(Bind_bool None, 4), (Bind_uint8 None 0 9, 5), (Bind_cmd None, 4)] init_param_list = (rs, ps)"
    by (metis surj_pair)
  have "NO_PARAM \<notin> snd ` set [(Bind_bool None, 4), (Bind_uint8 None 0 9, 5), (Bind_cmd None, 4)]"
    by (simp add: NO_PARAM_def)
  from param_table_refines_map [OF this r] r show ?thesis by blast
qed

end
