(* ===== verification/Bgcp_Codes.thy ===== *)
theory Bgcp_Codes
  imports Bgcp_Roundtrip
begin

text \<open>
  The numbers of the protocol, \<open>include/bgcp_protocol_const.h\<close>, and the tables of
  \<open>include/bgcp_debug.h\<close> and \<open>bgcp_debug.c\<close> that name them in debug output.  A parameter of
  the header is its name, its number and the constants defined below it for its values, in
  the order of the file; the debug tables are the macro lists after preprocessing.  One name
  of the header is spelled with the Cyrillic letter whose UTF-8 bytes are D0 A1.
\<close>

section \<open>The header\<close>

type_synonym protocol_param = "string \<times> nat \<times> (string \<times> nat) list"

definition protocol_kinds :: "(string \<times> nat) list" where
  "protocol_kinds =
    [(''BGCP_RS485'', 1), (''BGCP_ETH'', 2), (''BGCP_ETH_CLOUD'', 3), (''BGCP_P2P'', 4),
     (''BGCP_CMD_PAGE'', 255), (''BGCP_CMD_FUNC'', 252), (''BGCP_CMD_SIZE'', 254),
     (''BGCP_CMD_NOT_SUP'', 253), (''BGCP_FUNC_R'', 1), (''BGCP_FUNC_W'', 2),
     (''BGCP_FUNC_RW'', 3), (''BGCP_FUNC_INC_RW'', 4), (''BGCP_FUNC_DEC_RW'', 5),
     (''BGCP_FUNC_RESP'', 6)]"

definition protocol_params_1 :: "protocol_param list" where
  "protocol_params_1 =
    [(''P_EEPROM'', 224, []), (''P_POWER'', 1, [(''OFF'', 0), (''ON'', 1), (''SWITCH'', 2)]),
     (''P_SPEED_MODE'', 2, [(''MANUAL_SPEED'', 255)]), (''P_MaxSPEED_MODE'', 3, []),
     (''P_BPS_ROTOR_MODE'', 4, [(''AUTO_BPS_ROTOR'', 2)]),
     (''P_BPS_ROTOR_TYPE'', 5, [(''BPS_RELAY'', 1), (''BPS_ANALOG'', 2), (''ROTOR_RELAY'', 3), (''ROTOR_ANALOG'', 4), (''BPS_3_POINT'', 5)]),
     (''P_BOOST_MODE'', 6, []),
     (''P_TIMER'', 7, [(''Normal_Mode'', 0), (''Night_Mode'', 1), (''Party_Mode'', 2)]),
     (''P_TIMER_MODE'', 8, [(''STANDBY'', 0), (''TIMER1'', 1), (''TIMER2'', 2), (''TIMER3'', 3), (''TIMER4'', 4), (''TIMER5'', 5)]),
     (''P_SetTIMER_MINUTES'', 9, []), (''P_SetTIMER_HOURS'', 10, []),
     (''P_CurTIMER_TIME'', 11, []), (''P_SetTEMP_WinterSummer'', 12, []),
     (''P_SetTIMER_TEMP'', 13, []),
     (''P_OPERATION_MODE'', 14, [(''VENTILATION'', 0), (''HEATING'', 1), (''COOLING'', 2), (''AUTO'', 3)]),
     (''P_IntRH_CTRL'', 15, []), (''P_CurTEMP_Water'', 16, []), (''P_IntCO2_CTRL'', 17, []),
     (''P_IntPM2_5_CTRL'', 18, []), (''P_IntVOC_CTRL'', 19, []),
     (''P_BoostSWITCH_CTRL'', 20, []), (''P_FireALARM_CTRL'', 21, []),
     (''P_10V_SENSOR_CTRL'', 22, []), (''P_FplcSWITCH_CTRL'', 23, []), (''P_SetTEMP'', 24, []),
     (''P_SetRH'', 25, []), (''P_SetCO2'', 26, []), (''P_SetPM2_5'', 27, []),
     (''P_SetVOC'', 28, []),
     (''P_SelTEMP_SENSOR'', 29, [(''ExAirInTEMP'', 0), (''ExtTEMP'', 1), (''SuAirOutTEMP'', 2)]),
     (''P_CurSelTEMP'', 30, []), (''P_CurTEMP_SuAirIn'', 31, []),
     (''P_CurTEMP_SuAirOut'', 32, []), (''P_CurTEMP_ExAirIn'', 33, []),
     (''P_CurTEMP_ExAirOut'', 34, []), (''P_CurTEMP_Ext'', 35, []), (''P_CurVBAT'', 36, []),
     (''P_CurRH_Int'', 37, []), (''P_CurRH_Ext'', 38, []), (''P_CurCO2_Int'', 39, []),
     (''P_CurCO2_Ext'', 40, []), (''P_CurPM2_5_Int'', 41, []), (''P_CurPM2_5_Ext'', 42, []),
     (''P_CurVOC_Int'', 43, []), (''P_CurVOC_Ext'', 44, []), (''P_Cur10V_SENSOR'', 45, []),
     (''P_CurSuAirFLOW'', 46, [])]"

definition protocol_params_2 :: "protocol_param list" where
  "protocol_params_2 =
    [(''P_CurExAirFLOW'', 47, []), (''P_CurSuPRESS'', 48, []), (''P_CurExPRESS'', 49, []),
     (''P_CurBoostSWITCH'', 50, []), (''P_CurFireALARM'', 51, []), (''P_CurFplcSWITCH'', 52, []),
     (''P_VENTILATION_MODE'', 53, [(''PERCENT_MODE'', 0), (''CONSTANT_FLOW'', 1), (''CONSTANT_PRESSURE'', 2)]),
     (''P_MinSPEED'', 54, []), (''P_MaxSPEED'', 55, []), (''P_SuSPEED0'', 56, []),
     (''P_ExSPEED0'', 57, []), (''P_SuSPEED1'', 58, []), (''P_ExSPEED1'', 59, []),
     (''P_SuSPEED2'', 60, []), (''P_ExSPEED2'', 61, []), (''P_SuSPEED3'', 62, []),
     (''P_ExSPEED3'', 63, []), (''P_SuSPEED4'', 64, []), (''P_ExSPEED4'', 65, []),
     (''P_SuSPEED5'', 66, []), (''P_ExSPEED5'', 67, []), (''P_ManualSPEED'', 68, []),
     (''P_BlowingSPEED'', 69, []), (''P_BOOST_SuSPEED'', 70, []), (''P_BOOST_ExSPEED'', 71, []),
     (''P_FPLC_SuSPEED'', 72, []), (''P_FPLC_ExSPEED'', 73, []), (''P_SuRPM'', 74, []),
     (''P_ExRPM'', 75, []), (''P_MinAirFLOW'', 76, []), (''P_MaxAirFLOW'', 77, []),
     (''P_SuSPEED0_FLOW'', 78, []), (''P_ExSPEED0_FLOW'', 79, []), (''P_SuSPEED1_FLOW'', 80, []),
     (''P_ExSPEED1_FLOW'', 81, []), (''P_SuSPEED2_FLOW'', 82, []), (''P_ExSPEED2_FLOW'', 83, []),
     (''P_SuSPEED3_FLOW'', 84, []), (''P_ExSPEED3_FLOW'', 85, []), (''P_SuSPEED4_FLOW'', 86, []),
     (''P_ExSPEED4_FLOW'', 87, []), (''P_SuSPEED5_FLOW'', 88, []), (''P_ExSPEED5_FLOW'', 89, []),
     (''P_MinAirPRESS'', 90, []), (''P_MaxAirPRESS'', 91, []), (''P_SuSPEED0_PRESS'', 92, []),
     (''P_ExSPEED0_PRESS'', 93, []), (''P_SuSPEED1_PRESS'', 94, []),
     (''P_ExSPEED1_PRESS'', 95, []),
     (''P_MainHEATER_TYPE'', 96, [(''HEATER_ELECT'', 1), (''HEATER_WATER'', 2)]),
     (''P_COOLER_TYPE'', 97, [(''COOLER_RELAY'', 1), (''COOLER_ANALOG'', 2)]),
     (''P_DEF_MODE'', 98, [(''PREHEATING_DEF'', 1), (''BPS_ROTOR_DEF'', 2), (''OFF_SuFLOW_DEF'', 3), (''RECIR_DEF'', 4)]),
     (''P_SetFILTER_TIMER'', 99, []), (''P_CurFILTER_TIMER'', 100, []),
     (''C_RESET_FILTER_TIMER'', 101, [])]"

definition protocol_params_3 :: "protocol_param list" where
  "protocol_params_3 =
    [(''P_BoostDelaySwitchingOff'', 102, []), (''P_BoostDelaySwitchingOn'', 103, []),
     (''P_RTC_SECONDS'', 104, []), (''P_RTC_MINUTES'', 105, []), (''P_RTC_HOURS'', 106, []),
     (''P_RTC_DATE'', 107, []), (''P_RTC_WeekDay'', 108, []), (''P_RTC_MONTH'', 109, []),
     (''P_RTC_YEAR'', 110, []), (''P_RTC_TIME'', 111, []), (''P_RTC_CALENDAR'', 112, []),
     (''P_FPLC_MODE'', 113, []), (''P_WEEK'', 114, []), (''P_SetWEEK_SPEED'', 115, []),
     (''P_SetWEEK_TEMP'', 116, []), (''P_SetWEEK_EndPERIOD'', 118, []),
     (''P_SetWEEK_ALL'', 119, []), (''P_ExtRH_CTRL'', 120, []), (''P_ExtCO2_CTRL'', 121, []),
     (''P_ExtPM2_5_CTRL'', 122, []), (''P_ExtVOC_CTRL'', 123, []),
     (''P_SearchDeviceID'', 124, []), (''P_DevicePWD'', 125, []),
     (''P_TotalWorkingTime'', 126, []), (''P_CurALARMS'', 127, []), (''C_RESET_ALARM'', 128, []),
     (''P_StatusHEATER'', 129, []), (''P_StatusCOOLER'', 130, []),
     (''P_ALARM'', 131, [(''Alarm'', 1), (''Warning'', 2)]), (''P_StatusAirQUALITY'', 132, []),
     (''P_CLOUD_CTRL'', 133, []), (''P_VerMAIN_FMW'', 134, []), (''C_RESTORE_FACTORY'', 135, []),
     (''P_StateFILTER'', 136, []), (''P_ETHR_AVAIL'', 137, []), (''P_ETHR_DHCP'', 138, []),
     (''P_SetETHR_IP'', 139, []), (''P_ETHR_SubnetMASK'', 140, []),
     (''P_ETHR_GATEWAY'', 141, []), (''P_ETHR_DNS'', 142, []), (''P_ETHR_MAC'', 143, []),
     (''C_APPLY_ETHR_PARAM'', 144, []), (''P_ETHR_CONN'', 145, []), (''P_CurETHR_IP'', 146, []),
     (''P_WIFI_AVAIL'', 147, []), (''P_WIFI_MODE'', 148, []), (''P_WIFI_SSID'', 149, []),
     (''P_WIFI_PWD'', 150, []), (''P_WIFI_PWD_FirstHALF'', 151, []),
     (''P_WIFI_PWD_SecondHALF'', 152, []), (''P_WIFI_SECURITY'', 153, []),
     (''P_WIFI_CHANNEL'', 154, []), (''P_WIFI_DHCP'', 155, []), (''P_SetWIFI_IP'', 156, []),
     (''P_WIFI_SubnetMASK'', 157, []), (''P_WIFI_GATEWAY'', 158, []), (''P_WIFI_DNS'', 159, []),
     (CHR 0xD0 # CHR 0xA1 # ''_APPLY_WIFI_PARAM'', 160, []), (''P_WIFI_CONN'', 161, [])]"

definition protocol_params_4 :: "protocol_param list" where
  "protocol_params_4 =
    [(''C_OUT_WIFI_SetupMODE'', 162, []), (''P_CurWIFI_IP'', 163, []),
     (''P_rs485_BAUD'', 164, [(''BAUD9600'', 0), (''BAUD14400'', 1), (''BAUD19200'', 2), (''BAUD38400'', 3), (''BAUD57600'', 4), (''BAUD115200'', 5)]),
     (''P_rs485_ADDR'', 165, []), (''P_rs485_StopBITS'', 166, []), (''P_rs485_PARITY'', 167, []),
     (''P_MaxCO2_Int'', 178, []), (''P_MaxPM2_5_Int'', 179, []), (''P_CLOUD_HOST'', 180, []),
     (''P_CLOUD_PORT'', 181, []), (''P_StatusFanBLOWING'', 182, []),
     (''P_DIRECTION_MODE'', 183, []), (''P_DeviceTYPE'', 185, []),
     (''P_CurPreHeaterThermostat'', 186, []), (''P_CurMainHeaterThermostat'', 187, []),
     (''P_MinSuAirOutTEMP_CTRL'', 188, []), (''P_SetMinSuAirOutTEMP'', 189, []),
     (''P_RH_Kp'', 190, []), (''P_RH_Ki'', 191, []), (''P_RH_Kd'', 192, []),
     (''P_RH_U'', 193, []), (''P_CO2_Kp'', 194, []), (''P_CO2_Ki'', 195, []),
     (''P_CO2_Kd'', 196, []), (''P_CO2_U'', 197, []), (''P_PM2_5_Kp'', 198, []),
     (''P_PM2_5_Ki'', 199, []), (''P_PM2_5_Kd'', 200, []), (''P_PM2_5_U'', 201, []),
     (''P_VOC_Kp'', 202, []), (''P_VOC_Ki'', 203, []), (''P_VOC_Kd'', 204, []),
     (''P_VOC_U'', 205, []), (''P_PreHeater_Kp'', 206, []), (''P_PreHeater_Ki'', 207, []),
     (''P_PreHeater_Kd'', 208, []), (''P_PreHeater_U'', 209, []), (''P_MainHeater_Kp'', 210, []),
     (''P_MainHeater_Ki'', 211, []), (''P_MainHeater_Kd'', 212, []),
     (''P_MainHeater_U'', 213, []), (''P_CurWaterPRESS'', 214, []),
     (''P_CurWaterFLOW'', 215, []), (''P_CurSuFilterPRESS'', 216, []),
     (''P_CurExFilterPRESS'', 217, []), (''P_WaterPRESS_CTRL'', 218, []),
     (''P_WaterFLOW_CTRL'', 219, []), (''P_CurSuFanPRESS'', 220, []),
     (''P_CurExFanPRESS'', 221, []), (''P_FanAlarmCTRL'', 222, []),
     (''P_SetTimeDetectFanALARM'', 223, []), (''P_SetTimeOpenVALVE'', 225, []),
     (''P_SetTimeFanBLOWING'', 226, []), (''P_BPS_ROTOR_Kp'', 227, []),
     (''P_BPS_ROTOR_Ki'', 228, []), (''P_BPS_ROTOR_Kd'', 229, []), (''P_BPS_ROTOR_U'', 230, []),
     (''P_KKB_Kp'', 231, []), (''P_KKB_Ki'', 232, []), (''P_KKB_Kd'', 233, []),
     (''P_KKB_U'', 234, []), (''P_SetMainHeaterMANUAL'', 235, [])]"

definition protocol_params_5 :: "protocol_param list" where
  "protocol_params_5 =
    [(''P_SetCoolerMANUAL'', 236, []), (''P_SetBpsRotorMANUAL'', 237, []),
     (''P_MainHeaterMODE'', 238, [(''AUTO_MainHEATER'', 2)]),
     (''P_CoolerMODE'', 239, [(''AUTO_COOLER'', 2)]), (''P_ENGINEER_PWD'', 241, []),
     (''P_StatusSetupMODE'', 242, []), (''P_MAIN_UpdFMW'', 257, []), (''C_SetFACTORY'', 258, []),
     (''P_KKB_MinTimeOFF'', 259, []), (''P_KKB_MinTimeON'', 260, []),
     (''P_KKB_HYSTERESIS'', 261, []), (''P_CorrTEMP_SuAirIn'', 262, []),
     (''P_CorrTEMP_SuAirOut'', 263, []), (''P_CorrTEMP_ExAirIn'', 264, []),
     (''P_CorrTEMP_ExAirOut'', 265, []), (''P_CorrTEMP_Water'', 266, []),
     (''P_CorrTEMP_Ext'', 267, []),
     (''P_BPS_Position'', 270, [(''BPS_SupplyDuct'', 0), (''BPS_ExtractDuct'', 1)]),
     (''P_WaterPreheatingStatus'', 276, []), (''P_WaterMinStartTemp'', 277, []),
     (''P_WaterMaxStartTemp'', 278, []), (''P_WaterMinAlarmTemp'', 279, []),
     (''P_WaterMaxAlarmTemp'', 280, []), (''P_WaterMaxStartTime'', 281, []),
     (''P_WaterValveMinPos'', 282, []), (''P_WaterHeaterAutoRestart'', 283, []),
     (''P_AlarmsHistory'', 284, []), (''C_ResetAlarmsHistory'', 285, []),
     (''P_TestMode'', 812, [(''KEY_TEST_MODE'', 1711929600)])]"

definition protocol_params :: "protocol_param list" where
  "protocol_params = protocol_params_1 @ protocol_params_2 @ protocol_params_3 @ protocol_params_4 @ protocol_params_5"

lemmas protocol_params_defs = protocol_params_1_def protocol_params_2_def protocol_params_3_def protocol_params_4_def protocol_params_5_def

section \<open>The debug tables\<close>

definition param_log_1 :: "(nat \<times> string) list" where
  "param_log_1 =
    [(1, ''P_POWER''), (2, ''P_SPEED_MODE''), (3, ''P_MaxSPEED_MODE''),
     (4, ''P_BPS_ROTOR_MODE''), (5, ''P_BPS_ROTOR_TYPE''), (6, ''P_BOOST_MODE''),
     (7, ''P_TIMER''), (8, ''P_TIMER_MODE''), (9, ''P_SetTIMER_MINUTES''),
     (10, ''P_SetTIMER_HOURS''), (11, ''P_CurTIMER_TIME''), (12, ''P_SetTEMP_WinterSummer''),
     (13, ''P_SetTIMER_TEMP''), (14, ''P_OPERATION_MODE''), (15, ''P_IntRH_CTRL''),
     (16, ''P_CurTEMP_Water''), (17, ''P_IntCO2_CTRL''), (18, ''P_IntPM2_5_CTRL''),
     (19, ''P_IntVOC_CTRL''), (20, ''P_BoostSWITCH_CTRL''), (21, ''P_FireALARM_CTRL''),
     (22, ''P_10V_SENSOR_CTRL''), (23, ''P_FplcSWITCH_CTRL''), (24, ''P_SetTEMP''),
     (25, ''P_SetRH''), (26, ''P_SetCO2''), (27, ''P_SetPM2_5''), (28, ''P_SetVOC''),
     (29, ''P_SelTEMP_SENSOR''), (30, ''P_CurSelTEMP''), (31, ''P_CurTEMP_SuAirIn''),
     (32, ''P_CurTEMP_SuAirOut''), (33, ''P_CurTEMP_ExAirIn''), (34, ''P_CurTEMP_ExAirOut''),
     (35, ''P_CurTEMP_Ext''), (36, ''P_CurVBAT''), (37, ''P_CurRH_Int''), (38, ''P_CurRH_Ext''),
     (39, ''P_CurCO2_Int''), (40, ''P_CurCO2_Ext''), (41, ''P_CurPM2_5_Int''),
     (42, ''P_CurPM2_5_Ext''), (43, ''P_CurVOC_Int''), (44, ''P_CurVOC_Ext''),
     (45, ''P_Cur10V_SENSOR''), (46, ''P_CurSuAirFLOW'')]"

definition param_log_2 :: "(nat \<times> string) list" where
  "param_log_2 =
    [(47, ''P_CurExAirFLOW''), (48, ''P_CurSuPRESS''), (49, ''P_CurExPRESS''),
     (50, ''P_CurBoostSWITCH''), (51, ''P_CurFireALARM''), (52, ''P_CurFplcSWITCH''),
     (53, ''P_VENTILATION_MODE''), (54, ''P_MinSPEED''), (55, ''P_MaxSPEED''),
     (56, ''P_SuSPEED0''), (57, ''P_ExSPEED0''), (58, ''P_SuSPEED1''), (59, ''P_ExSPEED1''),
     (60, ''P_SuSPEED2''), (61, ''P_ExSPEED2''), (62, ''P_SuSPEED3''), (63, ''P_ExSPEED3''),
     (64, ''P_SuSPEED4''), (65, ''P_ExSPEED4''), (66, ''P_SuSPEED5''), (67, ''P_ExSPEED5''),
     (68, ''P_ManualSPEED''), (69, ''P_BlowingSPEED''), (70, ''P_BOOST_SuSPEED''),
     (71, ''P_BOOST_ExSPEED''), (72, ''P_FPLC_SuSPEED''), (73, ''P_FPLC_ExSPEED''),
     (74, ''P_SuRPM''), (75, ''P_ExRPM''), (76, ''P_MinAirFLOW''), (77, ''P_MaxAirFLOW''),
     (78, ''P_SuSPEED0_FLOW''), (79, ''P_ExSPEED0_FLOW''), (80, ''P_SuSPEED1_FLOW''),
     (81, ''P_ExSPEED1_FLOW''), (82, ''P_SuSPEED2_FLOW''), (83, ''P_ExSPEED2_FLOW''),
     (84, ''P_SuSPEED3_FLOW''), (85, ''P_ExSPEED3_FLOW''), (86, ''P_SuSPEED4_FLOW''),
     (87, ''P_ExSPEED4_FLOW''), (88, ''P_SuSPEED5_FLOW''), (89, ''P_ExSPEED5_FLOW''),
     (90, ''P_MinAirPRESS''), (91, ''P_MaxAirPRESS''), (92, ''P_SuSPEED0_PRESS''),
     (93, ''P_ExSPEED0_PRESS''), (94, ''P_SuSPEED1_PRESS''), (95, ''P_ExSPEED1_PRESS''),
     (96, ''P_MainHEATER_TYPE''), (97, ''P_COOLER_TYPE''), (98, ''P_DEF_MODE''),
     (99, ''P_SetFILTER_TIMER''), (100, ''P_CurFILTER_TIMER''), (101, ''C_RESET_FILTER_TIMER'')]"

definition param_log_3 :: "(nat \<times> string) list" where
  "param_log_3 =
    [(102, ''P_BoostDelaySwitchingOff''), (103, ''P_BoostDelaySwitchingOn''),
     (111, ''P_RTC_TIME''), (112, ''P_RTC_CALENDAR''), (113, ''P_FPLC_MODE''), (114, ''P_WEEK''),
     (119, ''P_SetWEEK_ALL''), (120, ''P_ExtRH_CTRL''), (121, ''P_ExtCO2_CTRL''),
     (122, ''P_ExtPM2_5_CTRL''), (123, ''P_ExtVOC_CTRL''), (124, ''P_SearchDeviceID''),
     (125, ''P_DevicePWD''), (126, ''P_TotalWorkingTime''), (127, ''P_CurALARMS''),
     (128, ''C_RESET_ALARM''), (129, ''P_StatusHEATER''), (130, ''P_StatusCOOLER''),
     (131, ''P_ALARM''), (132, ''P_StatusAirQUALITY''), (133, ''P_CLOUD_CTRL''),
     (134, ''P_VerMAIN_FMW''), (135, ''C_RESTORE_FACTORY''), (136, ''P_StateFILTER''),
     (137, ''P_ETHR_AVAIL''), (138, ''P_ETHR_DHCP''), (139, ''P_SetETHR_IP''),
     (140, ''P_ETHR_SubnetMASK''), (141, ''P_ETHR_GATEWAY''), (142, ''P_ETHR_DNS''),
     (143, ''P_ETHR_MAC''), (144, ''C_APPLY_ETHR_PARAM''), (145, ''P_ETHR_CONN''),
     (146, ''P_CurETHR_IP''), (147, ''P_WIFI_AVAIL''), (148, ''P_WIFI_MODE''),
     (149, ''P_WIFI_SSID''), (150, ''P_WIFI_PWD''), (151, ''P_WIFI_PWD_FirstHALF''),
     (152, ''P_WIFI_PWD_SecondHALF''), (153, ''P_WIFI_SECURITY''), (154, ''P_WIFI_CHANNEL''),
     (155, ''P_WIFI_DHCP''), (156, ''P_SetWIFI_IP''), (157, ''P_WIFI_SubnetMASK''),
     (158, ''P_WIFI_GATEWAY''), (159, ''P_WIFI_DNS''),
     (160, CHR 0xD0 # CHR 0xA1 # ''_APPLY_WIFI_PARAM''), (161, ''P_WIFI_CONN'')]"

definition param_log_4 :: "(nat \<times> string) list" where
  "param_log_4 =
    [(162, ''C_OUT_WIFI_SetupMODE''), (163, ''P_CurWIFI_IP''), (178, ''P_MaxCO2_Int''),
     (179, ''P_MaxPM2_5_Int''), (180, ''P_CLOUD_HOST''), (181, ''P_CLOUD_PORT''),
     (182, ''P_StatusFanBLOWING''), (183, ''P_DIRECTION_MODE''), (185, ''P_DeviceTYPE''),
     (186, ''P_CurPreHeaterThermostat''), (187, ''P_CurMainHeaterThermostat''),
     (188, ''P_MinSuAirOutTEMP_CTRL''), (189, ''P_SetMinSuAirOutTEMP''), (190, ''P_RH_Kp''),
     (191, ''P_RH_Ki''), (192, ''P_RH_Kd''), (193, ''P_RH_U''), (194, ''P_CO2_Kp''),
     (195, ''P_CO2_Ki''), (196, ''P_CO2_Kd''), (197, ''P_CO2_U''), (198, ''P_PM2_5_Kp''),
     (199, ''P_PM2_5_Ki''), (200, ''P_PM2_5_Kd''), (201, ''P_PM2_5_U''), (202, ''P_VOC_Kp''),
     (203, ''P_VOC_Ki''), (204, ''P_VOC_Kd''), (205, ''P_VOC_U''), (206, ''P_PreHeater_Kp''),
     (207, ''P_PreHeater_Ki''), (208, ''P_PreHeater_Kd''), (209, ''P_PreHeater_U''),
     (210, ''P_MainHeater_Kp''), (211, ''P_MainHeater_Ki''), (212, ''P_MainHeater_Kd''),
     (213, ''P_MainHeater_U''), (214, ''P_CurWaterPRESS''), (215, ''P_CurWaterFLOW''),
     (216, ''P_CurSuFilterPRESS''), (217, ''P_CurExFilterPRESS''), (218, ''P_WaterPRESS_CTRL''),
     (219, ''P_WaterFLOW_CTRL''), (220, ''P_CurSuFanPRESS''), (221, ''P_CurExFanPRESS''),
     (222, ''P_FanAlarmCTRL''), (223, ''P_SetTimeDetectFanALARM''),
     (225, ''P_SetTimeOpenVALVE''), (226, ''P_SetTimeFanBLOWING''), (227, ''P_BPS_ROTOR_Kp''),
     (228, ''P_BPS_ROTOR_Ki''), (229, ''P_BPS_ROTOR_Kd''), (230, ''P_BPS_ROTOR_U''),
     (231, ''P_KKB_Kp''), (232, ''P_KKB_Ki''), (233, ''P_KKB_Kd''), (234, ''P_KKB_U''),
     (235, ''P_SetMainHeaterMANUAL'')]"

definition param_log_5 :: "(nat \<times> string) list" where
  "param_log_5 =
    [(236, ''P_SetCoolerMANUAL''), (237, ''P_SetBpsRotorMANUAL''), (238, ''P_MainHeaterMODE''),
     (239, ''P_CoolerMODE''), (241, ''P_ENGINEER_PWD''), (242, ''P_StatusSetupMODE''),
     (257, ''P_MAIN_UpdFMW''), (258, ''C_SetFACTORY''), (259, ''P_KKB_MinTimeOFF''),
     (260, ''P_KKB_MinTimeON''), (261, ''P_KKB_HYSTERESIS''), (262, ''P_CorrTEMP_SuAirIn''),
     (263, ''P_CorrTEMP_SuAirOut''), (264, ''P_CorrTEMP_ExAirIn''),
     (265, ''P_CorrTEMP_ExAirOut''), (266, ''P_CorrTEMP_Water''), (267, ''P_CorrTEMP_Ext''),
     (276, ''P_WaterPreheatingStatus''), (277, ''P_WaterMinStartTemp''),
     (278, ''P_WaterMaxStartTemp''), (279, ''P_WaterMinAlarmTemp''),
     (280, ''P_WaterMaxAlarmTemp''), (281, ''P_WaterMaxStartTime''),
     (282, ''P_WaterValveMinPos''), (283, ''P_WaterHeaterAutoRestart''),
     (284, ''P_AlarmsHistory''), (285, ''C_ResetAlarmsHistory'')]"

definition param_log_list :: "(nat \<times> string) list" where
  "param_log_list = param_log_1 @ param_log_2 @ param_log_3 @ param_log_4 @ param_log_5"

lemmas param_log_defs = param_log_1_def param_log_2_def param_log_3_def param_log_4_def param_log_5_def

definition func_log_list :: "(nat \<times> string) list" where
  "func_log_list =
    [(1, ''BGCP_FUNC_R''), (2, ''BGCP_FUNC_W''), (3, ''BGCP_FUNC_RW''),
     (4, ''BGCP_FUNC_INC_RW''), (5, ''BGCP_FUNC_DEC_RW''), (6, ''BGCP_FUNC_RESP'')]"

definition cmd_log_list :: "(nat \<times> string) list" where
  "cmd_log_list =
    [(252, ''BGCP_CMD_FUNC''), (254, ''BGCP_CMD_SIZE''), (255, ''BGCP_CMD_PAGE''),
     (253, ''BGCP_CMD_NOT_SUP'')]"

definition err_message :: "string list" where
  "err_message =
    [''BGCP_OK'', ''BGCP_ERR_DATA_SIZE'', ''BGCP_ERR_DATA_FORMAT_ERR'', ''BGCP_ERR_NO_FUNC_ERR'',
     ''BGCP_ERR_NO_PARAM'', ''BGCP_ERR_READ'', ''BGCP_ERR_NO_DATA'', ''BGCP_ERR_WRITE'',
     ''BGCP_ERR_NO_FUNC_SETTED'', ''BGCP_ERR_SET_PARAM'', ''BGCP_ERR_UNEXPECTED_DATA_END'']"

definition BGCP_ERR_MAX :: nat where "BGCP_ERR_MAX = 11"

text \<open>\<open>get_desc\<close>: the null pointer is \<open>None\<close>.\<close>

fun get_desc :: "nat \<Rightarrow> (nat \<times> string) list \<Rightarrow> string option" where
  "get_desc code [] = None"
| "get_desc code ((c, desc) # data) = (if c = code then Some desc else get_desc code data)"

definition get_param_desc :: "nat \<Rightarrow> string option" where
  "get_param_desc code = get_desc code param_log_list"

definition get_func_desc :: "nat \<Rightarrow> string option" where
  "get_func_desc code = get_desc code func_log_list"

definition get_cmd_desc :: "nat \<Rightarrow> string option" where
  "get_cmd_desc code = get_desc code cmd_log_list"

definition get_err_desc :: "nat \<Rightarrow> string" where
  "get_err_desc status = (if status < BGCP_ERR_MAX then err_message ! status else [])"

section \<open>Lookups\<close>

text \<open>Numbers in ascending order, checked pair by pair.\<close>

fun ascending :: "nat list \<Rightarrow> bool" where
  "ascending (a # b # xs) \<longleftrightarrow> a < b \<and> ascending (b # xs)"
| "ascending _ \<longleftrightarrow> True"

lemma ascending_sorted: "ascending xs \<Longrightarrow> sorted_wrt (<) xs"
proof (induction xs rule: ascending.induct)
  case (1 a b xs)
  then have "sorted_wrt (<) (b # xs)" "a < b" by simp_all
  then show ?case by auto
qed simp_all

lemma get_desc_map_of: "get_desc code data = map_of data code"
  by (induction data) auto

lemma get_desc_ascending:
  assumes "ascending (map fst data)"
  shows "get_desc code data = Some desc \<longleftrightarrow> (code, desc) \<in> set data"
proof -
  have "distinct (map fst data)" using ascending_sorted [OF assms] by (simp add: strict_sorted_iff)
  then show ?thesis by (simp add: get_desc_map_of)
qed

lemma param_log_ascending: "ascending (map fst param_log_list)"
  by (simp add: param_log_list_def param_log_defs)

definition unlogged_params :: "nat list" where
  "unlogged_params = [224, 104, 105, 106, 107, 108, 109, 110, 115, 116, 118, 164, 165, 166, 167, 270, 812]"

text \<open>What the debug table keeps of the header.\<close>

definition logged :: "protocol_param list \<Rightarrow> (nat \<times> string) list" where
  "logged ps = map (\<lambda>(n, c, vs). (c, n)) (filter (\<lambda>(n, c, vs). c \<notin> set unlogged_params) ps)"

lemma logged_append [simp]: "logged (ps @ qs) = logged ps @ logged qs"
  by (simp add: logged_def)

lemma logged_1: "logged protocol_params_1 = param_log_1"
  by (simp add: logged_def unlogged_params_def protocol_params_1_def param_log_1_def)

lemma logged_2: "logged protocol_params_2 = param_log_2"
  by (simp add: logged_def unlogged_params_def protocol_params_2_def param_log_2_def)

lemma logged_3: "logged protocol_params_3 = param_log_3"
  by (simp add: logged_def unlogged_params_def protocol_params_3_def param_log_3_def)

lemma logged_4: "logged protocol_params_4 = param_log_4"
  by (simp add: logged_def unlogged_params_def protocol_params_4_def param_log_4_def)

lemma logged_5: "logged protocol_params_5 = param_log_5"
  by (simp add: logged_def unlogged_params_def protocol_params_5_def param_log_5_def)

lemma param_log_is_header: "param_log_list = logged protocol_params"
  by (simp add: protocol_params_def param_log_list_def logged_1 logged_2 logged_3 logged_4 logged_5)

lemma not_command_byte:
  assumes "c mod 256 < 252"
  shows "\<not> is_command_byte (lo8 (of_nat c))"
proof -
  have low: "unat (lo8 (of_nat c)) = c mod 256"
    by (simp add: lo8_def unsigned_ucast_eq unat_of_nat take_bit_eq_mod mod_mod_cancel)
  show ?thesis
  proof
    assume "is_command_byte (lo8 (of_nat c))"
    then have "252 \<le> unat (lo8 (of_nat c))" by (auto simp: is_command_byte_def bgcp_cmd_defs)
    with assms low show False by simp
  qed
qed

lemma params_small: "list_all (\<lambda>(n, c, vs). c < 2 ^ 16 \<and> c mod 256 < 252) protocol_params"
  unfolding protocol_params_def list_all_append by (simp add: protocol_params_defs)

lemma params_encodable:
  "list_all (\<lambda>(n, c, vs). c < 2 ^ 16 \<and> \<not> is_command_byte (lo8 (of_nat c))) protocol_params"
  by (rule list.pred_mono_strong [OF params_small]) (use not_command_byte in auto)

section \<open>Properties\<close>

text \<open>Every number of the protocol header fits 16 bits and has a low byte that is no command,
  so a request for any parameter of the protocol can be written and is read as that
  parameter.\<close>

lemma protocol_numbers_encodable:
  "list_all (\<lambda>(n, c, vs). c < 2 ^ 16 \<and> \<not> is_command_byte (lo8 (of_nat c))) protocol_params"
  by (rule params_encodable)

text \<open>The debug table names the header's parameters, the seventeen it leaves out excepted:
  a number has the description the header gives it and no other.\<close>

lemma param_desc_is_header:
  "get_param_desc c = Some n \<longleftrightarrow> (c, n) \<in> set (logged protocol_params)"
  using get_desc_ascending [OF param_log_ascending] param_log_is_header
  by (simp add: get_param_desc_def)

text \<open>An error status has a message exactly when it is one of the eleven statuses.\<close>

lemma err_desc_defined: "get_err_desc st \<noteq> [] \<longleftrightarrow> st < BGCP_ERR_MAX"
proof -
  have len: "length err_message = 11" and ne: "[] \<notin> set err_message"
    by (simp_all add: err_message_def)
  have "err_message ! st \<noteq> []" if "st < 11" using nth_mem [of st err_message] that len ne by metis
  then show ?thesis by (auto simp: get_err_desc_def BGCP_ERR_MAX_def)
qed

end
