(* ===== verification/Bgcp_Net.thy ===== *)
theory Bgcp_Net
  imports Prelude
begin

text \<open>
  The frame check of BGCP messages on a network, \<open>components/bgcp_net/bgcp_tools.c\<close>: two bytes
  \<open>0xFD\<close>, the body, and the 16-bit sum of the body, low byte first.  A read past the buffer is
  \<open>None\<close>.  The lemmas relate the loop to the sum of the body.
\<close>

definition MIN_BGCP_MES_SIZE :: u16 where "MIN_BGCP_MES_SIZE = 10"

text \<open>The loop: \<open>n\<close> bytes from index \<open>i\<close> are still to be added to \<open>chksum\<close>.\<close>

fun chksum_loop :: "nat \<Rightarrow> nat \<Rightarrow> u8 list \<Rightarrow> u16 \<Rightarrow> u16 option" where
  "chksum_loop 0 i data chksum = Some chksum"
| "chksum_loop (Suc n) i data chksum =
     do { b \<leftarrow> byte_at data i; chksum_loop n (Suc i) data (chksum + ucast b) }"

text \<open>
  The loop runs for \<open>i\<close> from 2 to \<open>size - 3\<close>: \<open>size - 4\<close> times, and \<open>size\<close> is at least 10.
\<close>

definition check_bgcp_protocol :: "u8 list \<Rightarrow> u16 \<Rightarrow> bool option" where
  "check_bgcp_protocol data sz =
     (if sz < MIN_BGCP_MES_SIZE then Some False
      else do {
        b0 \<leftarrow> byte_at data 0;
        if b0 \<noteq> 0xFD then Some False
        else do {
          b1 \<leftarrow> byte_at data 1;
          if b1 \<noteq> 0xFD then Some False
          else do {
            chksum1 \<leftarrow> chksum_loop (unat sz - 4) 2 data 0;
            hi \<leftarrow> byte_at data (unat sz - 1);
            lo \<leftarrow> byte_at data (unat sz - 2);
            Some (chksum1 = u16_of hi lo)
          }
        }
      })"

section \<open>The sum\<close>

definition sum16 :: "u8 list \<Rightarrow> u16" where
  "sum16 bs = sum_list (map ucast bs)"

lemma chksum_loop_sum:
  "i + n \<le> length data \<Longrightarrow>
     chksum_loop n i data c = Some (c + sum16 (take n (drop i data)))"
  by (induction n arbitrary: i c)
    (simp_all add: sum16_def take_Suc_conv_app_nth add.assoc flip: Cons_nth_drop_Suc)

lemma ucast_u8_u16: "ucast (ucast (b::u8) :: u16) = b"
  by (rule bit_word_eqI) (auto simp: bit_simps)

lemma sum16_update:
  assumes "i < length bs" "b \<noteq> bs ! i"
  shows "sum16 (bs[i := b]) \<noteq> sum16 bs"
proof -
  have "sum16 (bs[i := b]) + ucast (bs ! i) = sum16 bs + ucast b"
    using assms(1) unfolding sum16_def
    by (induction bs arbitrary: i) (auto simp: less_Suc_eq_0_disj algebra_simps)
  moreover have "(ucast b :: u16) \<noteq> ucast (bs ! i)"
    using assms(2) by (metis ucast_u8_u16)
  ultimately show ?thesis by auto
qed

text \<open>A frame: \<open>body\<close> between the two start bytes and its sum.\<close>

definition bgcp_frame :: "u8 list \<Rightarrow> u8 list" where
  "bgcp_frame body = [0xFD, 0xFD] @ body @ [lo8 (sum16 body), hi8 (sum16 body)]"

lemma check_long:
  assumes "10 \<le> unat sz" "unat sz \<le> length data"
  shows "check_bgcp_protocol data sz =
           Some (data ! 0 = 0xFD \<and> data ! 1 = 0xFD \<and>
                 sum16 (take (unat sz - 4) (drop 2 data)) =
                   u16_of (data ! (unat sz - 1)) (data ! (unat sz - 2)))"
proof -
  have "\<not> sz < MIN_BGCP_MES_SIZE"
    using assms(1) by (simp add: MIN_BGCP_MES_SIZE_def word_less_nat_alt)
  moreover have "chksum_loop (unat sz - 4) 2 data 0 = Some (sum16 (take (unat sz - 4) (drop 2 data)))"
    using assms by (subst chksum_loop_sum) simp_all
  moreover have "data \<noteq> []" "unat sz - 1 < length data" "unat sz - 2 < length data" "1 < length data"
    using assms by auto
  ultimately show ?thesis
    using assms by (auto simp: check_bgcp_protocol_def byte_at_def)
qed

lemma frame_parts:
  assumes "data = s0 # s1 # body @ [c0, c1]"
  shows "take (length data - 4) (drop 2 data) = body" "data ! 0 = s0" "data ! 1 = s1"
    "data ! (length data - 2) = c0" "data ! (length data - 1) = c1"
  using assms by (simp_all add: nth_append)

lemma list_frame:
  assumes "10 \<le> length data"
  obtains s0 s1 body c0 c1 where "data = s0 # s1 # body @ [c0, c1]"
proof -
  obtain s0 s1 r where 1: "data = s0 # s1 # r" and r: "8 \<le> length r"
    using assms by (cases data; cases "tl data") auto
  have "r \<noteq> []" "butlast r \<noteq> []" using r by (auto dest: arg_cong [where f = length])
  then have "r = butlast (butlast r) @ [last (butlast r), last r]"
    by (metis append_Cons append_Nil append_butlast_last_id append_assoc)
  then show thesis using 1 that by metis
qed

lemma check_parts:
  assumes "data = s0 # s1 # body @ [c0, c1]" "6 \<le> length body" "length data < 2 ^ 16"
  shows "check_bgcp_protocol data (of_nat (length data)) =
           Some (s0 = 0xFD \<and> s1 = 0xFD \<and> sum16 body = u16_of c1 c0)"
proof -
  have "unat (of_nat (length data) :: u16) = length data"
    using assms(3) by (simp add: unat_of_nat take_bit_nat_eq_self)
  moreover have "10 \<le> length data" using assms(1,2) by simp
  ultimately show ?thesis
    using check_long [of "of_nat (length data)" data] frame_parts [OF assms(1)] by simp
qed

lemma check_short:
  assumes "length data < 10"
  shows "check_bgcp_protocol data (of_nat (length data)) = Some False"
proof -
  have "unat (of_nat (length data) :: u16) = length data"
    using assms by (simp add: unat_of_nat take_bit_nat_eq_self)
  then show ?thesis
    using assms by (simp add: check_bgcp_protocol_def MIN_BGCP_MES_SIZE_def word_less_nat_alt)
qed

section \<open>The properties\<close>

text \<open>C21: A whole buffer passes the check exactly when it is the frame of some body of at
  least six bytes; the check reads nothing outside the buffer.\<close>

theorem check_accepts_frames:
  assumes "length data < 2 ^ 16"
  shows "check_bgcp_protocol data (of_nat (length data)) =
           Some (\<exists>body. 6 \<le> length body \<and> data = bgcp_frame body)"
proof (cases "10 \<le> length data")
  case True
  then obtain s0 s1 body c0 c1 where d: "data = s0 # s1 # body @ [c0, c1]" by (rule list_frame)
  with True have body: "6 \<le> length body" by simp
  have "data = bgcp_frame b \<longleftrightarrow>
      body = b \<and> s0 = 0xFD \<and> s1 = 0xFD \<and> sum16 body = u16_of c1 c0" for b
    unfolding d bgcp_frame_def by auto
  then show ?thesis using check_parts [OF d body assms] body by auto
next
  case False
  then show ?thesis using check_short [of data] by (auto simp: bgcp_frame_def)
qed

theorem check_accepts_frames_witness:
  "check_bgcp_protocol (bgcp_frame [1, 2, 3, 4, 5, 250]) 10 = Some True"
proof -
  let ?data = "bgcp_frame [1, 2, 3, 4, 5, 250]"
  have len: "length ?data = 10" by (simp add: bgcp_frame_def)
  have "\<exists>body. 6 \<le> length body \<and> ?data = bgcp_frame body"
    by (rule exI [of _ "[1, 2, 3, 4, 5, 250]"]) simp
  with check_accepts_frames [of ?data] len show ?thesis by simp
qed

text \<open>If any one byte of an accepted message is changed, be it a start byte, a byte of the
  body or of the sum, the message is rejected.\<close>

lemma corruption_rejected:
  assumes "length data < 2 ^ 16"
    and "check_bgcp_protocol data (of_nat (length data)) = Some True"
    and "i < length data" "b \<noteq> data ! i"
  shows "check_bgcp_protocol (data[i := b]) (of_nat (length data)) = Some False"
proof -
  have len: "10 \<le> length data" using assms(2) check_short [of data] by (cases "length data < 10") auto
  then obtain s0 s1 body c0 c1 where d: "data = s0 # s1 # body @ [c0, c1]" by (rule list_frame)
  with len have body: "6 \<le> length body" by simp
  from check_parts [OF d body assms(1)] assms(2)
  have ok: "s0 = 0xFD" "s1 = 0xFD" "sum16 body = u16_of c1 c0" by auto
  have upd: "data[i := b] = t0 # t1 # body' @ [d0, d1] \<Longrightarrow> length body' = length body \<Longrightarrow>
      \<not> (t0 = 0xFD \<and> t1 = 0xFD \<and> sum16 body' = u16_of d1 d0) \<Longrightarrow> ?thesis" for t0 t1 body' d0 d1
    using check_parts [of "data[i := b]" t0 t1 body' d0 d1] body assms(1) length_list_update [of data i b]
    by fastforce
  consider (start0) "i = 0" | (start1) "i = 1" | (body) j where "i = j + 2" "j < length body"
    | (sum0) "i = length body + 2" | (sum1) "i = length body + 3"
  proof -
    have "i = 0 \<or> i = 1 \<or> i = (i - 2) + 2 \<and> i - 2 < length body \<or>
        i = length body + 2 \<or> i = length body + 3"
      using assms(3) unfolding d by auto
    then show thesis using that by blast
  qed
  then show ?thesis
  proof cases
    case start0
    then show ?thesis using assms(4) ok by (intro upd [of b s1 body c0 c1]) (auto simp: d)
  next
    case start1
    then show ?thesis using assms(4) ok by (intro upd [of s0 b body c0 c1]) (auto simp: d)
  next
    case body
    then show ?thesis using assms(4) ok sum16_update [of j body b]
      by (intro upd [of s0 s1 "body[j := b]" c0 c1]) (auto simp: d list_update_append nth_append)
  next
    case sum0
    then show ?thesis using assms(4) ok
      by (intro upd [of s0 s1 body b c1]) (auto simp: d list_update_append nth_append u16_of_inject)
  next
    case sum1
    then show ?thesis using assms(4) ok
      by (intro upd [of s0 s1 body c0 b])
        (auto simp: d list_update_append nth_append u16_of_inject numeral_3_eq_3)
  qed
qed

lemma corruption_rejected_witness:
  "check_bgcp_protocol ((bgcp_frame [1, 2, 3, 4, 5, 250])[4 := 7]) 10 = Some False"
proof -
  let ?body = "[1, 2, 3, 4, 5, 250] :: u8 list"
  let ?data = "bgcp_frame ?body"
  have d: "?data = 0xFD # 0xFD # ?body @ [lo8 (sum16 ?body), hi8 (sum16 ?body)]"
    by (simp add: bgcp_frame_def)
  have len: "length ?data = 10" and byte: "?data ! 4 = 3" by (simp_all add: d)
  have "check_bgcp_protocol ?data (of_nat (length ?data)) = Some True"
    using check_parts [OF d] len by simp
  with corruption_rejected [of ?data 4 7] len byte show ?thesis by simp
qed

end
