(* ===== verification/Event_Manager.thy ===== *)
theory Event_Manager
  imports Prelude
begin

text \<open>
  The registry of event handlers, \<open>components/event_manager/event_manager.c\<close>: a table of 100
  pairs of event and handler, searched from the front.  A handler is a number, the null
  pointer is \<open>None\<close>.  \<open>dispatch\<close> is the inner loop of \<open>event_manager_task\<close> for one event; the
  handlers it calls may change the registry, so they are functions on the registry and the
  rest of the system.  The FreeRTOS queue the events come from is a parameter.
\<close>

section \<open>The registry\<close>

definition MAX_EVENT_HANDLERS :: nat where "MAX_EVENT_HANDLERS = 100"

text \<open>
  The interface takes any \<open>int\<close> for an event; the table keeps it in the enumeration's type, which is
  unsigned.  \<open>EVN_OTHER n\<close> is the number \<open>19 + n\<close>, which has no name.  The code only compares
  events with one another and with \<open>EVN_NO_ENTRY\<close> and \<open>EVN_ANY\<close>.
\<close>

datatype EventId =
    EVN_NO_ENTRY | EVN_UPDATE_SETTINGS | EVN_START_AP | EVN_STOP_AP | EVN_FACTORY_RESET
  | EVN_SET_WIFI_OFF | EVN_SET_HUM_AUTO | EVN_BUT_PRESS | EVN_READ_GPIO | EVN_HDC_READ_HUMIDITY
  | EVN_HDC1080_POLLING | EVN_READ_TEMPERATURE | EVN_STA_CONNECTED | EVN_STA_CONN_FAIL
  | EVN_AP_START | EVN_AP_STOP | EVN_STA_STOP | EVN_AP_CLIENT | EVN_ANY | EVN_OTHER nat

record EventHandlerRegistry =
  event_id :: EventId
  handler :: "nat option"

record DevEvn =
  evn_id :: EventId
  evn_ctx :: u32

definition no_entry :: EventHandlerRegistry where
  "no_entry = \<lparr>event_id = EVN_NO_ENTRY, handler = None\<rparr>"

definition reset_event_list :: "EventHandlerRegistry list \<Rightarrow> EventHandlerRegistry list" where
  "reset_event_list reg = map (\<lambda>r. r\<lparr>event_id := EVN_NO_ENTRY, handler := None\<rparr>) reg"

definition entry_matches :: "EventId \<Rightarrow> nat option \<Rightarrow> EventHandlerRegistry \<Rightarrow> bool" where
  "entry_matches e h r \<longleftrightarrow> (e = EVN_ANY \<or> event_id r = e) \<and> (h = None \<or> handler r = h)"

text \<open>The search loop of \<open>get_event_entry\<close> from index \<open>i\<close>: the index where it stopped.\<close>

function seek_entry :: "nat \<Rightarrow> EventId \<Rightarrow> nat option \<Rightarrow> EventHandlerRegistry list \<Rightarrow> nat" where
  "seek_entry i e h reg =
     (if i < length reg then (if entry_matches e h (reg ! i) then i else seek_entry (Suc i) e h reg)
      else i)"
  by pat_completeness auto
termination
  by (relation "measure (\<lambda>(i, e, h, reg). length reg - i)") auto

declare seek_entry.simps [simp del]

text \<open>
  \<open>get_event_entry\<close> with a counter that starts at \<open>i\<close>: the slot found, if any, and the
  counter afterwards.  Called without a counter it starts at 0.
\<close>

definition get_event_entry ::
  "nat \<Rightarrow> EventId \<Rightarrow> nat option \<Rightarrow> EventHandlerRegistry list \<Rightarrow> nat option \<times> nat" where
  "get_event_entry i e h reg =
     (let j = seek_entry i e h reg in ((if j < length reg then Some j else None), Suc j))"

lemma seek_entry_ge: "i \<le> seek_entry i e h reg"
proof (induction i e h reg rule: seek_entry.induct)
  case (1 i e h reg)
  then show ?case by (subst seek_entry.simps) (auto dest: Suc_leD)
qed

lemma get_event_entry_progress:
  "get_event_entry i e h reg = (Some j, i') \<Longrightarrow> i \<le> j \<and> j < length reg \<and> i' = Suc j"
  using seek_entry_ge [of i e h reg] by (auto simp: get_event_entry_def Let_def split: if_splits)

text \<open>The loop of both \<open>unregister\<close> functions.\<close>

function clear_matching ::
  "nat \<Rightarrow> EventId \<Rightarrow> nat option \<Rightarrow> EventHandlerRegistry list \<Rightarrow> EventHandlerRegistry list" where
  "clear_matching i e h reg =
     (case get_event_entry i e h reg of
        (None, _) \<Rightarrow> reg
      | (Some j, i') \<Rightarrow>
          clear_matching i' e h (reg[j := (reg ! j)\<lparr>event_id := EVN_NO_ENTRY, handler := None\<rparr>]))"
  by pat_completeness auto
termination
proof (relation "measure (\<lambda>(i, e, h, reg). length reg - i)", goal_cases)
  case 1
  then show ?case by simp
next
  case (2 i e h reg x y j)
  then have "get_event_entry i e h reg = (Some j, y)" by simp
  then have "i \<le> j \<and> j < length reg \<and> y = Suc j" by (rule get_event_entry_progress)
  then show ?case by auto
qed

declare clear_matching.simps [simp del]

definition unregister_event_handler :: "nat option \<Rightarrow> EventHandlerRegistry list \<Rightarrow> EventHandlerRegistry list" where
  "unregister_event_handler h reg = (if h = None then reg else clear_matching 0 EVN_ANY h reg)"

definition unregister_event_id :: "EventId \<Rightarrow> EventHandlerRegistry list \<Rightarrow> EventHandlerRegistry list" where
  "unregister_event_id e reg = (if e = EVN_NO_ENTRY then reg else clear_matching 0 e None reg)"

definition register_event_handler ::
  "EventId \<Rightarrow> nat option \<Rightarrow> EventHandlerRegistry list \<Rightarrow> bool \<times> EventHandlerRegistry list" where
  "register_event_handler e h reg =
     (if h = None then (False, reg)
      else if fst (get_event_entry 0 e h reg) \<noteq> None then (True, reg)
      else
        (case fst (get_event_entry 0 EVN_NO_ENTRY None reg) of
           Some i \<Rightarrow> (True, reg[i := (reg ! i)\<lparr>event_id := e, handler := h\<rparr>])
         | None \<Rightarrow> (False, reg)))"

text \<open>
  One event in \<open>event_manager_task\<close>.  \<open>call h ms ctx\<close> is what the handler \<open>h\<close> does to the registry
  and the rest of the system.  The loop's counter only grows, so it ends even if handlers
  register new handlers: the fuel is the size of the table (\<open>dispatch_fuel\<close>).
\<close>

type_synonym 'w call = "nat \<Rightarrow> u32 \<Rightarrow> u32 \<Rightarrow> EventHandlerRegistry list \<times> 'w \<Rightarrow> EventHandlerRegistry list \<times> 'w"

fun dispatch_from :: "nat \<Rightarrow> nat \<Rightarrow> 'w call \<Rightarrow> u32 \<Rightarrow> DevEvn \<Rightarrow>
    EventHandlerRegistry list \<times> 'w \<Rightarrow> (EventHandlerRegistry list \<times> 'w) option" where
  "dispatch_from 0 i call ms ev s = None"
| "dispatch_from (Suc n) i call ms ev (reg, w) =
     (case get_event_entry i (evn_id ev) None reg of
        (None, _) \<Rightarrow> Some (reg, w)
      | (Some j, i') \<Rightarrow>
          dispatch_from n i' call ms ev
            (case handler (reg ! j) of Some h \<Rightarrow> call h ms (evn_ctx ev) (reg, w) | None \<Rightarrow> (reg, w)))"

definition dispatch :: "'w call \<Rightarrow> u32 \<Rightarrow> DevEvn \<Rightarrow>
    EventHandlerRegistry list \<times> 'w \<Rightarrow> (EventHandlerRegistry list \<times> 'w) option" where
  "dispatch call ms ev s = dispatch_from (Suc MAX_EVENT_HANDLERS) 0 call ms ev s"

text \<open>\<open>set_event\<close>: \<open>send\<close> is \<open>xQueueSendToBack\<close> on the event queue.\<close>

definition set_event :: "(DevEvn \<Rightarrow> 'q \<Rightarrow> bool \<times> 'q) \<Rightarrow> EventId \<Rightarrow> u32 \<Rightarrow> 'q \<Rightarrow> bool \<times> 'q" where
  "set_event send e ctx q = send \<lparr>evn_id = e, evn_ctx = ctx\<rparr> q"

section \<open>The search\<close>

lemma seek_entry_spec:
  "(seek_entry i e h reg < length reg \<longrightarrow> entry_matches e h (reg ! seek_entry i e h reg)) \<and>
   (\<forall>k. i \<le> k \<and> k < seek_entry i e h reg \<and> k < length reg \<longrightarrow> \<not> entry_matches e h (reg ! k)) \<and>
   (i \<le> length reg \<longrightarrow> seek_entry i e h reg \<le> length reg)"
proof (induction i e h reg rule: seek_entry.induct)
  case (1 i e h reg)
  show ?case
  proof (cases "i < length reg \<and> \<not> entry_matches e h (reg ! i)")
    case True
    then have "seek_entry i e h reg = seek_entry (Suc i) e h reg" by (subst seek_entry.simps) simp
    moreover have "i \<le> k \<Longrightarrow> k = i \<or> Suc i \<le> k" for k by auto
    ultimately show ?thesis using 1 True by (metis Suc_leI)
  next
    case False
    then have "seek_entry i e h reg = i" by (subst seek_entry.simps) simp
    with False show ?thesis by auto
  qed
qed

lemma get_event_entry_None:
  "fst (get_event_entry 0 e h reg) = None \<longleftrightarrow> (\<forall>r \<in> set reg. \<not> entry_matches e h r)"
proof -
  let ?j = "seek_entry 0 e h reg"
  have "?j < length reg \<longleftrightarrow> (\<exists>k < length reg. entry_matches e h (reg ! k))"
    using seek_entry_spec [of 0 e h reg] by (metis le0 linorder_not_less order.strict_trans2)
  then show ?thesis by (simp add: get_event_entry_def Let_def) (metis in_set_conv_nth)
qed

lemma get_event_entry_Some:
  assumes "fst (get_event_entry 0 e h reg) = Some i"
  shows "i < length reg" "entry_matches e h (reg ! i)" "\<forall>k < i. \<not> entry_matches e h (reg ! k)"
  using assms seek_entry_spec [of 0 e h reg]
  by (auto simp: get_event_entry_def Let_def split: if_splits)


section \<open>Registering and unregistering\<close>

text \<open>Both \<open>unregister\<close> functions clear every matching entry and no other.\<close>

lemma clear_matching_stop:
  "get_event_entry i e h reg = (None, x) \<Longrightarrow> clear_matching i e h reg = reg"
  by (subst clear_matching.simps) simp

lemma clear_entry: "r\<lparr>event_id := EVN_NO_ENTRY, handler := None\<rparr> = no_entry"
  by (simp add: no_entry_def)

lemma clear_matching_step:
  "get_event_entry i e h reg = (Some j, i') \<Longrightarrow>
   clear_matching i e h reg = clear_matching i' e h (reg[j := no_entry])"
  by (subst clear_matching.simps) (simp add: clear_entry)

lemma clear_matching_length [simp]: "length (clear_matching i e h reg) = length reg"
proof (induction i e h reg rule: clear_matching.induct)
  case (1 i e h reg)
  obtain r i' where r: "get_event_entry i e h reg = (r, i')" by fastforce
  show ?case
  proof (cases r)
    case None
    with r show ?thesis by (simp add: clear_matching_stop)
  next
    case (Some j)
    with r 1 show ?thesis by (subst clear_matching.simps) simp
  qed
qed

lemma clear_matching_nth:
  "k < length reg \<Longrightarrow> clear_matching i e h reg ! k =
   (if i \<le> k \<and> entry_matches e h (reg ! k) then no_entry else reg ! k)"
proof (induction i e h reg rule: clear_matching.induct)
  case (1 i e h reg)
  have spec: "\<forall>k. i \<le> k \<and> k < seek_entry i e h reg \<and> k < length reg \<longrightarrow> \<not> entry_matches e h (reg ! k)"
    "seek_entry i e h reg < length reg \<longrightarrow> entry_matches e h (reg ! seek_entry i e h reg)"
    using seek_entry_spec [of i e h reg] by auto
  show ?case
  proof (cases "seek_entry i e h reg < length reg")
    case False
    then have "get_event_entry i e h reg = (None, Suc (seek_entry i e h reg))"
      by (simp add: get_event_entry_def Let_def)
    then show ?thesis using clear_matching_stop spec False "1.prems" by auto
  next
    case True
    let ?j = "seek_entry i e h reg"
    have r: "get_event_entry i e h reg = (Some ?j, Suc ?j)" using True by (simp add: get_event_entry_def Let_def)
    have "clear_matching (Suc ?j) e h (reg[?j := no_entry]) ! k =
        (if Suc ?j \<le> k \<and> entry_matches e h (reg[?j := no_entry] ! k) then no_entry
         else reg[?j := no_entry] ! k)"
      using "1.IH" [OF r [symmetric] refl] "1.prems"
      by (simp only: clear_entry length_list_update)
    moreover have "i \<le> ?j" by (rule seek_entry_ge)
    ultimately show ?thesis
      using clear_matching_step [OF r] spec True "1.prems"
      by (cases "k = ?j") (auto simp: nth_list_update)
  qed
qed

lemma clear_matching_map:
  "clear_matching 0 e h reg = map (\<lambda>r. if entry_matches e h r then no_entry else r) reg"
  by (rule nth_equalityI) (simp_all add: clear_matching_nth)

lemma unregister_event_handler_map:
  "unregister_event_handler (Some h) reg = map (\<lambda>r. if handler r = Some h then no_entry else r) reg"
  by (simp add: unregister_event_handler_def clear_matching_map entry_matches_def cong: map_cong)

lemma unregister_event_id_map:
  "e \<noteq> EVN_NO_ENTRY \<Longrightarrow> e \<noteq> EVN_ANY \<Longrightarrow>
   unregister_event_id e reg = map (\<lambda>r. if event_id r = e then no_entry else r) reg"
  by (simp add: unregister_event_id_def clear_matching_map entry_matches_def cong: map_cong)

text \<open>The handlers registered for an event, in the order of the table.\<close>

definition handlers_of :: "EventId \<Rightarrow> EventHandlerRegistry list \<Rightarrow> nat list" where
  "handlers_of e reg = List.map_filter (\<lambda>r. if event_id r = e then handler r else None) reg"

text \<open>An entry without an event has no handler, and no pair is registered twice.\<close>

definition registry_inv :: "EventHandlerRegistry list \<Rightarrow> bool" where
  "registry_inv reg \<longleftrightarrow>
     length reg = MAX_EVENT_HANDLERS \<and>
     (\<forall>r \<in> set reg. event_id r \<noteq> EVN_ANY \<and> (event_id r = EVN_NO_ENTRY \<longleftrightarrow> handler r = None)) \<and>
     (\<forall>e. distinct (handlers_of e reg))"

lemma handlers_of_Nil [simp]: "handlers_of e [] = []"
  by (simp add: handlers_of_def List.map_filter_def)

lemma handlers_of_Cons [simp]:
  "handlers_of e (r # reg) =
     (case (if event_id r = e then handler r else None) of Some h \<Rightarrow> h # handlers_of e reg | None \<Rightarrow> handlers_of e reg)"
  by (simp add: handlers_of_def List.map_filter_def split: option.split)

lemma set_handlers_of: "h \<in> set (handlers_of e reg) \<longleftrightarrow> (\<exists>r \<in> set reg. event_id r = e \<and> handler r = Some h)"
  by (induction reg) (auto split: option.splits)

lemma handlers_of_map_no_entry:
  "e \<noteq> EVN_NO_ENTRY \<Longrightarrow>
   handlers_of e (map (\<lambda>r. if P r then no_entry else r) reg) =
   handlers_of e (filter (\<lambda>r. \<not> P r) reg)"
  by (induction reg) (auto simp: no_entry_def split: option.splits)

lemma handlers_of_filter_handler:
  "handlers_of e (filter (\<lambda>r. handler r \<noteq> Some h) reg) = filter (\<lambda>k. k \<noteq> h) (handlers_of e reg)"
  by (induction reg) (auto split: option.splits)

text \<open>Inserting one handler: its event's list grows by it, the others stay.\<close>

lemma handlers_of_update_other:
  "i < length reg \<Longrightarrow> event_id (reg ! i) \<noteq> e' \<Longrightarrow> event_id q \<noteq> e' \<Longrightarrow>
   handlers_of e' (reg[i := q]) = handlers_of e' reg"
proof (induction reg arbitrary: i)
  case Nil
  then show ?case by simp
next
  case (Cons r reg)
  then show ?case by (cases i) (auto split: option.splits)
qed

lemma handlers_of_update_new:
  "i < length reg \<Longrightarrow> event_id (reg ! i) \<noteq> e \<Longrightarrow>
   \<exists>xs ys. handlers_of e reg = xs @ ys \<and> handlers_of e (reg[i := \<lparr>event_id = e, handler = Some h\<rparr>]) = xs @ h # ys"
proof (induction reg arbitrary: i)
  case Nil
  then show ?case by simp
next
  case (Cons r reg)
  show ?case
  proof (cases i)
    case 0
    then show ?thesis using Cons.prems 
      by (intro exI [of _ "[]"] exI [of _ "handlers_of e reg"]) auto
  next
    case (Suc k)
    then obtain xs ys where ih: "handlers_of e reg = xs @ ys"
      "handlers_of e (reg[k := \<lparr>event_id = e, handler = Some h\<rparr>]) = xs @ h # ys"
      using Cons.IH [of k] Cons.prems by auto
    show ?thesis
    proof (cases "if event_id r = e then handler r else None")
      case None
      then show ?thesis using ih Suc by (intro exI [of _ xs] exI [of _ ys]) auto
    next
      case (Some k')
      then show ?thesis using ih Suc by (intro exI [of _ "k' # xs"] exI [of _ ys]) auto
    qed
  qed
qed

definition free_entries :: "EventHandlerRegistry list \<Rightarrow> nat" where
  "free_entries reg = length (filter (\<lambda>r. event_id r = EVN_NO_ENTRY) reg)"

lemma free_entries_pos: "0 < free_entries reg \<longleftrightarrow> fst (get_event_entry 0 EVN_NO_ENTRY None reg) \<noteq> None"
  by (auto simp: free_entries_def get_event_entry_None entry_matches_def filter_empty_conv)

lemma overwrite_entry:
  "r\<lparr>event_id := e, handler := k\<rparr> = \<lparr>event_id = e, handler = k\<rparr>" for r :: EventHandlerRegistry
  by simp

lemma register_cases:
  assumes "e \<noteq> EVN_ANY" "e \<noteq> EVN_NO_ENTRY"
  shows "register_event_handler e (Some h) reg =
    (if h \<in> set (handlers_of e reg) then (True, reg)
     else case fst (get_event_entry 0 EVN_NO_ENTRY None reg) of
       Some i \<Rightarrow> (True, reg[i := \<lparr>event_id = e, handler = Some h\<rparr>])
     | None \<Rightarrow> (False, reg))"
proof -
  have "fst (get_event_entry 0 e (Some h) reg) \<noteq> None \<longleftrightarrow> h \<in> set (handlers_of e reg)"
    using get_event_entry_None [of e "Some h" reg] assms(1)
    by (auto simp: set_handlers_of entry_matches_def)
  then show ?thesis by (simp add: register_event_handler_def overwrite_entry split: option.split)
qed

lemma register_inv:
  assumes inv: "registry_inv reg" and e: "e \<noteq> EVN_ANY" "e \<noteq> EVN_NO_ENTRY"
  shows "registry_inv (snd (register_event_handler e (Some h) reg))"
proof (cases "h \<in> set (handlers_of e reg)")
  case True
  then show ?thesis using inv by (simp add: register_cases [OF e])
next
  case False
  show ?thesis
  proof (cases "fst (get_event_entry 0 EVN_NO_ENTRY None reg)")
    case None
    then show ?thesis using inv False by (simp add: register_cases [OF e])
  next
    case (Some i)
    note i = get_event_entry_Some [OF Some]
    let ?q = "\<lparr>event_id = e, handler = Some h\<rparr>"
    have free: "event_id (reg ! i) = EVN_NO_ENTRY" using i(2) by (simp add: entry_matches_def)
    have "distinct (handlers_of e' (reg[i := ?q]))" for e'
    proof (cases "e' = e")
      case True
      obtain xs ys where "handlers_of e reg = xs @ ys" "handlers_of e (reg[i := ?q]) = xs @ h # ys"
        using handlers_of_update_new [OF i(1), of e h] free e(2) by metis
      moreover have "distinct (handlers_of e reg)" using inv by (simp add: registry_inv_def)
      ultimately show ?thesis using True False by auto
    next
      case e': False
      show ?thesis
      proof (cases "e' = EVN_NO_ENTRY")
        case True
        have "k \<notin> set (handlers_of EVN_NO_ENTRY (reg[i := ?q]))" for k
        proof
          assume "k \<in> set (handlers_of EVN_NO_ENTRY (reg[i := ?q]))"
          then obtain r where r: "r \<in> set (reg[i := ?q])" "event_id r = EVN_NO_ENTRY" "handler r = Some k"
            by (auto simp: set_handlers_of)
          then have "r \<in> set reg" using set_update_subset_insert [of reg i ?q] e(2) by auto
          with r(2,3) inv show False by (auto simp: registry_inv_def)
        qed
        then have "handlers_of EVN_NO_ENTRY (reg[i := ?q]) = []" by (meson last_in_set)
        then show ?thesis by (simp add: True)
      next
        case False
        then show ?thesis
          using handlers_of_update_other [OF i(1), of e' ?q] free e' inv by (auto simp: registry_inv_def)
      qed
    qed
    then show ?thesis
      using inv False Some e set_update_subset_insert [of reg i ?q]
      by (auto simp: register_cases [OF e] registry_inv_def)
  qed
qed

lemma registry_inv_filter:
  assumes inv: "registry_inv reg"
    and h: "\<And>e. e \<noteq> EVN_NO_ENTRY \<Longrightarrow> distinct (handlers_of e (filter (\<lambda>r. \<not> P r) reg))"
  shows "registry_inv (map (\<lambda>r. if P r then no_entry else r) reg)"
proof -
  let ?reg = "map (\<lambda>r. if P r then no_entry else r) reg"
  have entries: "\<forall>r \<in> set ?reg. event_id r \<noteq> EVN_ANY \<and> (event_id r = EVN_NO_ENTRY \<longleftrightarrow> handler r = None)"
    using inv by (auto simp: registry_inv_def no_entry_def)
  have "distinct (handlers_of e ?reg)" for e
  proof (cases "e = EVN_NO_ENTRY")
    case True
    have "k \<notin> set (handlers_of EVN_NO_ENTRY ?reg)" for k
      using entries unfolding set_handlers_of by force
    then have "handlers_of EVN_NO_ENTRY ?reg = []" by (meson last_in_set)
    with True show ?thesis by simp
  next
    case False
    then show ?thesis using h by (simp add: handlers_of_map_no_entry)
  qed
  with entries inv show ?thesis by (simp add: registry_inv_def)
qed

lemma unregister_handler_inv:
  assumes "registry_inv reg"
  shows "registry_inv (unregister_event_handler (Some h) reg)"
  unfolding unregister_event_handler_map
  by (rule registry_inv_filter [OF assms])
    (use assms in \<open>simp add: handlers_of_filter_handler registry_inv_def\<close>)

section \<open>Dispatching\<close>

lemma handlers_of_drop_seek:
  assumes "e \<noteq> EVN_ANY" "i \<le> length reg"
  shows "handlers_of e (drop i reg) =
    (case get_event_entry i e None reg of
       (None, _) \<Rightarrow> []
     | (Some j, i') \<Rightarrow>
         (case handler (reg ! j) of Some h \<Rightarrow> h # handlers_of e (drop i' reg)
          | None \<Rightarrow> handlers_of e (drop i' reg)))"
  using assms
proof (induction i e "None :: nat option" reg rule: seek_entry.induct)
  case (1 i e reg)
  show ?case
  proof (cases "i < length reg")
    case False
    then have "seek_entry i e None reg = i" by (subst seek_entry.simps) simp
    with False show ?thesis by (simp add: get_event_entry_def Let_def)
  next
    case True
    then have d: "drop i reg = reg ! i # drop (Suc i) reg" by (simp add: Cons_nth_drop_Suc)
    show ?thesis
    proof (cases "entry_matches e None (reg ! i)")
      case match: True
      then have "seek_entry i e None reg = i" using True by (subst seek_entry.simps) simp
      then have "get_event_entry i e None reg = (Some i, Suc i)"
        using True by (simp add: get_event_entry_def Let_def)
      then show ?thesis
        using match 1 by (auto simp: d entry_matches_def split: option.split)
    next
      case False
      then have "seek_entry i e None reg = seek_entry (Suc i) e None reg"
        using True by (subst seek_entry.simps) simp
      then have "get_event_entry i e None reg = get_event_entry (Suc i) e None reg"
        by (simp add: get_event_entry_def)
      then show ?thesis
        using 1 True False by (simp add: d entry_matches_def)
    qed
  qed
qed

lemma dispatch_from_handlers:
  assumes "\<And>h reg w. call h ms (evn_ctx ev) (reg, w) = (reg, f h w)" "evn_id ev \<noteq> EVN_ANY"
  shows "length reg - i < n \<Longrightarrow> i \<le> length reg \<Longrightarrow>
    dispatch_from n i call ms ev (reg, w) = Some (reg, fold f (handlers_of (evn_id ev) (drop i reg)) w)"
proof (induction n arbitrary: i w)
  case 0
  then show ?case by simp
next
  case (Suc n)
  obtain r i' where g: "get_event_entry i (evn_id ev) None reg = (r, i')" by fastforce
  show ?case
  proof (cases r)
    case None
    then show ?thesis using g handlers_of_drop_seek [OF assms(2) Suc.prems(2)] by simp
  next
    case (Some j)
    with g have "get_event_entry i (evn_id ev) None reg = (Some j, i')" by simp
    then have j: "i \<le> j" "j < length reg" "i' = Suc j" using get_event_entry_progress by blast+
    show ?thesis
      using g Some j Suc.IH [of i'] Suc.prems handlers_of_drop_seek [OF assms(2) Suc.prems(2)]
      by (simp add: assms(1) split: option.split)
  qed
qed

lemma dispatch_from_returns:
  assumes "\<And>h reg w. length (fst (call h ms (evn_ctx ev) (reg, w))) = length reg"
  shows "length reg - i < n \<Longrightarrow> \<exists>reg' w'. dispatch_from n i call ms ev (reg, w) = Some (reg', w') \<and> length reg' = length reg"
proof (induction n arbitrary: i reg w)
  case 0
  then show ?case by simp
next
  case (Suc n)
  obtain r i' where g: "get_event_entry i (evn_id ev) None reg = (r, i')" by fastforce
  show ?case
  proof (cases r)
    case None
    with g show ?thesis by simp
  next
    case (Some j)
    with g have "get_event_entry i (evn_id ev) None reg = (Some j, i')" by simp
    then have j: "i \<le> j" "j < length reg" "i' = Suc j" using get_event_entry_progress by blast+
    obtain reg1 w1 where s1: "(case handler (reg ! j) of
        Some h \<Rightarrow> call h ms (evn_ctx ev) (reg, w) | None \<Rightarrow> (reg, w)) = (reg1, w1)" by fastforce
    have len: "length reg1 = length reg"
      using s1 assms [of _ reg w] by (auto split: option.splits) (metis fst_conv)
    have "length reg1 - i' < n" using Suc.prems j len by linarith
    then obtain reg2 w2 where "dispatch_from n i' call ms ev (reg1, w1) = Some (reg2, w2)"
      "length reg2 = length reg1"
      using Suc.IH by blast
    then show ?thesis using g Some s1 len by simp
  qed
qed

section \<open>Properties\<close>

text \<open>Registering a handler for an event succeeds when the pair is registered already or an
  entry is free; afterwards the handler is registered for the event, once, the handlers of
  every other event are as before, and when it is refused nothing has changed.\<close>

lemma register_handler:
  assumes "registry_inv reg" "e \<noteq> EVN_ANY" "e \<noteq> EVN_NO_ENTRY"
    "register_event_handler e (Some h) reg = (ok, reg')"
  shows "registry_inv reg' \<and> (ok \<longleftrightarrow> h \<in> set (handlers_of e reg) \<or> 0 < free_entries reg) \<and>
    (ok \<longrightarrow> set (handlers_of e reg') = insert h (set (handlers_of e reg))) \<and> (\<not> ok \<longrightarrow> reg' = reg) \<and>
    (\<forall>e'. e' \<noteq> e \<and> e' \<noteq> EVN_NO_ENTRY \<longrightarrow> handlers_of e' reg' = handlers_of e' reg)"
proof (cases "h \<in> set (handlers_of e reg)")
  case True
  then show ?thesis using assms by (auto simp: register_cases)
next
  case False
  show ?thesis
  proof (cases "fst (get_event_entry 0 EVN_NO_ENTRY None reg)")
    case None
    then show ?thesis using assms False free_entries_pos [of reg] by (simp add: register_cases)
  next
    case (Some i)
    note i = get_event_entry_Some [OF Some]
    have free: "event_id (reg ! i) = EVN_NO_ENTRY" using i(2) by (simp add: entry_matches_def)
    have res: "ok" "reg' = reg[i := \<lparr>event_id = e, handler = Some h\<rparr>]"
      using assms False Some by (simp_all add: register_cases)
    obtain xs ys where "handlers_of e reg = xs @ ys" "handlers_of e reg' = xs @ h # ys"
      using handlers_of_update_new [OF i(1), of e h] free assms(3) res(2) by metis
    then have new: "set (handlers_of e reg') = insert h (set (handlers_of e reg))" by auto
    have old: "\<forall>e'. e' \<noteq> e \<and> e' \<noteq> EVN_NO_ENTRY \<longrightarrow> handlers_of e' reg' = handlers_of e' reg"
    proof (intro allI impI)
      fix e' assume "e' \<noteq> e \<and> e' \<noteq> EVN_NO_ENTRY"
      then show "handlers_of e' reg' = handlers_of e' reg"
        using handlers_of_update_other [OF i(1), of e' "\<lparr>event_id = e, handler = Some h\<rparr>"] free res(2)
        by auto
    qed
    show ?thesis
      using new old res(1) Some free_entries_pos [of reg] register_inv [OF assms(1-3), of h] assms(4) by auto
  qed
qed

definition new_registry :: "EventHandlerRegistry list" where
  "new_registry = replicate MAX_EVENT_HANDLERS no_entry"

lemma handlers_of_new [simp]: "handlers_of e (replicate n no_entry) = []"
proof (induction n)
  case (Suc n)
  have "(if event_id no_entry = e then handler no_entry else None) = None" by (simp add: no_entry_def)
  with Suc show ?case by simp
qed simp

lemma new_registry_inv: "registry_inv new_registry"
  by (simp add: registry_inv_def new_registry_def) (simp add: no_entry_def)

lemma register_handler_witness:
  "set (handlers_of EVN_BUT_PRESS (snd (register_event_handler EVN_BUT_PRESS (Some 7) new_registry))) = {7}"
proof -
  have "0 < free_entries new_registry"
    by (simp add: free_entries_def new_registry_def no_entry_def MAX_EVENT_HANDLERS_def)
  then show ?thesis
    using register_handler [OF new_registry_inv _ _ prod.collapse [symmetric], of EVN_BUT_PRESS 7]
    by (simp add: new_registry_def)
qed

text \<open>Unregistering a handler removes it from every event and keeps the other handlers of
  each event in their order.\<close>

lemma unregister_handler:
  assumes "registry_inv reg"
  shows "registry_inv (unregister_event_handler (Some h) reg) \<and>
    (\<forall>e. e \<noteq> EVN_NO_ENTRY \<longrightarrow>
       handlers_of e (unregister_event_handler (Some h) reg) = filter (\<lambda>k. k \<noteq> h) (handlers_of e reg))"
  using unregister_handler_inv [OF assms]
  by (simp add: unregister_event_handler_map handlers_of_map_no_entry handlers_of_filter_handler)

lemma unregister_handler_witness:
  "registry_inv (unregister_event_handler (Some 7)
     (snd (register_event_handler EVN_BUT_PRESS (Some 7) new_registry)))"
  using unregister_handler [OF register_inv [OF new_registry_inv, of EVN_BUT_PRESS 7]] by simp

text \<open>C9: One event calls every handler registered for it exactly once, in the order of the
  table, with the time and the event's context, and no other handler (handlers that do not
  change the registry).\<close>

theorem dispatch_calls_registered:
  assumes "length reg = MAX_EVENT_HANDLERS" "evn_id ev \<noteq> EVN_ANY"
    "\<And>h reg w. call h ms (evn_ctx ev) (reg, w) = (reg, f h w)"
  shows "dispatch call ms ev (reg, w) = Some (reg, fold f (handlers_of (evn_id ev) reg) w)"
proof -
  have "dispatch_from (Suc MAX_EVENT_HANDLERS) 0 call ms ev (reg, w) =
      Some (reg, fold f (handlers_of (evn_id ev) (drop 0 reg)) w)"
    by (rule dispatch_from_handlers) (use assms in simp_all)
  then show ?thesis by (simp add: dispatch_def)
qed

theorem dispatch_calls_registered_witness:
  "dispatch (\<lambda>h ms ctx (reg, w). (reg, w @ [(h, ctx)])) 5 \<lparr>evn_id = EVN_BUT_PRESS, evn_ctx = 3\<rparr>
     (snd (register_event_handler EVN_BUT_PRESS (Some 7) new_registry), []) =
   Some (snd (register_event_handler EVN_BUT_PRESS (Some 7) new_registry), [(7, 3)])"
proof -
  let ?reg = "snd (register_event_handler EVN_BUT_PRESS (Some 7) new_registry)"
  have seek: "fst (get_event_entry 0 EVN_NO_ENTRY None new_registry) = Some 0"
    by (simp add: get_event_entry_def seek_entry.simps new_registry_def entry_matches_def
        no_entry_def MAX_EVENT_HANDLERS_def)
  have new: "new_registry = no_entry # replicate 99 no_entry"
    using replicate_Suc [of 99 no_entry] by (simp add: new_registry_def MAX_EVENT_HANDLERS_def)
  have empty: "handlers_of EVN_BUT_PRESS new_registry = []" by (simp add: new_registry_def)
  have "?reg = new_registry[0 := \<lparr>event_id = EVN_BUT_PRESS, handler = Some 7\<rparr>]"
    using seek empty by (simp add: register_cases)
  then have reg: "?reg = \<lparr>event_id = EVN_BUT_PRESS, handler = Some 7\<rparr> # replicate 99 no_entry"
    unfolding new list_update.simps nat.case .
  have hs: "handlers_of EVN_BUT_PRESS ?reg = [7]" "length ?reg = MAX_EVENT_HANDLERS"
    unfolding reg by (simp_all only: handlers_of_Cons handlers_of_new) (simp_all add: MAX_EVENT_HANDLERS_def)
  show ?thesis
    using dispatch_calls_registered [OF hs(2), of "\<lparr>evn_id = EVN_BUT_PRESS, evn_ctx = 3\<rparr>"
        "\<lambda>h ms ctx (reg, w). (reg, w @ [(h, ctx)])" 5 "\<lambda>h w. w @ [(h, 3)]" "[]"] hs(1)
    by simp
qed

text \<open>The dispatch of an event ends whatever the handlers do to the registry, even if they
  register themselves again: the search only moves forward.\<close>

lemma dispatch_returns:
  assumes "length reg = MAX_EVENT_HANDLERS"
    "\<And>h reg w. length (fst (call h ms (evn_ctx ev) (reg, w))) = length reg"
  shows "\<exists>reg' w'. dispatch call ms ev (reg, w) = Some (reg', w') \<and> length reg' = MAX_EVENT_HANDLERS"
proof -
  have "\<exists>reg' w'. dispatch_from (Suc MAX_EVENT_HANDLERS) 0 call ms ev (reg, w) = Some (reg', w') \<and>
      length reg' = length reg"
    by (rule dispatch_from_returns) (use assms in simp_all)
  then show ?thesis using assms(1) by (simp add: dispatch_def)
qed

lemma dispatch_returns_witness:
  "\<exists>reg' w'. dispatch (\<lambda>h ms ctx (reg, w). (snd (register_event_handler EVN_BUT_PRESS (Some w) reg), Suc w))
     5 \<lparr>evn_id = EVN_BUT_PRESS, evn_ctx = 3\<rparr> (new_registry, 0) = Some (reg', w') \<and>
     length reg' = MAX_EVENT_HANDLERS"
  by (rule dispatch_returns)
    (simp_all add: new_registry_def register_cases split: option.split)

end
