(* ===== verification/Event_Timer.thy ===== *)
theory Event_Timer
  imports Event_Manager
begin

text \<open>
  Periodic events, \<open>components/event_manager/event_time_manager.c\<close>: a list of 50 slots and
  the handler of the 1 ms timer, which first installs the requests sent meanwhile and then
  counts every slot down.  The two FreeRTOS queues are lists here: the requests the handler
  finds are its argument, the events it sends its result.  An \<open>int32_t\<close> is an integer in its
  range; \<open>-1\<close> (\<open>FOREVER\<close>) never counts down.
\<close>

section \<open>The list\<close>

definition PERIODIC_EVN_LIST_LEN :: nat where "PERIODIC_EVN_LIST_LEN = 50"

definition NO_CALL :: int where "NO_CALL = 0"
definition FOREVER :: int where "FOREVER = -1"

record PeriodicEvent =
  evn :: DevEvn
  invoke :: int
  init_delay :: u64
  delay :: u64

definition start_periodic_event :: "EventId \<Rightarrow> u32 \<Rightarrow> u64 \<Rightarrow> int \<Rightarrow> PeriodicEvent" where
  "start_periodic_event e ctx d n =
     \<lparr>evn = \<lparr>evn_id = e, evn_ctx = ctx\<rparr>, invoke = n, init_delay = d, delay = d\<rparr>"

definition stop_periodic_event :: "EventId \<Rightarrow> PeriodicEvent" where
  "stop_periodic_event e = start_periodic_event e 0 0 NO_CALL"

text \<open>The two search loops of \<open>push_periodic_event\<close>: the first slot that satisfies \<open>P\<close>.\<close>

fun first_slot :: "(PeriodicEvent \<Rightarrow> bool) \<Rightarrow> PeriodicEvent list \<Rightarrow> nat option" where
  "first_slot P [] = None"
| "first_slot P (p # ps) = (if P p then Some 0 else map_option Suc (first_slot P ps))"

definition push_periodic_event :: "PeriodicEvent \<Rightarrow> PeriodicEvent list \<Rightarrow> PeriodicEvent list" where
  "push_periodic_event new ps =
     (let store = (\<lambda>i p. ps[i := p\<lparr>init_delay := init_delay new, delay := init_delay new,
                                 invoke := invoke new,
                                 evn := (evn p)\<lparr>evn_ctx := evn_ctx (evn new)\<rparr>\<rparr>]) in
      (case first_slot (\<lambda>p. evn_id (evn p) = evn_id (evn new)) ps of
         Some i \<Rightarrow> store i (ps ! i)
       | None \<Rightarrow>
           (case first_slot (\<lambda>p. invoke p = NO_CALL) ps of
              Some i \<Rightarrow> store i ((ps ! i)\<lparr>evn := (evn (ps ! i))\<lparr>evn_id := evn_id (evn new)\<rparr>\<rparr>)
            | None \<Rightarrow> ps)))"

text \<open>One slot in one tick: the slot afterwards, and whether its event is sent.\<close>

definition tick_slot :: "PeriodicEvent \<Rightarrow> PeriodicEvent \<times> bool" where
  "tick_slot p =
     (if invoke p = NO_CALL then (p, False)
      else
        let p = (if delay p > 0 then p\<lparr>delay := delay p - 1\<rparr> else p) in
        if delay p = 0
        then let p = (if invoke p > 0 then p\<lparr>invoke := invoke p - 1\<rparr> else p);
                 p = (if invoke p \<noteq> NO_CALL then p\<lparr>delay := init_delay p\<rparr> else p)
             in (p, True)
        else (p, False))"

record timer =
  periodic_evn_list :: "PeriodicEvent list"
  ms_counter :: u32

text \<open>
  \<open>periodic_event_timer_handler\<close>: \<open>news\<close> is what is taken from the queue of requests, the
  second result what is sent to the event queue.
\<close>

definition periodic_event_timer_handler :: "PeriodicEvent list \<Rightarrow> timer \<Rightarrow> timer \<times> DevEvn list" where
  "periodic_event_timer_handler news t =
     (let ps = fold push_periodic_event news (periodic_evn_list t);
          ticks = map tick_slot ps
      in (t\<lparr>periodic_evn_list := map fst ticks, ms_counter := ms_counter t + 1\<rparr>,
          map (\<lambda>(p, sent). evn p) (filter snd ticks)))"

section \<open>A slot in time\<close>

text \<open>The slot after \<open>n\<close> ticks without new requests, and how often it fired.\<close>

fun slot_after :: "nat \<Rightarrow> PeriodicEvent \<Rightarrow> PeriodicEvent" where
  "slot_after 0 p = p"
| "slot_after (Suc n) p = slot_after n (fst (tick_slot p))"

fun fired :: "nat \<Rightarrow> PeriodicEvent \<Rightarrow> nat" where
  "fired 0 p = 0"
| "fired (Suc n) p = (if snd (tick_slot p) then 1 else 0) + fired n (fst (tick_slot p))"

lemma fired_stopped: "invoke p = NO_CALL \<Longrightarrow> fired n p = 0"
  by (induction n) (simp_all add: tick_slot_def)

lemma slot_stopped: "invoke p = NO_CALL \<Longrightarrow> slot_after n p = p"
  by (induction n) (simp_all add: tick_slot_def)

lemma fired_add: "fired (m + n) p = fired m p + fired n (slot_after m p)"
  by (induction m arbitrary: p) simp_all

lemma slot_after_Suc: "slot_after (Suc n) p = fst (tick_slot (slot_after n p))"
  by (induction n arbitrary: p) simp_all

text \<open>Counting down to the next firing.\<close>

lemma countdown:
  "invoke p \<noteq> NO_CALL \<Longrightarrow> n < unat (delay p) \<Longrightarrow>
   fired n p = 0 \<and> slot_after n p = p\<lparr>delay := delay p - of_nat n\<rparr>"
proof (induction n arbitrary: p)
  case 0
  then show ?case by simp
next
  case (Suc n)
  have pos: "delay p > 0" "delay p \<noteq> 1" "unat (delay p - 1) = unat (delay p) - 1"
  proof -
    have nz: "delay p \<noteq> 0" using Suc.prems(2) by auto
    then show "delay p > 0" by (simp add: word_gt_0)
    show "delay p \<noteq> 1" using Suc.prems(2) by auto
    show "unat (delay p - 1) = unat (delay p) - 1" using nz by (simp add: unat_minus_one)
  qed
  then have t: "tick_slot p = (p\<lparr>delay := delay p - 1\<rparr>, False)"
    using Suc.prems(1) by (simp add: tick_slot_def Let_def)
  then show ?case
    using Suc.IH [of "p\<lparr>delay := delay p - 1\<rparr>"] Suc.prems pos(3) by (simp add: algebra_simps)
qed

text \<open>One full period of a slot that was just started.\<close>

lemma one_period:
  assumes "invoke p \<noteq> NO_CALL" "delay p = init_delay p" "delay p \<noteq> 0"
  shows "fired (unat (delay p)) p = 1 \<and>
    slot_after (unat (delay p)) p =
      (if invoke p = 1 then p\<lparr>invoke := 0, delay := 0\<rparr>
       else p\<lparr>invoke := (if invoke p > 0 then invoke p - 1 else invoke p)\<rparr>)"
proof -
  let ?n = "unat (delay p) - 1"
  have n: "unat (delay p) = ?n + 1" using assms(3) by (simp add: Suc_leI unat_gt_0)
  have "?n < unat (delay p)" using n by linarith
  note c = countdown [OF assms(1) this]
  have "?n = unat (delay p - 1)" using assms(3) by (simp add: unat_minus_one)
  then have "(of_nat ?n :: u64) = delay p - 1" by (simp only: of_nat_unat ucast_id)
  then have "slot_after ?n p = p\<lparr>delay := 1\<rparr>" using c by simp
  moreover have "tick_slot (p\<lparr>delay := 1\<rparr>) =
      ((if invoke p = 1 then p\<lparr>invoke := 0, delay := 0\<rparr>
        else p\<lparr>invoke := (if invoke p > 0 then invoke p - 1 else invoke p)\<rparr>), True)"
    using assms by (cases p) (auto simp: tick_slot_def NO_CALL_def Let_def)
  moreover have "fired (?n + 1) p = fired ?n p + fired 1 (slot_after ?n p)" by (rule fired_add)
  moreover have "slot_after (?n + 1) p = fst (tick_slot (slot_after ?n p))"
    using slot_after_Suc [of ?n p] by simp
  moreover have "fired ?n p = 0" using c by simp
  ultimately have "fired (?n + 1) p = 1 \<and> slot_after (?n + 1) p =
      (if invoke p = 1 then p\<lparr>invoke := 0, delay := 0\<rparr>
       else p\<lparr>invoke := (if invoke p > 0 then invoke p - 1 else invoke p)\<rparr>)" by simp
  then show ?thesis using n by simp
qed

lemma fired_count:
  assumes "delay p = init_delay p" "delay p \<noteq> 0"
  shows "fired m p = (if invoke p < 0 then m div unat (delay p) else min (nat (invoke p)) (m div unat (delay p)))"
  using assms
proof (induction m arbitrary: p rule: less_induct)
  case (less m)
  let ?d = "unat (delay p)"
  have d: "0 < ?d" using less.prems(2) by (simp add: unat_gt_0)
  show ?case
  proof (cases "invoke p = NO_CALL")
    case True
    then show ?thesis by (simp add: fired_stopped NO_CALL_def)
  next
    case inv: False
    show ?thesis
    proof (cases "m < ?d")
      case True
      then show ?thesis using countdown [OF inv True] by simp
    next
      case False
      let ?q = "slot_after ?d p"
      have per: "fired ?d p = 1" "?q = (if invoke p = 1 then p\<lparr>invoke := 0, delay := 0\<rparr>
          else p\<lparr>invoke := (if invoke p > 0 then invoke p - 1 else invoke p)\<rparr>)"
        using one_period [OF inv less.prems] by auto
      have split: "fired m p = 1 + fired (m - ?d) ?q"
        using fired_add [of ?d "m - ?d" p] False per(1) by simp
      have m: "m div ?d = 1 + (m - ?d) div ?d" using False d by (simp add: le_div_geq)
      show ?thesis
      proof (cases "invoke p = 1")
        case True
        then show ?thesis using split per(2) m by (simp add: fired_stopped NO_CALL_def)
      next
        case one: False
        let ?r = "p\<lparr>invoke := (if invoke p > 0 then invoke p - 1 else invoke p)\<rparr>"
        have "fired (m - ?d) ?r = (if invoke ?r < 0 then (m - ?d) div ?d else min (nat (invoke ?r)) ((m - ?d) div ?d))"
          using less.IH [of "m - ?d" ?r] False d less.prems by simp
        then show ?thesis using split per(2) m one inv by (auto simp: NO_CALL_def min_def nat_diff_distrib)
      qed
    qed
  qed
qed

section \<open>The whole list\<close>

lemma tick_slot_evn [simp]: "evn (fst (tick_slot p)) = evn p"
  by (simp add: tick_slot_def Let_def)

text \<open>The handler \<open>n\<close> times without new requests: the timer and the events sent.\<close>

fun quiet_ticks :: "nat \<Rightarrow> timer \<Rightarrow> timer \<times> DevEvn list" where
  "quiet_ticks 0 t = (t, [])"
| "quiet_ticks (Suc n) t =
     (let (t, out) = periodic_event_timer_handler [] t; (t', out') = quiet_ticks n t in (t', out @ out'))"

definition sent :: "EventId \<Rightarrow> DevEvn list \<Rightarrow> nat" where
  "sent e out = length (filter (\<lambda>x. evn_id x = e) out)"

lemma sent_append [simp]: "sent e (xs @ ys) = sent e xs + sent e ys"
  by (simp add: sent_def)

definition fired_all :: "nat \<Rightarrow> EventId \<Rightarrow> PeriodicEvent list \<Rightarrow> nat" where
  "fired_all n e ps = sum_list (map (\<lambda>p. if evn_id (evn p) = e then fired n p else 0) ps)"

lemma sent_tick:
  "sent e (map (\<lambda>(p, s). evn p) (filter snd (map tick_slot ps))) + fired_all n e (map (fst \<circ> tick_slot) ps) =
   fired_all (Suc n) e ps"
proof (induction ps)
  case Nil
  then show ?case by (simp add: sent_def fired_all_def)
next
  case (Cons p ps)
  obtain p' s where "tick_slot p = (p', s)" by fastforce
  moreover have "evn p' = evn p" using calculation tick_slot_evn [of p] by simp
  ultimately show ?case using Cons by (simp add: sent_def fired_all_def)
qed

lemma sent_quiet_ticks: "sent e (snd (quiet_ticks n t)) = fired_all n e (periodic_evn_list t)"
proof (induction n arbitrary: t)
  case 0
  have "fired_all 0 e ps = 0" for ps
    by (simp only: fired_all_def fired.simps if_cancel sum_list_0)
  then show ?case by (simp add: sent_def)
next
  case (Suc n)
  let ?h = "periodic_event_timer_handler [] t" and ?ps = "periodic_evn_list t"
  have h: "periodic_evn_list (fst ?h) = map (fst \<circ> tick_slot) ?ps"
    "snd ?h = map (\<lambda>(p, s). evn p) (filter snd (map tick_slot ?ps))"
    by (simp_all add: periodic_event_timer_handler_def Let_def)
  have "snd (quiet_ticks (Suc n) t) = snd ?h @ snd (quiet_ticks n (fst ?h))"
    by (simp add: case_prod_beta)
  then have "sent e (snd (quiet_ticks (Suc n) t)) =
      sent e (snd ?h) + fired_all n e (periodic_evn_list (fst ?h))"
    unfolding sent_append Suc.IH [symmetric] by simp
  also have "\<dots> = fired_all (Suc n) e ?ps" unfolding h by (rule sent_tick)
  finally show ?case .
qed

text \<open>Apart from the unused slots, whose event is \<open>EVN_NO_ENTRY\<close>, an event has one slot.\<close>

definition used_ids :: "PeriodicEvent list \<Rightarrow> EventId list" where
  "used_ids ps = filter (\<lambda>e. e \<noteq> EVN_NO_ENTRY) (map (\<lambda>p. evn_id (evn p)) ps)"

definition list_inv :: "PeriodicEvent list \<Rightarrow> bool" where
  "list_inv ps \<longleftrightarrow> length ps = PERIODIC_EVN_LIST_LEN \<and> distinct (used_ids ps)"

lemma fired_all_none: "e \<notin> (\<lambda>p. evn_id (evn p)) ` set ps \<Longrightarrow> fired_all n e ps = 0"
  by (induction ps) (auto simp: fired_all_def)

lemma used_ids_Cons [simp]:
  "used_ids (p # ps) = (if evn_id (evn p) = EVN_NO_ENTRY then [] else [evn_id (evn p)]) @ used_ids ps"
  by (simp add: used_ids_def)

lemma set_used_ids: "set (used_ids ps) = (\<lambda>p. evn_id (evn p)) ` set ps - {EVN_NO_ENTRY}"
  by (auto simp: used_ids_def)

lemma fired_all_unique:
  "distinct (used_ids ps) \<Longrightarrow> p \<in> set ps \<Longrightarrow> evn_id (evn p) = e \<Longrightarrow> e \<noteq> EVN_NO_ENTRY \<Longrightarrow>
   fired_all n e ps = fired n p"
proof (induction ps)
  case Nil
  then show ?case by simp
next
  case (Cons q ps)
  show ?case
  proof (cases "evn_id (evn q) = e")
    case True
    then have "e \<notin> (\<lambda>p. evn_id (evn p)) ` set ps"
      using Cons.prems(1,4) by (auto simp: set_used_ids)
    then have "fired_all n e ps = 0" "p = q" using fired_all_none Cons.prems(2,3) by force+
    with True show ?thesis by (simp add: fired_all_def)
  next
    case False
    then show ?thesis using Cons by (auto simp: fired_all_def)
  qed
qed

section \<open>Starting and stopping\<close>

lemma first_slot_Some:
  "first_slot P ps = Some i \<Longrightarrow> i < length ps \<and> P (ps ! i) \<and> (\<forall>j < i. \<not> P (ps ! j))"
proof (induction ps arbitrary: i)
  case Nil
  then show ?case by simp
next
  case (Cons p ps)
  then show ?case by (auto simp: nth_Cons less_Suc_eq_0_disj split: if_splits nat.splits)
qed

lemma first_slot_None: "first_slot P ps = None \<longleftrightarrow> (\<forall>p \<in> set ps. \<not> P p)"
  by (induction ps) auto

text \<open>The slot a request takes: the one its event has, or else the first that is stopped.\<close>

definition slot_of :: "EventId \<Rightarrow> PeriodicEvent list \<Rightarrow> nat option" where
  "slot_of e ps =
     (case first_slot (\<lambda>p. evn_id (evn p) = e) ps of
        Some i \<Rightarrow> Some i | None \<Rightarrow> first_slot (\<lambda>p. invoke p = NO_CALL) ps)"

lemma overwrite_slot:
  "x\<lparr>init_delay := d, delay := d, invoke := n, evn := (evn x)\<lparr>evn_id := e, evn_ctx := ctx\<rparr>\<rparr> =
   start_periodic_event e ctx d n"
  "evn_id (evn x) = e \<Longrightarrow>
   x\<lparr>init_delay := d, delay := d, invoke := n, evn := (evn x)\<lparr>evn_ctx := ctx\<rparr>\<rparr> =
   start_periodic_event e ctx d n" for x :: PeriodicEvent
  by (cases x; cases "evn x"; simp add: start_periodic_event_def)+

lemma start_fields [simp]:
  "evn (start_periodic_event e ctx d n) = \<lparr>evn_id = e, evn_ctx = ctx\<rparr>"
  "invoke (start_periodic_event e ctx d n) = n"
  "init_delay (start_periodic_event e ctx d n) = d"
  "delay (start_periodic_event e ctx d n) = d"
  by (simp_all add: start_periodic_event_def)

lemma push_start:
  "push_periodic_event (start_periodic_event e ctx d n) ps =
   (case slot_of e ps of Some i \<Rightarrow> ps[i := start_periodic_event e ctx d n] | None \<Rightarrow> ps)"
proof (cases "first_slot (\<lambda>p. evn_id (evn p) = e) ps")
  case None
  then show ?thesis
    by (simp add: push_periodic_event_def slot_of_def overwrite_slot(1) split: option.split)
next
  case (Some i)
  then have "evn_id (evn (ps ! i)) = e" using first_slot_Some by fastforce
  with Some show ?thesis by (simp add: push_periodic_event_def slot_of_def overwrite_slot(2))
qed

lemma used_ids_update:
  "i < length ps \<Longrightarrow> evn_id (evn q) = evn_id (evn (ps ! i)) \<Longrightarrow> used_ids (ps[i := q]) = used_ids ps"
  by (simp add: used_ids_def map_update) (metis length_map list_update_id nth_map)

lemma used_ids_update_new:
  "i < length ps \<Longrightarrow> distinct (used_ids ps) \<Longrightarrow> evn_id (evn q) \<notin> set (used_ids ps) \<Longrightarrow>
   distinct (used_ids (ps[i := q]))"
proof (induction ps arbitrary: i)
  case Nil
  then show ?case by simp
next
  case (Cons p ps)
  show ?case
  proof (cases i)
    case 0
    with Cons.prems show ?thesis by (auto split: if_splits)
  next
    case (Suc k)
    have "distinct (used_ids (ps[k := q]))" using Cons Suc by (auto split: if_splits)
    moreover have "set (used_ids (ps[k := q])) \<subseteq> insert (evn_id (evn q)) (set (used_ids ps))"
      using set_update_subset_insert [of ps k q] by (auto simp: set_used_ids)
    ultimately show ?thesis using Cons.prems Suc by (auto split: if_splits)
  qed
qed

lemma list_inv_push:
  assumes "list_inv ps"
  shows "list_inv (push_periodic_event (start_periodic_event e ctx d n) ps)"
proof (cases "slot_of e ps")
  case None
  with assms show ?thesis by (simp add: push_start)
next
  case (Some i)
  let ?q = "start_periodic_event e ctx d n"
  show ?thesis
  proof (cases "first_slot (\<lambda>p. evn_id (evn p) = e) ps")
    case None
    then have "e \<notin> set (used_ids ps)" by (auto simp: first_slot_None set_used_ids)
    moreover have "i < length ps" using Some None first_slot_Some by (fastforce simp: slot_of_def)
    ultimately have "distinct (used_ids (ps[i := ?q]))"
      using assms used_ids_update_new [of i ps ?q] by (simp add: list_inv_def)
    then show ?thesis using Some assms by (simp add: push_start list_inv_def)
  next
    case (Some j)
    then have "i < length ps" "evn_id (evn (ps ! i)) = e"
      using \<open>slot_of e ps = Some i\<close> first_slot_Some by (fastforce simp: slot_of_def)+
    then have "used_ids (ps[i := ?q]) = used_ids ps" by (intro used_ids_update) simp_all
    then show ?thesis using \<open>slot_of e ps = Some i\<close> assms by (simp add: push_start list_inv_def)
  qed
qed

text \<open>Every request in the queue was made by \<open>start_periodic_event\<close> (or \<open>stop_periodic_event\<close>).\<close>

type_synonym request_args = "EventId \<times> u32 \<times> u64 \<times> int"

definition timer_step :: "request_args list \<Rightarrow> timer \<Rightarrow> timer" where
  "timer_step reqs t =
     fst (periodic_event_timer_handler (map (\<lambda>(e, c, d, n). start_periodic_event e c d n) reqs) t)"

definition timer_inv :: "timer \<Rightarrow> bool" where
  "timer_inv t \<longleftrightarrow> list_inv (periodic_evn_list t)"

lemma list_inv_pushes:
  "list_inv ps \<Longrightarrow> list_inv (fold push_periodic_event (map (\<lambda>(e, c, d, n). start_periodic_event e c d n) reqs) ps)"
  by (induction reqs arbitrary: ps) (auto simp: list_inv_push)

lemma list_inv_ticks: "list_inv ps \<Longrightarrow> list_inv (map (fst \<circ> tick_slot) ps)"
  by (simp add: list_inv_def used_ids_def comp_def)

interpretation event_timer: step_system timer_step timer_inv
proof unfold_locales
  fix t reqs
  assume "timer_inv t"
  then show "timer_inv (timer_step reqs t)"
    using list_inv_ticks [OF list_inv_pushes]
    by (simp add: timer_inv_def timer_step_def periodic_event_timer_handler_def Let_def)
qed

section \<open>Properties\<close>

definition new_timer :: timer where
  "new_timer = \<lparr>periodic_evn_list = replicate PERIODIC_EVN_LIST_LEN (start_periodic_event EVN_NO_ENTRY 0 0 0),
     ms_counter = 0\<rparr>"

lemma new_timer_inv: "timer_inv new_timer"
  by (simp add: timer_inv_def new_timer_def list_inv_def used_ids_def)

text \<open>However requests and ticks interleave, an event never has two slots: a second start of
  an event replaces the first.\<close>

lemma one_slot_per_event:
  assumes "timer_inv t"
  shows "distinct (used_ids (periodic_evn_list (fold timer_step reqss t))) \<and>
    length (periodic_evn_list (fold timer_step reqss t)) = PERIODIC_EVN_LIST_LEN"
  using event_timer.run_inv [OF assms, of reqss] by (simp add: timer_inv_def list_inv_def)

lemma one_slot_per_event_witness:
  "distinct (used_ids (periodic_evn_list (fold timer_step
     [[(EVN_READ_GPIO, 1, 5, 3), (EVN_READ_GPIO, 2, 5, 2)], [], [(EVN_BUT_PRESS, 0, 1, -1)]] new_timer)))"
  using one_slot_per_event [OF new_timer_inv] by blast

text \<open>The number of events of a slot that was just started.\<close>

lemma periodic_event_count_aux:
  assumes "timer_inv t" "slot_of e (periodic_evn_list t) = Some i" "e \<noteq> EVN_NO_ENTRY" "d \<noteq> 0"
    "t' = t\<lparr>periodic_evn_list := push_periodic_event (start_periodic_event e ctx d n) (periodic_evn_list t)\<rparr>"
  shows "sent e (snd (quiet_ticks m t')) =
    (if n < 0 then m div unat d else min (nat n) (m div unat d))"
proof -
  let ?q = "start_periodic_event e ctx d n" and ?ps = "periodic_evn_list t"
  have ps': "periodic_evn_list t' = ?ps[i := ?q]" using assms(2,5) by (simp add: push_start)
  have "i < length ?ps"
    using assms(2) first_slot_Some by (fastforce simp: slot_of_def split: option.splits)
  then have "?q \<in> set (periodic_evn_list t')" unfolding ps' by (rule set_update_memI)
  moreover have "distinct (used_ids (periodic_evn_list t'))"
    using list_inv_push [of ?ps e ctx d n] assms(1,5) by (simp add: timer_inv_def list_inv_def)
  ultimately have "fired_all m e (periodic_evn_list t') = fired m ?q"
    using fired_all_unique assms(3) by simp
  then show ?thesis using fired_count [of ?q m] assms(4) by (simp add: sent_quiet_ticks)
qed

text \<open>C8: An event started with a period of \<open>d\<close> ms and \<open>n\<close> calls is sent once every \<open>d\<close> ticks,
  \<open>n\<close> times in all, or without end for a negative \<open>n\<close>: in the first \<open>m\<close> ticks it is sent
  \<open>m div d\<close> times, cut to \<open>n\<close>.\<close>

theorem periodic_event_count:
  assumes "timer_inv t" "slot_of e (periodic_evn_list t) = Some i" "e \<noteq> EVN_NO_ENTRY" "d \<noteq> 0"
    "t' = t\<lparr>periodic_evn_list := push_periodic_event (start_periodic_event e ctx d n) (periodic_evn_list t)\<rparr>"
  shows "sent e (snd (quiet_ticks m t')) =
    (if n < 0 then m div unat d else min (nat n) (m div unat d))"
  using assms by (rule periodic_event_count_aux)

theorem periodic_event_count_witness:
  "sent EVN_READ_GPIO (snd (quiet_ticks 31 (new_timer\<lparr>periodic_evn_list :=
     push_periodic_event (start_periodic_event EVN_READ_GPIO 1 5 3) (periodic_evn_list new_timer)\<rparr>))) = 3"
proof -
  have "slot_of EVN_READ_GPIO (periodic_evn_list new_timer) = Some 0"
    by (simp add: slot_of_def new_timer_def PERIODIC_EVN_LIST_LEN_def NO_CALL_def first_slot_None numeral_eq_Suc)
  from periodic_event_count [OF new_timer_inv this _ _ refl, where d = 5 and ctx = 1 and n = 3 and m = 31] show ?thesis by simp
qed

text \<open>A stopped event is not sent again until it is started anew.\<close>

lemma stopped_event_is_silent:
  assumes "timer_inv t" "e \<noteq> EVN_NO_ENTRY"
    "t' = t\<lparr>periodic_evn_list := push_periodic_event (stop_periodic_event e) (periodic_evn_list t)\<rparr>"
  shows "sent e (snd (quiet_ticks m t')) = 0"
proof (cases "slot_of e (periodic_evn_list t)")
  case None
  then have "first_slot (\<lambda>p. evn_id (evn p) = e) (periodic_evn_list t) = None"
    by (simp add: slot_of_def split: option.splits)
  then have "e \<notin> (\<lambda>p. evn_id (evn p)) ` set (periodic_evn_list t)" by (auto simp: first_slot_None)
  moreover have "periodic_evn_list t' = periodic_evn_list t"
    using assms(3) None by (simp add: stop_periodic_event_def push_start)
  ultimately show ?thesis by (simp add: sent_quiet_ticks fired_all_none)
next
  case (Some i)
  let ?q = "start_periodic_event e 0 0 NO_CALL" and ?ps = "periodic_evn_list t"
  have ps': "periodic_evn_list t' = ?ps[i := ?q]"
    using assms(3) Some by (simp add: stop_periodic_event_def push_start)
  have "i < length ?ps"
    using Some first_slot_Some by (fastforce simp: slot_of_def split: option.splits)
  then have "?q \<in> set (periodic_evn_list t')" unfolding ps' by (rule set_update_memI)
  moreover have "distinct (used_ids (periodic_evn_list t'))"
    using list_inv_push [of ?ps e 0 0 NO_CALL] assms(1,3)
    by (simp add: timer_inv_def list_inv_def stop_periodic_event_def)
  ultimately show ?thesis
    using fired_all_unique [of _ ?q e m] assms(2) by (simp add: sent_quiet_ticks fired_stopped)
qed

lemma stopped_event_is_silent_witness:
  "sent EVN_READ_GPIO (snd (quiet_ticks 100 (new_timer\<lparr>periodic_evn_list :=
     push_periodic_event (stop_periodic_event EVN_READ_GPIO) (periodic_evn_list new_timer)\<rparr>))) = 0"
  by (rule stopped_event_is_silent [OF new_timer_inv _ refl]) simp

end
