(* ===== verification/Event_System.thy ===== *)
theory Event_System
  imports Event_Timer
begin

text \<open>
  The event system as a whole: the task of \<open>event_manager.c\<close>, the 1 ms timer of
  \<open>event_time_manager.c\<close> and the other tasks, which run interleaved and share the registry and
  the two FreeRTOS queues.  A queue is a list of at most its length, or \<open>None\<close> before it is
  created.  A step of the relation below is a call of the interface, one run of the timer's
  handler, or one access of \<open>event_manager_task\<close> to the registry: its loop finds an entry,
  compares the entry's handler with the null pointer, reads the handler again, and calls what
  it read, and the other tasks may run between any two of these.  A search for the next entry
  and a call of the interface are one step each.
\<close>

section \<open>State and operations\<close>

definition EVN_QUEUE_LEN :: nat where "EVN_QUEUE_LEN = 20"
definition NEW_EVN_QUEUE_LEN :: nat where "NEW_EVN_QUEUE_LEN = 10"

text \<open>The calls of the interface, and what a handler does: calls whose results it may look at.\<close>

datatype api =
    Set_event EventId u32
  | Start_periodic_event EventId u32 u64 int
  | Stop_periodic_event EventId
  | Register_event_handler EventId "nat option"
  | Unregister_event_handler "nat option"
  | Unregister_event_id EventId

datatype prog = Return | Call api "bool \<Rightarrow> prog"

text \<open>
  Where \<open>event_manager_task\<close> is: waiting for an event, searching from \<open>i\<close>, at an entry \<open>j\<close> it
  found, past the comparison with the null pointer, with the handler loaded for the call,
  inside a handler, or after a call of the null pointer.
\<close>

datatype manager =
    Waiting
  | Searching DevEvn u32 nat
  | Found DevEvn u32 nat nat
  | Checked DevEvn u32 nat nat
  | Loaded DevEvn u32 nat "nat option"
  | Inside DevEvn u32 nat prog
  | Crashed

record event_system =
  event_handler_registry :: "EventHandlerRegistry list"
  periodic_timer :: timer
  evn_queue :: "DevEvn list option"
  periodic_evn_queue :: "PeriodicEvent list option"
  manager_task :: "manager option"

text \<open>\<open>xQueueSendToBack\<close> and \<open>xQueueSendFromISR\<close> on a queue of \<open>n\<close> places.\<close>

definition queue_send :: "nat \<Rightarrow> 'a \<Rightarrow> 'a list \<Rightarrow> bool \<times> 'a list" where
  "queue_send n x q = (if length q < n then (True, q @ [x]) else (False, q))"

definition send_events :: "DevEvn list \<Rightarrow> DevEvn list \<Rightarrow> DevEvn list" where
  "send_events evs q = fold (\<lambda>ev q. snd (queue_send EVN_QUEUE_LEN ev q)) evs q"

text \<open>
  A call of the interface: \<open>None\<close> when it uses a queue that does not exist, which FreeRTOS
  asserts.
\<close>

definition request_periodic :: "PeriodicEvent \<Rightarrow> event_system \<Rightarrow> (bool \<times> event_system) option" where
  "request_periodic p s =
     (case periodic_evn_queue s of
        None \<Rightarrow> None
      | Some q \<Rightarrow>
          (let (ok, q') = queue_send NEW_EVN_QUEUE_LEN p q in Some (ok, s\<lparr>periodic_evn_queue := Some q'\<rparr>)))"

fun do_api :: "api \<Rightarrow> event_system \<Rightarrow> (bool \<times> event_system) option" where
  "do_api (Set_event e ctx) s =
     (case evn_queue s of
        None \<Rightarrow> None
      | Some q \<Rightarrow>
          (let (ok, q') = set_event (queue_send EVN_QUEUE_LEN) e ctx q in Some (ok, s\<lparr>evn_queue := Some q'\<rparr>)))"
| "do_api (Start_periodic_event e ctx d n) s = request_periodic (start_periodic_event e ctx d n) s"
| "do_api (Stop_periodic_event e) s = request_periodic (stop_periodic_event e) s"
| "do_api (Register_event_handler e h) s =
     (let (ok, reg) = register_event_handler e h (event_handler_registry s)
      in Some (ok, s\<lparr>event_handler_registry := reg\<rparr>))"
| "do_api (Unregister_event_handler h) s =
     Some (True, s\<lparr>event_handler_registry := unregister_event_handler h (event_handler_registry s)\<rparr>)"
| "do_api (Unregister_event_id e) s =
     Some (True, s\<lparr>event_handler_registry := unregister_event_id e (event_handler_registry s)\<rparr>)"

text \<open>The two set-up functions; a second call does nothing.\<close>

definition init_event_time_manager :: "event_system \<Rightarrow> event_system" where
  "init_event_time_manager s =
     (if periodic_evn_queue s \<noteq> None then s
      else s\<lparr>periodic_timer := (periodic_timer s)\<lparr>ms_counter := 0\<rparr>, periodic_evn_queue := Some []\<rparr>)"

definition init_event_manager :: "event_system \<Rightarrow> event_system" where
  "init_event_manager s =
     (if evn_queue s \<noteq> None then s
      else (init_event_time_manager
              (s\<lparr>event_handler_registry := reset_event_list (event_handler_registry s),
                 evn_queue := Some []\<rparr>))\<lparr>manager_task := Some Waiting\<rparr>)"

text \<open>The memory at start: static objects are zero.\<close>

definition boot :: event_system where
  "boot = \<lparr>event_handler_registry = new_registry, periodic_timer = new_timer,
     evn_queue = None, periodic_evn_queue = None, manager_task = None\<rparr>"

section \<open>Steps\<close>

text \<open>
  What a step shows: a call of the interface with its result, by the handler that runs or by
  another task; a run of the timer with the events it sent and those that found room; an event
  taken from the queue; the call of a handler; or nothing.
\<close>

datatype who = Manager | Other

datatype obs =
    Act who api bool
  | Tick "DevEvn list" "DevEvn list"
  | Take DevEvn
  | Enter nat u32 u32
  | Tau

definition room :: "DevEvn list \<Rightarrow> nat" where
  "room q = EVN_QUEUE_LEN - length q"

text \<open>\<open>H h ms ctx\<close> is the set of things the handler \<open>h\<close> may do.\<close>

inductive sys_step ::
  "(nat \<Rightarrow> u32 \<Rightarrow> u32 \<Rightarrow> prog set) \<Rightarrow> event_system \<Rightarrow> obs \<Rightarrow> event_system \<Rightarrow> bool" for H where
  tick: "periodic_evn_queue s = Some news \<Longrightarrow> evn_queue s = Some q \<Longrightarrow>
    periodic_event_timer_handler news (periodic_timer s) = (t, evs) \<Longrightarrow>
    sys_step H s (Tick evs (take (room q) evs))
      (s\<lparr>periodic_timer := t, periodic_evn_queue := Some [], evn_queue := Some (send_events evs q)\<rparr>)"
| other: "do_api a s = Some (r, s') \<Longrightarrow> sys_step H s (Act Other a r) s'"
| take_event: "manager_task s = Some Waiting \<Longrightarrow> evn_queue s = Some (ev # q) \<Longrightarrow>
    sys_step H s (Take ev)
      (s\<lparr>evn_queue := Some q, manager_task := Some (Searching ev (ms_counter (periodic_timer s)) 0)\<rparr>)"
| found: "manager_task s = Some (Searching ev ms i) \<Longrightarrow>
    get_event_entry i (evn_id ev) None (event_handler_registry s) = (Some j, i') \<Longrightarrow>
    sys_step H s Tau (s\<lparr>manager_task := Some (Found ev ms i' j)\<rparr>)"
| finished: "manager_task s = Some (Searching ev ms i) \<Longrightarrow>
    get_event_entry i (evn_id ev) None (event_handler_registry s) = (None, i') \<Longrightarrow>
    sys_step H s Tau (s\<lparr>manager_task := Some Waiting\<rparr>)"
| no_handler: "manager_task s = Some (Found ev ms i j) \<Longrightarrow>
    handler (event_handler_registry s ! j) = None \<Longrightarrow>
    sys_step H s Tau (s\<lparr>manager_task := Some (Searching ev ms i)\<rparr>)"
| checked: "manager_task s = Some (Found ev ms i j) \<Longrightarrow>
    handler (event_handler_registry s ! j) \<noteq> None \<Longrightarrow>
    sys_step H s Tau (s\<lparr>manager_task := Some (Checked ev ms i j)\<rparr>)"
| load: "manager_task s = Some (Checked ev ms i j) \<Longrightarrow>
    sys_step H s Tau (s\<lparr>manager_task := Some (Loaded ev ms i (handler (event_handler_registry s ! j)))\<rparr>)"
| enter: "manager_task s = Some (Loaded ev ms i (Some h)) \<Longrightarrow> p \<in> H h ms (evn_ctx ev) \<Longrightarrow>
    sys_step H s (Enter h ms (evn_ctx ev)) (s\<lparr>manager_task := Some (Inside ev ms i p)\<rparr>)"
| crash: "manager_task s = Some (Loaded ev ms i None) \<Longrightarrow>
    sys_step H s Tau (s\<lparr>manager_task := Some Crashed\<rparr>)"
| handler_call: "manager_task s = Some (Inside ev ms i (Call a k)) \<Longrightarrow> do_api a s = Some (r, s') \<Longrightarrow>
    sys_step H s (Act Manager a r) (s'\<lparr>manager_task := Some (Inside ev ms i (k r))\<rparr>)"
| handler_return: "manager_task s = Some (Inside ev ms i Return) \<Longrightarrow>
    sys_step H s Tau (s\<lparr>manager_task := Some (Searching ev ms i)\<rparr>)"

text \<open>A run, with what its steps show.\<close>

inductive sys_run ::
  "(nat \<Rightarrow> u32 \<Rightarrow> u32 \<Rightarrow> prog set) \<Rightarrow> event_system \<Rightarrow> obs list \<Rightarrow> event_system \<Rightarrow> bool" for H where
  start: "sys_run H s [] s"
| step: "sys_run H s os s1 \<Longrightarrow> sys_step H s1 ob s2 \<Longrightarrow> sys_run H s (os @ [ob]) s2"

inductive_cases sys_step_tickE: "sys_step H s (Tick evs acc) s'"
inductive_cases sys_step_takeE: "sys_step H s (Take ev) s'"
inductive_cases sys_step_enterE: "sys_step H s (Enter h ms ctx) s'"

section \<open>Queues\<close>

lemma send_events_take: "length q \<le> EVN_QUEUE_LEN \<Longrightarrow> send_events evs q = q @ take (room q) evs"
proof (induction evs arbitrary: q)
  case Nil
  then show ?case by (simp add: send_events_def)
next
  case (Cons ev evs)
  have "send_events (ev # evs) q = send_events evs (snd (queue_send EVN_QUEUE_LEN ev q))"
    by (simp add: send_events_def)
  then show ?case using Cons.IH Cons.prems by (auto simp: queue_send_def room_def take_Cons')
qed

lemma queue_send_length: "length q \<le> n \<Longrightarrow> length (snd (queue_send n x q)) \<le> n"
  by (simp add: queue_send_def)

section \<open>The invariant\<close>

text \<open>A request only matters by its event, context, delay and count.\<close>

lemma push_as_start:
  "push_periodic_event new ps =
   push_periodic_event (start_periodic_event (evn_id (evn new)) (evn_ctx (evn new)) (init_delay new) (invoke new)) ps"
  by (simp add: push_periodic_event_def Let_def cong: option.case_cong)

lemma list_inv_fold_push: "list_inv ps \<Longrightarrow> list_inv (fold push_periodic_event news ps)"
proof (induction news arbitrary: ps)
  case (Cons new news)
  then have "list_inv (push_periodic_event new ps)" by (subst push_as_start) (rule list_inv_push)
  then show ?case using Cons.IH by simp
qed simp

lemma timer_inv_handler:
  "timer_inv t \<Longrightarrow> periodic_event_timer_handler news t = (t', evs) \<Longrightarrow> timer_inv t'"
  using list_inv_ticks [OF list_inv_fold_push [of "periodic_evn_list t" news]]
  by (auto simp: timer_inv_def periodic_event_timer_handler_def Let_def)

text \<open>The manager's indices are in the table.\<close>

fun manager_ok :: "manager \<Rightarrow> bool" where
  "manager_ok (Found ev ms i j) \<longleftrightarrow> i = Suc j \<and> j < MAX_EVENT_HANDLERS"
| "manager_ok (Checked ev ms i j) \<longleftrightarrow> i = Suc j \<and> j < MAX_EVENT_HANDLERS"
| "manager_ok _ \<longleftrightarrow> True"

definition system_inv :: "event_system \<Rightarrow> bool" where
  "system_inv s \<longleftrightarrow>
     length (event_handler_registry s) = MAX_EVENT_HANDLERS \<and> timer_inv (periodic_timer s) \<and>
     (\<exists>q. evn_queue s = Some q \<and> length q \<le> EVN_QUEUE_LEN) \<and>
     (\<exists>n. periodic_evn_queue s = Some n \<and> length n \<le> NEW_EVN_QUEUE_LEN) \<and>
     (\<exists>m. manager_task s = Some m \<and> manager_ok m)"

text \<open>What a call leaves alone, and that it never fails once the queues exist.\<close>

lemma register_length [simp]: "length (snd (register_event_handler e h reg)) = length reg"
  by (simp add: register_event_handler_def split: option.split)

lemma unregister_length [simp]:
  "length (unregister_event_handler h reg) = length reg" "length (unregister_event_id e reg) = length reg"
  by (simp_all add: unregister_event_handler_def unregister_event_id_def)

lemma do_api_frame:
  assumes "do_api a s = Some (r, s')"
  shows "periodic_timer s' = periodic_timer s" "manager_task s' = manager_task s"
    "length (event_handler_registry s') = length (event_handler_registry s)"
  using assms
  by (cases a; auto simp: request_periodic_def case_prod_beta Let_def split: option.splits)+

lemma request_periodic_Some:
  "periodic_evn_queue s = Some n \<Longrightarrow>
   request_periodic p s =
     Some (fst (queue_send NEW_EVN_QUEUE_LEN p n),
           s\<lparr>periodic_evn_queue := Some (snd (queue_send NEW_EVN_QUEUE_LEN p n))\<rparr>)"
  by (simp add: request_periodic_def case_prod_beta Let_def)

lemma set_event_Some:
  "evn_queue s = Some q \<Longrightarrow>
   do_api (Set_event e ctx) s =
     Some (fst (queue_send EVN_QUEUE_LEN \<lparr>evn_id = e, evn_ctx = ctx\<rparr> q),
           s\<lparr>evn_queue := Some (snd (queue_send EVN_QUEUE_LEN \<lparr>evn_id = e, evn_ctx = ctx\<rparr> q))\<rparr>)"
  by (simp add: set_event_def case_prod_beta Let_def)

lemma do_api_inv:
  assumes call: "do_api a s = Some (r, s')" and inv: "system_inv s"
  shows "system_inv s'"
proof -
  obtain q n where q: "evn_queue s = Some q" "length q \<le> EVN_QUEUE_LEN"
    and n: "periodic_evn_queue s = Some n" "length n \<le> NEW_EVN_QUEUE_LEN"
    using inv by (auto simp: system_inv_def)
  have "(\<exists>q. evn_queue s' = Some q \<and> length q \<le> EVN_QUEUE_LEN) \<and>
      (\<exists>n. periodic_evn_queue s' = Some n \<and> length n \<le> NEW_EVN_QUEUE_LEN)"
  proof (cases a)
    case (Set_event e ctx)
    then have "s' = s\<lparr>evn_queue := Some (snd (queue_send EVN_QUEUE_LEN \<lparr>evn_id = e, evn_ctx = ctx\<rparr> q))\<rparr>"
      using call set_event_Some [OF q(1)] by simp
    then show ?thesis using q n queue_send_length by simp
  next
    case (Start_periodic_event e ctx d k)
    then show ?thesis using call q n queue_send_length by (auto simp: request_periodic_Some [OF n(1)])
  next
    case (Stop_periodic_event e)
    then show ?thesis using call q n queue_send_length by (auto simp: request_periodic_Some [OF n(1)])
  qed (use call q n in \<open>auto split: prod.splits\<close>)
  then show ?thesis using inv do_api_frame [OF call] by (simp add: system_inv_def)
qed

lemma do_api_total:
  assumes "system_inv s"
  shows "\<exists>r s'. do_api a s = Some (r, s')"
proof -
  obtain q n where "evn_queue s = Some q" "periodic_evn_queue s = Some n"
    using assms by (auto simp: system_inv_def)
  then show ?thesis
    by (cases a) (auto simp: request_periodic_Some set_event_Some case_prod_beta Let_def
        simp del: do_api.simps(1))
qed

lemma sys_step_inv: "sys_step H s ob s' \<Longrightarrow> system_inv s \<Longrightarrow> system_inv s'"
proof (induction rule: sys_step.induct)
  case (tick s news q t evs)
  then show ?case
    using timer_inv_handler [of "periodic_timer s" news t evs] send_events_take [of q evs]
    by (auto simp: system_inv_def room_def)
next
  case (other a s r s')
  then show ?case by (rule do_api_inv)
next
  case (handler_call s ev ms i a k r s')
  then have "system_inv s'" by (blast intro: do_api_inv)
  then show ?case by (simp add: system_inv_def)
next
  case (found s ev ms i j i')
  then show ?case using get_event_entry_progress [of i "evn_id ev" None "event_handler_registry s" j i']
    by (simp add: system_inv_def)
qed (auto simp: system_inv_def)

lemma init_event_manager_inv: "system_inv (init_event_manager boot)"
  using new_timer_inv new_registry_inv
  by (simp add: system_inv_def init_event_manager_def init_event_time_manager_def boot_def
      reset_event_list_def registry_inv_def timer_inv_def)

lemma init_event_manager_again: "evn_queue s \<noteq> None \<Longrightarrow> init_event_manager s = s"
  by (simp add: init_event_manager_def)

lemma sys_run_inv: "sys_run H s os s' \<Longrightarrow> system_inv s \<Longrightarrow> system_inv s'"
  by (induction rule: sys_run.induct) (auto intro: sys_step_inv)

section \<open>The order of events\<close>

text \<open>The events that were put into the queue, and those taken from it.\<close>

fun accepted :: "obs \<Rightarrow> DevEvn list" where
  "accepted (Act w (Set_event e ctx) True) = [\<lparr>evn_id = e, evn_ctx = ctx\<rparr>]"
| "accepted (Tick evs acc) = acc"
| "accepted _ = []"

fun taken :: "obs \<Rightarrow> DevEvn list" where
  "taken (Take ev) = [ev]"
| "taken _ = []"

lemma do_api_queue:
  assumes "do_api a s = Some (r, s')" "evn_queue s = Some q"
  shows "evn_queue s' = Some (q @ accepted (Act w a r))"
  using assms
  by (cases a; cases r; auto simp: request_periodic_def set_event_def queue_send_def
      split: option.splits prod.splits if_splits)

lemma sys_step_queue:
  assumes "sys_step H s ob s'" "system_inv s" "evn_queue s = Some q"
  shows "\<exists>q'. evn_queue s' = Some q' \<and> q @ accepted ob = taken ob @ q'"
  using assms
proof (induction rule: sys_step.induct)
  case (tick s news q' t evs)
  then show ?case using send_events_take [of q evs] by (simp add: system_inv_def)
next
  case (other a s r s')
  then show ?case using do_api_queue [of a s r s' q Other] by simp
next
  case (handler_call s ev ms i a k r s')
  then show ?case using do_api_queue [of a s r s' q Manager] by simp
qed auto

lemma sys_run_queue:
  assumes "sys_run H s os s'" "system_inv s" "evn_queue s = Some q"
  shows "\<exists>q'. evn_queue s' = Some q' \<and> q @ concat (map accepted os) = concat (map taken os) @ q'"
  using assms
proof (induction rule: sys_run.induct)
  case (start s)
  then show ?case by simp
next
  case (step s os s1 ob s2)
  then obtain q1 where q1: "evn_queue s1 = Some q1"
    "q @ concat (map accepted os) = concat (map taken os) @ q1" by auto
  have "system_inv s1" using step.hyps(1) step.prems(1) by (rule sys_run_inv)
  then obtain q2 where q2: "evn_queue s2 = Some q2" "q1 @ accepted ob = taken ob @ q2"
    using sys_step_queue [OF step.hyps(2)] q1(1) by blast
  have "q @ concat (map accepted (os @ [ob])) = concat (map taken os) @ q1 @ accepted ob"
    using q1(2) by simp
  then show ?case using q2 by simp
qed

section \<open>Unregistered handlers\<close>

definition mentions :: "nat \<Rightarrow> EventHandlerRegistry list \<Rightarrow> bool" where
  "mentions h reg \<longleftrightarrow> Some h \<in> handler ` set reg"

lemma mentions_update: "mentions h (reg[i := r]) \<Longrightarrow> mentions h reg \<or> handler r = Some h"
  using set_update_subset_insert [of reg i r] by (auto simp: mentions_def)

lemma mentions_clear:
  "mentions h (map (\<lambda>r. if P r then no_entry else r) reg) \<Longrightarrow> mentions h reg"
  by (auto simp: mentions_def no_entry_def split: if_splits)

lemma mentions_unregister:
  "mentions h (unregister_event_handler k reg) \<Longrightarrow> mentions h reg"
  "mentions h (unregister_event_id e reg) \<Longrightarrow> mentions h reg"
  by (auto simp: unregister_event_handler_def unregister_event_id_def clear_matching_map
      split: if_splits dest: mentions_clear)

lemma unregistered_gone: "\<not> mentions h (unregister_event_handler (Some h) reg)"
  by (auto simp: mentions_def unregister_event_handler_map no_entry_def split: if_splits)

lemma mentions_register:
  "mentions h (snd (register_event_handler e k reg)) \<Longrightarrow> mentions h reg \<or> k = Some h"
  by (auto simp: register_event_handler_def split: if_splits option.splits dest: mentions_update)

lemma do_api_mentions:
  assumes "do_api a s = Some (r, s')" "\<not> mentions h (event_handler_registry s)"
    "\<nexists>e. a = Register_event_handler e (Some h)"
  shows "\<not> mentions h (event_handler_registry s')"
proof (cases a)
  case (Register_event_handler e k)
  then show ?thesis using assms mentions_register [of h e k "event_handler_registry s"]
    by (auto simp: case_prod_beta Let_def)
next
  case (Unregister_event_handler k)
  then show ?thesis using assms mentions_unregister(1) [of h k "event_handler_registry s"] by auto
next
  case (Unregister_event_id e)
  then show ?thesis using assms mentions_unregister(2) [of h e "event_handler_registry s"] by auto
qed (use assms in \<open>auto simp: request_periodic_def case_prod_beta Let_def split: option.splits\<close>)

lemma sys_step_mentions:
  assumes "sys_step H s ob s'" "\<not> mentions h (event_handler_registry s)"
    "\<nexists>w e r. ob = Act w (Register_event_handler e (Some h)) r"
  shows "\<not> mentions h (event_handler_registry s')"
  using assms by (induction rule: sys_step.induct) (auto dest: do_api_mentions)

section \<open>The manager's progress\<close>

text \<open>
  Every access of the manager to the registry or step of a handler brings it nearer to the end
  of the event: first the entries left, then the place in the loop's body, then what is left
  of the handler.
\<close>

definition prog_step :: "(prog \<times> prog) set" where
  "prog_step = {(k r, Call a k) | a k r. True}"

lemma wf_prog_step: "wf prog_step"
proof (rule wfUNIVI)
  fix P p
  assume step: "\<forall>p. (\<forall>q. (q, p) \<in> prog_step \<longrightarrow> P q) \<longrightarrow> P p"
  show "P p"
  proof (induction p)
    case Return
    then show ?case using step by (simp add: prog_step_def)
  next
    case (Call a k)
    have "P q" if "(q, Call a k) \<in> prog_step" for q
      using that Call.IH by (auto simp: prog_step_def)
    then show ?case using step by blast
  qed
qed

fun remaining :: "manager \<Rightarrow> nat \<times> nat \<times> prog" where
  "remaining (Searching ev ms i) = (MAX_EVENT_HANDLERS - i, 0, Return)"
| "remaining (Inside ev ms i p) = (MAX_EVENT_HANDLERS - i, 1, p)"
| "remaining (Loaded ev ms i h) = (MAX_EVENT_HANDLERS - i, 2, Return)"
| "remaining (Checked ev ms i j) = (MAX_EVENT_HANDLERS - i, 3, Return)"
| "remaining (Found ev ms i j) = (MAX_EVENT_HANDLERS - i, 4, Return)"
| "remaining _ = (0, 0, Return)"

definition nearer :: "((nat \<times> nat \<times> prog) \<times> (nat \<times> nat \<times> prog)) set" where
  "nearer = less_than <*lex*> less_than <*lex*> prog_step"

lemma wf_nearer: "wf nearer"
  unfolding nearer_def using wf_prog_step by (intro wf_lex_prod wf_less_than)

fun by_manager :: "obs \<Rightarrow> bool" where
  "by_manager (Act Other a r) \<longleftrightarrow> False"
| "by_manager (Tick evs acc) \<longleftrightarrow> False"
| "by_manager _ \<longleftrightarrow> True"

lemma sys_step_nearer:
  assumes "sys_step H s ob s'" "system_inv s" "manager_task s \<noteq> Some Waiting" "manager_task s' \<noteq> Some Waiting"
  shows "if by_manager ob then (remaining (the (manager_task s')), remaining (the (manager_task s))) \<in> nearer
    else manager_task s' = manager_task s"
  using assms
proof (induction rule: sys_step.induct)
  case (other a s r s')
  then show ?case using do_api_frame(2) by simp
next
  case (found s ev ms i j i')
  then show ?case using get_event_entry_progress [of i "evn_id ev" None "event_handler_registry s" j i']
    by (auto simp: nearer_def system_inv_def)
next
  case (handler_call s ev ms i a k r s')
  then show ?case by (auto simp: nearer_def prog_step_def)
next
  case (crash s ev ms i)
  then show ?case by (cases "MAX_EVENT_HANDLERS - i") (simp_all add: nearer_def)
qed (simp_all add: nearer_def)

text \<open>A run of the whole system that never ends.\<close>

definition endless_run ::
  "(nat \<Rightarrow> u32 \<Rightarrow> u32 \<Rightarrow> prog set) \<Rightarrow> (nat \<Rightarrow> event_system) \<Rightarrow> (nat \<Rightarrow> obs) \<Rightarrow> bool" where
  "endless_run H f obss \<longleftrightarrow> f 0 = init_event_manager boot \<and> (\<forall>n. sys_step H (f n) (obss n) (f (Suc n)))"

lemma endless_run_inv: "endless_run H f obss \<Longrightarrow> system_inv (f n)"
  by (induction n) (auto simp: endless_run_def init_event_manager_inv intro: sys_step_inv)

lemma busy_forever:
  assumes run: "endless_run H f obss" and busy: "\<And>n. m \<le> n \<Longrightarrow> manager_task (f n) \<noteq> Some Waiting"
  shows "\<exists>k. \<forall>n. k \<le> n \<longrightarrow> \<not> by_manager (obss n)"
proof -
  define g where "g n = remaining (the (manager_task (f n)))" for n
  have step: "if by_manager (obss n) then (g (Suc n), g n) \<in> nearer else g (Suc n) = g n" if "m \<le> n" for n
  proof -
    have "sys_step H (f n) (obss n) (f (Suc n))" using run by (simp add: endless_run_def)
    from sys_step_nearer [OF this endless_run_inv [OF run] busy busy] that show ?thesis
      by (auto simp: g_def split: if_splits)
  qed
  have down: "g n = g k \<or> (g n, g k) \<in> nearer\<^sup>+" if "m \<le> k" "k \<le> n" for k n
    using that(2)
  proof (induction rule: dec_induct)
    case (step i)
    then have "g (Suc i) = g i \<or> (g (Suc i), g i) \<in> nearer" using \<open>m \<le> k\<close>
      using \<open>\<And>n. m \<le> n \<Longrightarrow> if by_manager (obss n) then (g (Suc n), g n) \<in> nearer else g (Suc n) = g n\<close> [of i]
      by (auto split: if_splits)
    with step.IH show ?case by (auto intro: trancl_into_trancl2)
  qed simp
  have "wf (nearer\<^sup>+)" using wf_nearer by (rule wf_trancl)
  then obtain x where x: "x \<in> g ` {m..}" "\<And>y. (y, x) \<in> nearer\<^sup>+ \<Longrightarrow> y \<notin> g ` {m..}"
    by (rule wfE_min [where Q = "g ` {m..}" and x = "g m"]) auto
  then obtain k where k: "m \<le> k" "x = g k" by auto
  have "\<not> by_manager (obss n)" if "k \<le> n" for n
  proof
    assume "by_manager (obss n)"
    then have "(g (Suc n), g n) \<in> nearer" using step [of n] that k(1) by simp
    then have "(g (Suc n), g k) \<in> nearer\<^sup>+" using down [OF k(1) that] by (auto intro: trancl_into_trancl2)
    then have "g (Suc n) \<notin> g ` {m..}" using x(2) [of "g (Suc n)"] k(2) by (simp del: split_paired_All)
    then show False using k(1) that by simp
  qed
  then show ?thesis by blast
qed

end
