(* ===== verification/Event_Dispatch.thy ===== *)
theory Event_Dispatch
  imports Event_System
begin

text \<open>
  What the event system of \<open>components/event_manager\<close> promises: its invariant, the order of the
  events, the end of every dispatch and the handlers that are called, whatever the tasks and
  the timer do meanwhile; which handlers an event reaches when the registry stays as it is; and
  that the manager's steps, when nothing comes between them, are the function \<open>dispatch\<close> of
  \<open>Event_Manager\<close>.
\<close>

section \<open>Runs\<close>

lemma sys_run_trans: "sys_run H s1 os' s2 \<Longrightarrow> sys_run H s os s1 \<Longrightarrow> sys_run H s (os @ os') s2"
proof (induction rule: sys_run.induct)
  case (start s1)
  then show ?case by simp
next
  case (step s1 os' s2 ob s3)
  then show ?case using sys_run.step [of H s "os @ os'" s2 ob s3] by simp
qed

lemma sys_run_one: "sys_step H s ob s' \<Longrightarrow> sys_run H s [ob] s'"
  using sys_run.step [OF sys_run.start, of H s ob s'] by simp

lemma sys_run_before: "sys_step H s ob s1 \<Longrightarrow> sys_run H s1 os s2 \<Longrightarrow> sys_run H s (ob # os) s2"
  using sys_run_trans [OF _ sys_run_one, of H s1 os s2 s ob] by simp

section \<open>The manager without interruption\<close>

text \<open>A handler run to its end.\<close>

primrec exec_prog :: "prog \<Rightarrow> event_system \<Rightarrow> event_system" where
  "exec_prog Return = (\<lambda>s. s)"
| "exec_prog (Call a k) = (\<lambda>s. case do_api a s of Some (r, s') \<Rightarrow> exec_prog (k r) s' | None \<Rightarrow> s)"

text \<open>Handlers that always do the same, as the functions \<open>dispatch\<close> takes.\<close>

definition handler_effect :: "(nat \<Rightarrow> u32 \<Rightarrow> u32 \<Rightarrow> prog) \<Rightarrow> event_system call" where
  "handler_effect P h ms ctx = (\<lambda>(reg, s).
     let s' = exec_prog (P h ms ctx) (s\<lparr>event_handler_registry := reg\<rparr>)
     in (event_handler_registry s', s'))"

lemma handler_effect_at:
  "handler_effect P h ms ctx (reg, s) =
   (event_handler_registry (exec_prog (P h ms ctx) (s\<lparr>event_handler_registry := reg\<rparr>)),
    exec_prog (P h ms ctx) (s\<lparr>event_handler_registry := reg\<rparr>))"
  by (simp add: handler_effect_def Let_def)

lemma do_api_manager:
  "do_api a (s\<lparr>manager_task := m\<rparr>) = map_option (\<lambda>(r, s'). (r, s'\<lparr>manager_task := m\<rparr>)) (do_api a s)"
  by (cases a) (simp_all add: request_periodic_def case_prod_beta Let_def split: option.split)

lemma exec_prog_manager:
  "(exec_prog p (s\<lparr>manager_task := m\<rparr>))\<lparr>manager_task := m'\<rparr> = (exec_prog p s)\<lparr>manager_task := m'\<rparr>"
proof (induction p arbitrary: s)
  case (Call a k)
  then show ?case by (auto simp: do_api_manager split: option.split)
qed simp

lemma exec_prog_length:
  "length (event_handler_registry (exec_prog p s)) = length (event_handler_registry s)"
proof (induction p arbitrary: s)
  case (Call a k)
  then show ?case using do_api_frame(3) by (auto split: option.split)
qed simp

lemma exec_prog_inv: "system_inv s \<Longrightarrow> system_inv (exec_prog p s)"
proof (induction p arbitrary: s)
  case (Call a k)
  then show ?case using do_api_inv by (auto split: option.split)
qed simp

lemma system_inv_manager: "system_inv s \<Longrightarrow> manager_ok m \<Longrightarrow> system_inv (s\<lparr>manager_task := Some m\<rparr>)"
  by (simp add: system_inv_def)

text \<open>A step of the manager that goes on with the event it has.\<close>

definition uninterrupted :: "obs \<Rightarrow> bool" where
  "uninterrupted ob \<longleftrightarrow> by_manager ob \<and> taken ob = []"

lemma uninterrupted_simps [simp]:
  "uninterrupted Tau" "uninterrupted (Act Manager a r)" "uninterrupted (Enter h ms ctx)"
  by (simp_all add: uninterrupted_def)

lemma handler_runs:
  "system_inv s \<Longrightarrow> manager_task s = Some (Inside ev ms i p) \<Longrightarrow>
   \<exists>os. list_all uninterrupted os \<and>
     sys_run H s os ((exec_prog p s)\<lparr>manager_task := Some (Searching ev ms i)\<rparr>)"
proof (induction p arbitrary: s)
  case Return
  have "sys_run H s [Tau] ((exec_prog Return s)\<lparr>manager_task := Some (Searching ev ms i)\<rparr>)"
    using sys_run_one [OF handler_return [OF Return.prems(2)]] by simp
  then show ?case by (intro exI [of _ "[Tau]"]) simp
next
  case (Call a k)
  obtain r s' where a: "do_api a s = Some (r, s')" using do_api_total [OF Call.prems(1)] by blast
  let ?s1 = "s'\<lparr>manager_task := Some (Inside ev ms i (k r))\<rparr>"
  have "system_inv ?s1" using do_api_inv [OF a Call.prems(1)] by (rule system_inv_manager) simp
  then obtain os where os: "list_all uninterrupted os"
    "sys_run H ?s1 os ((exec_prog (k r) ?s1)\<lparr>manager_task := Some (Searching ev ms i)\<rparr>)"
    using Call.IH [of "k r" ?s1] by auto
  have "sys_step H s (Act Manager a r) ?s1" using Call.prems(2) a by (rule handler_call)
  with os(2) have "sys_run H s (Act Manager a r # os)
      ((exec_prog (Call a k) s)\<lparr>manager_task := Some (Searching ev ms i)\<rparr>)"
    using sys_run_before by (simp add: exec_prog_manager a)
  then show ?case using os(1) by (intro exI [of _ "Act Manager a r # os"]) simp
qed

lemma manager_runs:
  assumes "dispatch_from n i (handler_effect P) ms ev (event_handler_registry s, w) = Some (reg', w')"
    "system_inv s" "s = w\<lparr>event_handler_registry := event_handler_registry s, manager_task := Some (Searching ev ms i)\<rparr>"
  shows "\<exists>os. list_all uninterrupted os \<and> sys_run (\<lambda>h ms ctx. {P h ms ctx}) s os
    (w'\<lparr>event_handler_registry := reg', manager_task := Some Waiting\<rparr>)"
  using assms
proof (induction n arbitrary: i s w)
  case 0
  then show ?case by simp
next
  case (Suc n)
  let ?H = "\<lambda>h ms ctx. {P h ms ctx}" and ?reg = "event_handler_registry s"
  have task: "manager_task s = Some (Searching ev ms i)"
    by (subst Suc.prems(3)) simp
  obtain e i' where g: "get_event_entry i (evn_id ev) None ?reg = (e, i')" by fastforce
  show ?case
  proof (cases e)
    case None
    then have "sys_step ?H s Tau (s\<lparr>manager_task := Some Waiting\<rparr>)"
      using finished [OF task] g by simp
    moreover have "w' = w" "reg' = ?reg" using Suc.prems(1) g None by simp_all
    moreover have "s\<lparr>manager_task := Some Waiting\<rparr> =
        w\<lparr>event_handler_registry := ?reg, manager_task := Some Waiting\<rparr>"
      by (subst Suc.prems(3)) simp
    ultimately show ?thesis using sys_run_one by (intro exI [of _ "[Tau]"]) simp
  next
    case (Some j)
    with g have g: "get_event_entry i (evn_id ev) None ?reg = (Some j, i')" by simp
    then have j: "i' = Suc j" "j < length ?reg" using get_event_entry_progress by blast+
    let ?f = "s\<lparr>manager_task := Some (Found ev ms i' j)\<rparr>"
    have f: "sys_step ?H s Tau ?f" using task g by (rule found)
    show ?thesis
    proof (cases "handler (?reg ! j)")
      case None
      let ?s1 = "s\<lparr>manager_task := Some (Searching ev ms i')\<rparr>"
      have step: "sys_step ?H ?f Tau ?s1" using no_handler [of ?f ev ms i' j ?H] None by simp
      have "dispatch_from n i' (handler_effect P) ms ev (event_handler_registry ?s1, w) = Some (reg', w')"
        using Suc.prems(1) g None by simp
      moreover have "system_inv ?s1" using Suc.prems(2) by (rule system_inv_manager) simp
      moreover have "?s1 = w\<lparr>event_handler_registry := event_handler_registry ?s1,
          manager_task := Some (Searching ev ms i')\<rparr>" by (subst Suc.prems(3)) simp
      ultimately obtain os where "list_all uninterrupted os"
          "sys_run ?H ?s1 os (w'\<lparr>event_handler_registry := reg', manager_task := Some Waiting\<rparr>)"
        using Suc.IH by blast
      then show ?thesis using sys_run_before [OF f sys_run_before [OF step]]
        by (intro exI [of _ "Tau # Tau # os"]) simp
    next
      case (Some h)
      let ?c = "s\<lparr>manager_task := Some (Checked ev ms i' j)\<rparr>"
      let ?l = "s\<lparr>manager_task := Some (Loaded ev ms i' (Some h))\<rparr>"
      let ?in = "s\<lparr>manager_task := Some (Inside ev ms i' (P h ms (evn_ctx ev)))\<rparr>"
      let ?w1 = "exec_prog (P h ms (evn_ctx ev)) (w\<lparr>event_handler_registry := ?reg\<rparr>)"
      let ?s1 = "(exec_prog (P h ms (evn_ctx ev)) ?in)\<lparr>manager_task := Some (Searching ev ms i')\<rparr>"
      have c: "sys_step ?H ?f Tau ?c" using checked [of ?f ev ms i' j ?H] Some by simp
      have l: "sys_step ?H ?c Tau ?l" using load [of ?c ev ms i' j ?H] Some by simp
      have e: "sys_step ?H ?l (Enter h ms (evn_ctx ev)) ?in"
        using enter [of ?l ev ms i' h "P h ms (evn_ctx ev)" ?H] by simp
      have inv_in: "system_inv ?in" using Suc.prems(2) by (rule system_inv_manager) simp
      obtain os where os: "list_all uninterrupted os" "sys_run ?H ?in os ?s1"
        using handler_runs [OF inv_in] by fastforce
      have s_w: "s\<lparr>manager_task := m\<rparr> = w\<lparr>event_handler_registry := ?reg, manager_task := m\<rparr>" for m
        by (subst Suc.prems(3)) simp
      have s1: "?s1 = ?w1\<lparr>manager_task := Some (Searching ev ms i')\<rparr>"
        unfolding s_w by (simp add: exec_prog_manager)
      have reg1: "event_handler_registry ?s1 = event_handler_registry ?w1" unfolding s1 by simp
      have "dispatch_from n i' (handler_effect P) ms ev (event_handler_registry ?s1, ?w1) = Some (reg', w')"
        using Suc.prems(1) g Some unfolding reg1 by (simp add: handler_effect_at)
      moreover have "system_inv ?s1" using exec_prog_inv [OF inv_in] by (rule system_inv_manager) simp
      moreover have "?s1 = ?w1\<lparr>event_handler_registry := event_handler_registry ?s1,
          manager_task := Some (Searching ev ms i')\<rparr>" unfolding s1 by simp
      ultimately obtain os' where os': "list_all uninterrupted os'" "sys_run ?H ?s1 os'
          (w'\<lparr>event_handler_registry := reg', manager_task := Some Waiting\<rparr>)"
        using Suc.IH by blast
      have "sys_run ?H s (Tau # Tau # Tau # Enter h ms (evn_ctx ev) # os @ os')
          (w'\<lparr>event_handler_registry := reg', manager_task := Some Waiting\<rparr>)"
        using f c l e sys_run_trans [OF os'(2) os(2)] by (blast intro: sys_run_before)
      then show ?thesis using os(1) os'(1)
        by (intro exI [of _ "Tau # Tau # Tau # Enter h ms (evn_ctx ev) # os @ os'"]) simp
    qed
  qed
qed

section \<open>Calls of one handler\<close>

text \<open>The calls of the handler \<open>h\<close>, and that its address is loaded for a call.\<close>

fun enters :: "nat \<Rightarrow> obs \<Rightarrow> bool" where
  "enters h (Enter k ms ctx) \<longleftrightarrow> k = h"
| "enters h _ \<longleftrightarrow> False"

fun loaded :: "nat \<Rightarrow> manager option \<Rightarrow> bool" where
  "loaded h (Some (Loaded ev ms i (Some k))) \<longleftrightarrow> k = h"
| "loaded h _ \<longleftrightarrow> False"

lemma checked_mentions:
  assumes "manager_task s = Some (Checked ev ms i j)" "system_inv s"
    "handler (event_handler_registry s ! j) = Some h"
  shows "mentions h (event_handler_registry s)"
proof -
  have "j < length (event_handler_registry s)" using assms(1,2) by (simp add: system_inv_def)
  then show ?thesis using assms(3) by (force simp: mentions_def image_iff in_set_conv_nth)
qed

text \<open>A handler without an entry is called only where its address was loaded before.\<close>

lemma sys_step_enters:
  assumes "sys_step H s ob s'" "system_inv s" "\<not> mentions h (event_handler_registry s)"
  shows "of_bool (enters h ob) + of_bool (loaded h (manager_task s')) \<le> (of_bool (loaded h (manager_task s)) :: nat)"
  using assms
proof (induction rule: sys_step.induct)
  case (other a s r s')
  then show ?case using do_api_frame(2) by simp
next
  case (load s ev ms i j)
  then show ?case using checked_mentions [of s ev ms i j h]
    by (cases "handler (event_handler_registry s ! j)") auto
qed simp_all

section \<open>The handlers an event reaches\<close>

text \<open>
  The calls of handlers, with time and context; the calls of the interface that touch the
  registry; and, while the registry stays as it is, the handlers the manager has still to call and
  what is known of the event it serves.
\<close>

fun entered :: "obs \<Rightarrow> (nat \<times> u32 \<times> u32) list" where
  "entered (Enter h ms ctx) = [(h, ms, ctx)]"
| "entered _ = []"

fun changes_registry :: "obs \<Rightarrow> bool" where
  "changes_registry (Act w (Register_event_handler e h) r) \<longleftrightarrow> True"
| "changes_registry (Act w (Unregister_event_handler h) r) \<longleftrightarrow> True"
| "changes_registry (Act w (Unregister_event_id e) r) \<longleftrightarrow> True"
| "changes_registry _ \<longleftrightarrow> False"

fun to_call :: "EventHandlerRegistry list \<Rightarrow> manager \<Rightarrow> nat list" where
  "to_call reg (Searching ev ms i) = handlers_of (evn_id ev) (drop i reg)"
| "to_call reg (Found ev ms i j) =
     (case handler (reg ! j) of None \<Rightarrow> [] | Some h \<Rightarrow> [h]) @ handlers_of (evn_id ev) (drop i reg)"
| "to_call reg (Checked ev ms i j) =
     (case handler (reg ! j) of None \<Rightarrow> [] | Some h \<Rightarrow> [h]) @ handlers_of (evn_id ev) (drop i reg)"
| "to_call reg (Loaded ev ms i h) =
     (case h of None \<Rightarrow> [] | Some h \<Rightarrow> [h]) @ handlers_of (evn_id ev) (drop i reg)"
| "to_call reg (Inside ev ms i p) = handlers_of (evn_id ev) (drop i reg)"
| "to_call reg _ = []"

fun serving :: "DevEvn \<Rightarrow> u32 \<Rightarrow> EventHandlerRegistry list \<Rightarrow> manager \<Rightarrow> bool" where
  "serving ev ms reg (Searching ev' ms' i) \<longleftrightarrow> ev' = ev \<and> ms' = ms"
| "serving ev ms reg (Found ev' ms' i j) \<longleftrightarrow> ev' = ev \<and> ms' = ms"
| "serving ev ms reg (Checked ev' ms' i j) \<longleftrightarrow> ev' = ev \<and> ms' = ms \<and> handler (reg ! j) \<noteq> None"
| "serving ev ms reg (Loaded ev' ms' i h) \<longleftrightarrow> ev' = ev \<and> ms' = ms \<and> h \<noteq> None"
| "serving ev ms reg (Inside ev' ms' i p) \<longleftrightarrow> ev' = ev \<and> ms' = ms"
| "serving ev ms reg Waiting \<longleftrightarrow> True"
| "serving ev ms reg Crashed \<longleftrightarrow> False"

lemma do_api_registry:
  "do_api a s = Some (r, s') \<Longrightarrow> \<not> changes_registry (Act w a r) \<Longrightarrow>
   event_handler_registry s' = event_handler_registry s"
  by (cases a) (auto simp: request_periodic_def case_prod_beta Let_def split: option.splits)

lemma to_call_seek:
  assumes "evn_id ev \<noteq> EVN_ANY" "get_event_entry i (evn_id ev) None reg = (r, i')"
  shows "to_call reg (Searching ev ms i) =
    (case r of None \<Rightarrow> [] | Some j \<Rightarrow> to_call reg (Found ev ms i' j))"
proof (cases "i \<le> length reg")
  case True
  then show ?thesis using handlers_of_drop_seek [OF assms(1) True] assms(2)
    by (auto split: option.split)
next
  case False
  then have "r = None" using assms(2) get_event_entry_progress [of i "evn_id ev" None reg] by (cases r) auto
  with False show ?thesis by simp
qed

lemma sys_step_serving:
  assumes "sys_step H s ob s'" "manager_task s = Some m" "event_handler_registry s = reg"
    "serving ev ms reg m" "taken ob = []" "\<not> changes_registry ob" "evn_id ev \<noteq> EVN_ANY"
  shows "event_handler_registry s' = reg \<and> (\<exists>m'. manager_task s' = Some m' \<and> serving ev ms reg m' \<and>
    entered ob @ map (\<lambda>h. (h, ms, evn_ctx ev)) (to_call reg m') = map (\<lambda>h. (h, ms, evn_ctx ev)) (to_call reg m))"
  using assms
proof (induction rule: sys_step.induct)
  case (other a s r s')
  then show ?case using do_api_frame(2) do_api_registry by simp
next
  case (found s ev' ms' i j i')
  then show ?case using to_call_seek [of ev i reg "Some j" i' ms] by auto
next
  case (finished s ev' ms' i i')
  then show ?case using to_call_seek [of ev i reg None i' ms] by auto
next
  case (handler_call s ev' ms' i a k r s')
  then show ?case using do_api_registry [of a s r s' Manager] by auto
qed auto

lemma sys_run_serving:
  assumes "sys_run H s os s'" "manager_task s = Some m" "event_handler_registry s = reg"
    "serving ev ms reg m" "concat (map taken os) = []" "\<not> list_ex changes_registry os" "evn_id ev \<noteq> EVN_ANY"
  shows "event_handler_registry s' = reg \<and> (\<exists>m'. manager_task s' = Some m' \<and> serving ev ms reg m' \<and>
    concat (map entered os) @ map (\<lambda>h. (h, ms, evn_ctx ev)) (to_call reg m') = map (\<lambda>h. (h, ms, evn_ctx ev)) (to_call reg m))"
  using assms
proof (induction rule: sys_run.induct)
  case (start s)
  then show ?case by simp
next
  case (step s os s1 ob s2)
  then obtain m1 where m1: "event_handler_registry s1 = reg" "manager_task s1 = Some m1" "serving ev ms reg m1"
    "concat (map entered os) @ map (\<lambda>h. (h, ms, evn_ctx ev)) (to_call reg m1) = map (\<lambda>h. (h, ms, evn_ctx ev)) (to_call reg m)"
    by auto
  have "taken ob = []" "\<not> changes_registry ob" using step.prems by auto
  from sys_step_serving [OF step.hyps(2) m1(2,1,3) this step.prems(6)] m1(4) show ?case by auto
qed

section \<open>A null pointer called\<close>

text \<open>Past the comparison the entry still has its handler, unless another task takes it away.\<close>

definition entry_kept :: "event_system \<Rightarrow> bool" where
  "entry_kept s \<longleftrightarrow> manager_task s \<noteq> Some Crashed \<and>
     (\<forall>ev ms i j. manager_task s = Some (Checked ev ms i j) \<longrightarrow> handler (event_handler_registry s ! j) \<noteq> None) \<and>
     (\<forall>ev ms i. manager_task s \<noteq> Some (Loaded ev ms i None))"

fun unregisters :: "obs \<Rightarrow> bool" where
  "unregisters (Act Other (Unregister_event_handler h) r) \<longleftrightarrow> True"
| "unregisters (Act Other (Unregister_event_id e) r) \<longleftrightarrow> True"
| "unregisters _ \<longleftrightarrow> False"

lemma register_keeps_handlers:
  assumes "handler (reg ! j) \<noteq> None"
  shows "handler (snd (register_event_handler e h reg) ! j) \<noteq> None"
proof (cases "fst (get_event_entry 0 EVN_NO_ENTRY None reg)")
  case None
  then show ?thesis using assms by (simp add: register_event_handler_def)
next
  case (Some i)
  note i = get_event_entry_Some(1) [OF Some]
  show ?thesis using assms Some i by (cases "i = j") (auto simp: register_event_handler_def)
qed

lemma sys_step_entry_kept:
  assumes "sys_step H s ob s'" "entry_kept s" "\<not> unregisters ob"
  shows "entry_kept s'"
  using assms
proof (induction rule: sys_step.induct)
  case (other a s r s')
  show ?case
  proof (cases a)
    case (Register_event_handler e h)
    then show ?thesis using other register_keeps_handlers
      by (auto simp: entry_kept_def case_prod_beta Let_def)
  qed (use other in \<open>auto simp: entry_kept_def request_periodic_def case_prod_beta Let_def split: option.splits\<close>)
next
  case (handler_call s ev ms i a k r s')
  then show ?case by (simp add: entry_kept_def)
qed (simp_all add: entry_kept_def)

lemma sys_run_entry_kept:
  "sys_run H s os s' \<Longrightarrow> entry_kept s \<Longrightarrow> \<not> list_ex unregisters os \<Longrightarrow> entry_kept s'"
  by (induction rule: sys_run.induct) (auto intro: sys_step_entry_kept)

section \<open>A concrete run\<close>

text \<open>One handler is registered, its event is set, and the manager gets as far as the handler.\<close>

lemma init_boot:
  "init_event_manager boot = boot\<lparr>evn_queue := Some [], periodic_evn_queue := Some [], manager_task := Some Waiting\<rparr>"
proof -
  have "reset_event_list new_registry = new_registry"
    by (simp add: reset_event_list_def new_registry_def no_entry_def)
  moreover have "new_timer\<lparr>ms_counter := 0\<rparr> = new_timer" by (simp add: new_timer_def)
  ultimately show ?thesis
    by (simp add: init_event_manager_def init_event_time_manager_def boot_def)
qed

definition press :: DevEvn where "press = \<lparr>evn_id = EVN_BUT_PRESS, evn_ctx = 3\<rparr>"

definition one_entry :: "EventHandlerRegistry list" where
  "one_entry = new_registry[0 := \<lparr>event_id = EVN_BUT_PRESS, handler = Some 7\<rparr>]"

lemma new_registry_nth: "0 < length new_registry" "new_registry ! 0 = no_entry" "length new_registry = 100"
  by (simp_all add: new_registry_def MAX_EVENT_HANDLERS_def)

lemma one_entry_found: "get_event_entry 0 EVN_BUT_PRESS None one_entry = (Some 0, 1)"
proof -
  have "seek_entry 0 EVN_BUT_PRESS None one_entry = 0"
    by (subst seek_entry.simps) (simp add: one_entry_def entry_matches_def new_registry_nth)
  then show ?thesis by (simp add: get_event_entry_def one_entry_def new_registry_nth)
qed

lemma one_entry_rest: "fst (get_event_entry 1 EVN_BUT_PRESS None one_entry) = None"
proof -
  let ?j = "seek_entry 1 EVN_BUT_PRESS None one_entry"
  have "\<not> ?j < length one_entry"
    using seek_entry_spec [of 1 EVN_BUT_PRESS None one_entry] seek_entry_ge [of 1 EVN_BUT_PRESS None one_entry]
    by (auto simp: one_entry_def entry_matches_def new_registry_def no_entry_def MAX_EVENT_HANDLERS_def)
  then show ?thesis by (simp add: get_event_entry_def)
qed

lemma register_first: "register_event_handler EVN_BUT_PRESS (Some 7) new_registry = (True, one_entry)"
proof -
  have "seek_entry 0 EVN_NO_ENTRY None new_registry = 0"
    by (subst seek_entry.simps) (simp add: entry_matches_def new_registry_nth no_entry_def)
  then have "fst (get_event_entry 0 EVN_NO_ENTRY None new_registry) = Some 0"
    by (simp add: get_event_entry_def new_registry_nth)
  moreover have "7 \<notin> set (handlers_of EVN_BUT_PRESS new_registry)" by (simp add: new_registry_def)
  ultimately show ?thesis by (simp add: register_cases one_entry_def)
qed

definition sys_at :: "DevEvn list \<Rightarrow> EventHandlerRegistry list \<Rightarrow> manager \<Rightarrow> event_system" where
  "sys_at q reg m = boot\<lparr>event_handler_registry := reg, evn_queue := Some q,
     periodic_evn_queue := Some [], manager_task := Some m\<rparr>"

definition to_the_check :: "obs list" where
  "to_the_check = [Act Other (Register_event_handler EVN_BUT_PRESS (Some 7)) True,
     Act Other (Set_event EVN_BUT_PRESS 3) True, Take press, Tau, Tau]"

lemma init_sys_at: "init_event_manager boot = sys_at [] new_registry Waiting"
  unfolding init_boot by (simp add: sys_at_def boot_def)

lemma run_to_check:
  "sys_run H (init_event_manager boot) to_the_check (sys_at [] one_entry (Checked press 0 1 0))"
proof -
  have "sys_step H (sys_at [] new_registry Waiting) (Act Other (Register_event_handler EVN_BUT_PRESS (Some 7)) True)
      (sys_at [] one_entry Waiting)"
    by (rule other) (simp add: sys_at_def register_first)
  moreover have "sys_step H (sys_at [] one_entry Waiting) (Act Other (Set_event EVN_BUT_PRESS 3) True)
      (sys_at [press] one_entry Waiting)"
    by (rule other) (simp add: sys_at_def set_event_def queue_send_def EVN_QUEUE_LEN_def press_def)
  moreover have "sys_step H (sys_at [press] one_entry Waiting) (Take press) (sys_at [] one_entry (Searching press 0 0))"
    using take_event [of "sys_at [press] one_entry Waiting" press "[]" H]
    by (simp add: sys_at_def boot_def new_timer_def)
  moreover have "sys_step H (sys_at [] one_entry (Searching press 0 0)) Tau (sys_at [] one_entry (Found press 0 1 0))"
    using found [of "sys_at [] one_entry (Searching press 0 0)" press 0 0 0 1 H] one_entry_found
    by (simp add: sys_at_def press_def)
  moreover have "sys_step H (sys_at [] one_entry (Found press 0 1 0)) Tau (sys_at [] one_entry (Checked press 0 1 0))"
    using checked [of "sys_at [] one_entry (Found press 0 1 0)" press 0 1 0 H]
    by (simp add: sys_at_def one_entry_def new_registry_nth)
  ultimately show ?thesis
    unfolding to_the_check_def init_sys_at by (meson sys_run_before sys_run_one)
qed

section \<open>Properties\<close>

text \<open>C10: In every state the system can reach, however calls, ticks and the manager interleave, an
  event has at most one slot in the list of 50, the table has its 100 entries, at most 20
  events and 10 requests wait, and no call of the interface fails.\<close>

theorem event_system_safe:
  assumes "sys_run H (init_event_manager boot) os s"
  shows "distinct (used_ids (periodic_evn_list (periodic_timer s))) \<and>
    length (periodic_evn_list (periodic_timer s)) = PERIODIC_EVN_LIST_LEN \<and>
    length (event_handler_registry s) = MAX_EVENT_HANDLERS \<and>
    (\<exists>q. evn_queue s = Some q \<and> length q \<le> EVN_QUEUE_LEN) \<and>
    (\<exists>n. periodic_evn_queue s = Some n \<and> length n \<le> NEW_EVN_QUEUE_LEN) \<and>
    (\<forall>a. do_api a s \<noteq> None)"
proof -
  have inv: "system_inv s" using assms init_event_manager_inv by (rule sys_run_inv)
  then have "do_api a s \<noteq> None" for a using do_api_total [of s a] by auto
  with inv show ?thesis by (simp add: system_inv_def timer_inv_def list_inv_def)
qed

theorem event_system_safe_witness:
  "\<exists>q. evn_queue (sys_at [] one_entry (Checked press 0 1 0)) = Some q \<and> length q \<le> EVN_QUEUE_LEN"
  using event_system_safe [OF run_to_check] by blast

text \<open>C11: Events are dispatched in the order they were accepted, and none that was accepted is lost or
  dispatched twice: at any moment the events put into the queue, by \<open>set_event\<close> or by the timer,
  are those taken from it followed by those that wait.\<close>

theorem events_fifo:
  assumes "sys_run H (init_event_manager boot) os s"
  shows "\<exists>q. evn_queue s = Some q \<and> concat (map accepted os) = concat (map taken os) @ q"
  using sys_run_queue [OF assms init_event_manager_inv, of "[]"] by (simp add: init_boot)

theorem events_fifo_witness: "concat (map accepted to_the_check) = [press]"
  using events_fifo [OF run_to_check] by (auto simp: to_the_check_def sys_at_def)

text \<open>C12: The dispatch of an event ends, whatever the handlers, the timer and the other tasks do to
  the registry meanwhile: in an endless run in which the manager is scheduled again and again
  it waits for the next event again and again.\<close>

theorem every_dispatch_ends:
  assumes "endless_run H f obss" "infinite {n. by_manager (obss n)}"
  shows "\<exists>n. m \<le> n \<and> manager_task (f n) = Some Waiting"
proof (rule ccontr)
  assume "\<not> ?thesis"
  then obtain k where "\<forall>n. k \<le> n \<longrightarrow> \<not> by_manager (obss n)"
    using busy_forever [OF assms(1), of m] by blast
  then have "{n. by_manager (obss n)} \<subseteq> {..< k}" by (auto simp: not_le [symmetric])
  then show False using assms(2) finite_subset by blast
qed

text \<open>An endless run: another task sets an event without handlers, the manager takes it and ends.\<close>

definition rounds :: "nat \<Rightarrow> event_system" where
  "rounds n = (if n mod 3 = 0 then sys_at [] new_registry Waiting
     else if n mod 3 = 1 then sys_at [press] new_registry Waiting
     else sys_at [] new_registry (Searching press 0 0))"

definition round_obs :: "nat \<Rightarrow> obs" where
  "round_obs n = (if n mod 3 = 0 then Act Other (Set_event EVN_BUT_PRESS 3) True
     else if n mod 3 = 1 then Take press else Tau)"

lemma rounds_endless: "endless_run H rounds round_obs"
proof -
  have set: "sys_step H (sys_at [] new_registry Waiting) (Act Other (Set_event EVN_BUT_PRESS 3) True)
      (sys_at [press] new_registry Waiting)"
    by (rule other) (simp add: sys_at_def set_event_def queue_send_def EVN_QUEUE_LEN_def press_def)
  have take: "sys_step H (sys_at [press] new_registry Waiting) (Take press)
      (sys_at [] new_registry (Searching press 0 0))"
    using take_event [of "sys_at [press] new_registry Waiting" press "[]" H]
    by (simp add: sys_at_def boot_def new_timer_def)
  have "fst (get_event_entry 0 EVN_BUT_PRESS None new_registry) = None"
    by (simp add: get_event_entry_None new_registry_def entry_matches_def no_entry_def)
  then obtain i where "get_event_entry 0 EVN_BUT_PRESS None new_registry = (None, i)" by (metis prod.collapse)
  then have finish: "sys_step H (sys_at [] new_registry (Searching press 0 0)) Tau (sys_at [] new_registry Waiting)"
    using finished [of "sys_at [] new_registry (Searching press 0 0)" press 0 0 i H]
    by (simp add: sys_at_def press_def)
  have "sys_step H (rounds n) (round_obs n) (rounds (Suc n))" for n
  proof -
    consider "n mod 3 = 0" | "n mod 3 = 1" | "n mod 3 = 2" by linarith
    then show ?thesis
      by cases (use set take finish in \<open>simp_all add: rounds_def round_obs_def mod_Suc\<close>)
  qed
  then show ?thesis by (simp add: endless_run_def rounds_def init_sys_at)
qed

theorem every_dispatch_ends_witness: "\<exists>n. 5 \<le> n \<and> manager_task (rounds n) = Some Waiting"
proof -
  have "3 * k + 1 \<in> {n. by_manager (round_obs n)}" for k by (simp add: round_obs_def)
  then have "range (\<lambda>k. 3 * k + 1) \<subseteq> {n. by_manager (round_obs n)}" by blast
  moreover have "infinite (range (\<lambda>k :: nat. 3 * k + 1))"
    using finite_imageD [of "\<lambda>k. 3 * k + 1" "UNIV :: nat set"] by (auto simp: inj_def)
  ultimately have "infinite {n. by_manager (round_obs n)}" using finite_subset by blast
  from every_dispatch_ends [OF rounds_endless this] show ?thesis .
qed

text \<open>The manager's steps, when nothing comes between them, are the function \<open>dispatch\<close>.\<close>

lemma manager_refines_dispatch:
  assumes "system_inv s" "manager_task s = Some Waiting" "evn_queue s = Some (ev # q)"
    "dispatch (handler_effect P) (ms_counter (periodic_timer s)) ev
       (event_handler_registry s, s\<lparr>evn_queue := Some q\<rparr>) = Some (reg', s')"
  shows "\<exists>os. list_all uninterrupted os \<and> sys_run (\<lambda>h ms ctx. {P h ms ctx}) s (Take ev # os)
    (s'\<lparr>event_handler_registry := reg', manager_task := Some Waiting\<rparr>)"
proof -
  let ?ms = "ms_counter (periodic_timer s)" and ?w = "s\<lparr>evn_queue := Some q\<rparr>"
  let ?s1 = "?w\<lparr>manager_task := Some (Searching ev ?ms 0)\<rparr>"
  have "system_inv ?s1" using assms(1,3) by (simp add: system_inv_def)
  then obtain os where "list_all uninterrupted os" "sys_run (\<lambda>h ms ctx. {P h ms ctx}) ?s1 os
      (s'\<lparr>event_handler_registry := reg', manager_task := Some Waiting\<rparr>)"
    using manager_runs [of _ 0 P ?ms ev ?s1 ?w reg' s'] assms(4) unfolding dispatch_def
    by (auto simp del: dispatch_from.simps)
  then show ?thesis using sys_run_before [OF take_event [OF assms(2,3)]] by blast
qed

text \<open>C13: After the manager took an event, and as long as nothing is registered or unregistered,
  whatever events the tasks and the timer set meanwhile: the handlers called are those registered
  for the event, in the order of the table, each once with the time at which the event was taken
  and the event's context; no null pointer is called; and when the manager waits again every one of
  them has been called.\<close>

theorem event_reaches_handlers:
  assumes "system_inv s" "sys_step H s (Take ev) s1" "sys_run H s1 os s2" "evn_id ev \<noteq> EVN_ANY"
    "concat (map taken os) = []" "\<not> list_ex changes_registry os"
  shows "\<exists>rest. concat (map entered os) @ rest =
      map (\<lambda>h. (h, ms_counter (periodic_timer s), evn_ctx ev)) (handlers_of (evn_id ev) (event_handler_registry s)) \<and>
    (manager_task s2 = Some Waiting \<longrightarrow> rest = []) \<and> manager_task s2 \<noteq> Some Crashed"
proof -
  let ?ms = "ms_counter (periodic_timer s)" and ?reg = "event_handler_registry s"
  have "manager_task s1 = Some (Searching ev ?ms 0)" "event_handler_registry s1 = ?reg"
    using assms(2) by (auto elim!: sys_step_takeE)
  then obtain m where m: "manager_task s2 = Some m" "serving ev ?ms ?reg m"
    "concat (map entered os) @ map (\<lambda>h. (h, ?ms, evn_ctx ev)) (to_call ?reg m) =
     map (\<lambda>h. (h, ?ms, evn_ctx ev)) (handlers_of (evn_id ev) ?reg)"
    using sys_run_serving [OF assms(3), where ev = ev and ms = ?ms and reg = ?reg and m = "Searching ev ?ms 0"]
      assms(4-6) by auto
  then show ?thesis by (intro exI [of _ "map (\<lambda>h. (h, ?ms, evn_ctx ev)) (to_call ?reg m)"]) auto
qed

theorem event_reaches_handlers_witness:
  "[(7, 0 :: u32, 3 :: u32)] = map (\<lambda>h. (h, 0, 3)) (handlers_of EVN_BUT_PRESS one_entry)"
proof -
  let ?H = "\<lambda>h ms ctx. {Return}"
  let ?s = "sys_at [press] one_entry Waiting" and ?s1 = "sys_at [] one_entry (Searching press 0 0)"
  have inv: "system_inv ?s"
    using new_timer_inv
    by (simp add: system_inv_def sys_at_def boot_def one_entry_def new_registry_nth MAX_EVENT_HANDLERS_def
        EVN_QUEUE_LEN_def)
  have take: "sys_step ?H ?s (Take press) ?s1"
    using take_event [of ?s press "[]" ?H] by (simp add: sys_at_def boot_def new_timer_def)
  have "sys_step ?H ?s1 Tau (sys_at [] one_entry (Found press 0 1 0))"
    using found [of ?s1 press 0 0 0 1 ?H] one_entry_found by (simp add: sys_at_def press_def)
  moreover have "sys_step ?H (sys_at [] one_entry (Found press 0 1 0)) Tau (sys_at [] one_entry (Checked press 0 1 0))"
    using checked [of "sys_at [] one_entry (Found press 0 1 0)" press 0 1 0 ?H]
    by (simp add: sys_at_def one_entry_def new_registry_nth)
  moreover have "sys_step ?H (sys_at [] one_entry (Checked press 0 1 0)) Tau (sys_at [] one_entry (Loaded press 0 1 (Some 7)))"
    using load [of "sys_at [] one_entry (Checked press 0 1 0)" press 0 1 0 ?H]
    by (simp add: sys_at_def one_entry_def new_registry_nth)
  moreover have "sys_step ?H (sys_at [] one_entry (Loaded press 0 1 (Some 7))) (Enter 7 0 3)
      (sys_at [] one_entry (Inside press 0 1 Return))"
    using enter [of "sys_at [] one_entry (Loaded press 0 1 (Some 7))" press 0 1 7 Return ?H]
    by (simp add: sys_at_def press_def)
  moreover have "sys_step ?H (sys_at [] one_entry (Inside press 0 1 Return)) Tau (sys_at [] one_entry (Searching press 0 1))"
    using handler_return [of "sys_at [] one_entry (Inside press 0 1 Return)" press 0 1 ?H]
    by (simp add: sys_at_def)
  moreover have "sys_step ?H (sys_at [] one_entry (Searching press 0 1)) Tau (sys_at [] one_entry Waiting)"
    using finished [of "sys_at [] one_entry (Searching press 0 1)" press 0 1 _ ?H] one_entry_rest
    by (cases "get_event_entry 1 EVN_BUT_PRESS None one_entry") (simp add: sys_at_def press_def)
  ultimately have run: "sys_run ?H ?s1 [Tau, Tau, Tau, Enter 7 0 3, Tau, Tau] (sys_at [] one_entry Waiting)"
    by (meson sys_run_before sys_run_one)
  have "evn_id press \<noteq> EVN_ANY" by (simp add: press_def)
  from event_reaches_handlers [OF inv take run this] show ?thesis
    by (simp add: press_def sys_at_def boot_def new_timer_def)
qed

text \<open>C14: Once a handler has been unregistered it is not called again until it is registered again,
  whatever else happens and even when it unregisters itself during the dispatch of its own event;
  except that the manager may have loaded its address for a call before, and then it is called at
  most once more.\<close>

theorem unregistered_not_called:
  assumes "system_inv s" "do_api (Unregister_event_handler (Some h)) s = Some (r, s1)"
    "sys_run H s1 os s2" "\<And>w e r. Act w (Register_event_handler e (Some h)) r \<notin> set os"
  shows "length (filter (enters h) os) \<le> (if loaded h (manager_task s) then 1 else 0)"
proof -
  have gone: "\<not> mentions h (event_handler_registry s1)" using assms(2) unregistered_gone by auto
  have inv1: "system_inv s1" using assms(1,2) by (blast intro: do_api_inv)
  have never: "\<forall>w e r. Act w (Register_event_handler e (Some h)) r \<notin> set os" using assms(4) by simp
  have "\<not> mentions h (event_handler_registry s2) \<and>
      length (filter (enters h) os) + of_bool (loaded h (manager_task s2)) \<le> of_bool (loaded h (manager_task s1))"
    using assms(3) inv1 never gone
  proof (induction rule: sys_run.induct)
    case (start s)
    then show ?case by simp
  next
    case (step s os s1 ob s2)
    then have ih: "\<not> mentions h (event_handler_registry s1)"
      "length (filter (enters h) os) + of_bool (loaded h (manager_task s1)) \<le> of_bool (loaded h (manager_task s))"
      by auto
    have inv: "system_inv s1" using step.hyps(1) step.prems(1) by (rule sys_run_inv)
    have "\<not> mentions h (event_handler_registry s2)"
      using sys_step_mentions [OF step.hyps(2) ih(1)] step.prems by fastforce
    then show ?case using ih(2) sys_step_enters [OF step.hyps(2) inv ih(1)]
      by (auto simp: of_bool_def split: if_splits)
  qed
  then show ?thesis using do_api_frame(2) [OF assms(2)] by (auto simp: of_bool_def split: if_splits)
qed

theorem unregistered_not_called_witness:
  "length (filter (enters 7) [Act Other (Set_event EVN_BUT_PRESS 3) True, Take press]) = 0"
proof -
  let ?s0 = "sys_at [] one_entry Waiting" and ?reg = "unregister_event_handler (Some 7) one_entry"
  have inv: "system_inv ?s0"
    using new_timer_inv
    by (simp add: system_inv_def sys_at_def boot_def one_entry_def new_registry_nth MAX_EVENT_HANDLERS_def)
  have call: "do_api (Unregister_event_handler (Some 7)) ?s0 = Some (True, sys_at [] ?reg Waiting)"
    by (simp add: sys_at_def)
  have "sys_step H (sys_at [] ?reg Waiting) (Act Other (Set_event EVN_BUT_PRESS 3) True) (sys_at [press] ?reg Waiting)" for H
    by (rule other) (simp add: sys_at_def set_event_def queue_send_def EVN_QUEUE_LEN_def press_def)
  moreover have "sys_step H (sys_at [press] ?reg Waiting) (Take press) (sys_at [] ?reg (Searching press 0 0))" for H
    using take_event [of "sys_at [press] ?reg Waiting" press "[]" H]
    by (simp add: sys_at_def boot_def new_timer_def)
  ultimately have "sys_run H (sys_at [] ?reg Waiting) [Act Other (Set_event EVN_BUT_PRESS 3) True, Take press]
      (sys_at [] ?reg (Searching press 0 0))" for H
    by (meson sys_run_before sys_run_one)
  from unregistered_not_called [OF inv call this] show ?thesis by (simp add: sys_at_def)
qed

text \<open>The call of a handler that was unregistered after its address was loaded does happen.\<close>

lemma stale_call:
  "\<exists>os s. sys_run (\<lambda>h ms ctx. {Return}) (init_event_manager boot)
    (os @ [Act Other (Unregister_event_handler (Some 7)) True, Enter 7 0 3]) s"
proof -
  let ?H = "\<lambda>h ms ctx. {Return}" and ?l = "Loaded press 0 1 (Some 7)"
  let ?reg = "unregister_event_handler (Some 7) one_entry"
  have l: "sys_step ?H (sys_at [] one_entry (Checked press 0 1 0)) Tau (sys_at [] one_entry ?l)"
    using load [of "sys_at [] one_entry (Checked press 0 1 0)" press 0 1 0 ?H]
    by (simp add: sys_at_def one_entry_def new_registry_nth)
  have un: "sys_step ?H (sys_at [] one_entry ?l) (Act Other (Unregister_event_handler (Some 7)) True) (sys_at [] ?reg ?l)"
    by (rule other) (simp add: sys_at_def)
  have "sys_step ?H (sys_at [] ?reg ?l) (Enter 7 0 3) (sys_at [] ?reg (Inside press 0 1 Return))"
    using enter [of "sys_at [] ?reg ?l" press 0 1 7 Return ?H] by (simp add: sys_at_def press_def)
  with un have "sys_run ?H (sys_at [] one_entry ?l) [Act Other (Unregister_event_handler (Some 7)) True, Enter 7 0 3]
      (sys_at [] ?reg (Inside press 0 1 Return))"
    by (meson sys_run_before sys_run_one)
  then show ?thesis using sys_run_trans [OF _ sys_run.step [OF run_to_check l]] by blast
qed

text \<open>The manager never calls the null pointer as long as only handlers unregister anything.\<close>

lemma null_call_needs_unregister:
  assumes "sys_run H (init_event_manager boot) os s" "\<not> list_ex unregisters os"
  shows "manager_task s \<noteq> Some Crashed"
  using sys_run_entry_kept [OF assms(1) _ assms(2)] by (simp add: entry_kept_def init_boot)

lemma null_call_needs_unregister_witness:
  "manager_task (sys_at [] one_entry (Checked press 0 1 0)) \<noteq> Some Crashed"
  using null_call_needs_unregister [OF run_to_check] by (simp add: to_the_check_def)

text \<open>
  Another task that unregisters the handler between the comparison and the call makes the
  manager call the null pointer.
\<close>

lemma unregister_race:
  "\<exists>os s. sys_run H (init_event_manager boot) os s \<and> manager_task s = Some Crashed"
proof -
  let ?c = "Checked press 0 1 0" and ?reg = "unregister_event_handler (Some 7) one_entry"
  have un: "sys_step H (sys_at [] one_entry ?c) (Act Other (Unregister_event_handler (Some 7)) True) (sys_at [] ?reg ?c)"
    by (rule other) (simp add: sys_at_def)
  have "?reg ! 0 = no_entry"
    by (simp add: unregister_event_handler_map one_entry_def new_registry_nth no_entry_def)
  then have l: "sys_step H (sys_at [] ?reg ?c) Tau (sys_at [] ?reg (Loaded press 0 1 None))"
    using load [of "sys_at [] ?reg ?c" press 0 1 0 H] by (simp add: sys_at_def no_entry_def)
  have "sys_step H (sys_at [] ?reg (Loaded press 0 1 None)) Tau (sys_at [] ?reg Crashed)"
    using crash [of "sys_at [] ?reg (Loaded press 0 1 None)" press 0 1 H] by (simp add: sys_at_def)
  then have "sys_run H (init_event_manager boot)
      (((to_the_check @ [Act Other (Unregister_event_handler (Some 7)) True]) @ [Tau]) @ [Tau])
      (sys_at [] ?reg Crashed)"
    using sys_run.step [OF sys_run.step [OF run_to_check un] l] sys_run.step by blast
  moreover have "manager_task (sys_at [] ?reg Crashed) = Some Crashed" by (simp add: sys_at_def)
  ultimately show ?thesis by blast
qed

end
