(* ===== verification/Device_Gpio.thy ===== *)
theory Device_Gpio
  imports Event_Timer
begin

text \<open>
  The buttons, \<open>components/device_gpio/device_gpio.c\<close> and \<open>button_reader.c\<close>.  \<open>get_inp_state\<close> classifies one input by the time since its last inactive sample;
  the poll \<open>device_read_but_handler\<close> reads all buttons and reports them as one event.  The level
  of a pin (\<open>gpio_get_level\<close>) and the driver are parameters.  The lemmas follow a sequence of
  polls: which reports it makes, and how far apart they are.
\<close>

section \<open>One input\<close>

datatype GpioState = GPIO_INACTIVE | GPIO_ACTIVE | GPIO_CLICK | GPIO_HELD

definition BUT_MULTI_PRESS :: u32 where "BUT_MULTI_PRESS = push_bit 6 1"

definition START_TIME :: u32 where "START_TIME = 1000"
definition DEBOUNCE_TIME :: u32 where "DEBOUNCE_TIME = 75"
definition HELD_TIME :: u32 where "HELD_TIME = 800"

lemmas latency_defs = START_TIME_def DEBOUNCE_TIME_def HELD_TIME_def

record GpioData =
  pin_num :: int
  gpio_state :: GpioState

record GpioCtx =
  gdata :: GpioData
  active_level :: bool
  start_active_time :: u32

text \<open>\<open>level\<close> is \<open>gpio_get_level\<close>; C compares its \<open>int\<close> with a \<open>bool\<close>, which is 0 or 1.\<close>

definition is_active :: "(int \<Rightarrow> int) \<Rightarrow> GpioCtx \<Rightarrow> bool" where
  "is_active level conf \<longleftrightarrow> level (pin_num (gdata conf)) = (if active_level conf then 1 else 0)"

definition get_inp_state :: "(int \<Rightarrow> int) \<Rightarrow> GpioCtx \<Rightarrow> u32 \<Rightarrow> GpioState \<times> GpioCtx" where
  "get_inp_state level conf cur_time =
     (if start_active_time conf > cur_time then (GPIO_INACTIVE, conf)
      else
        let active_state_time = cur_time - start_active_time conf in
        if is_active level conf
        then (if active_state_time > HELD_TIME then GPIO_HELD else GPIO_ACTIVE, conf)
        else if active_state_time > DEBOUNCE_TIME then (GPIO_CLICK, conf)
        else (GPIO_INACTIVE, conf\<lparr>start_active_time := cur_time\<rparr>))"

text \<open>
  \<open>device_conf_gpio_in\<close>: \<open>config\<close> is \<open>gpio_config\<close>, its result the error number.  A pin outside
  0 to 63 makes the shift undefined.
\<close>

record gpio_config_t =
  pin_bit_mask :: u64
  pull_up_en :: bool
  pull_down_en :: bool

definition device_conf_gpio_in ::
  "(gpio_config_t \<Rightarrow> int) \<Rightarrow> GpioCtx \<Rightarrow> int \<Rightarrow> bool \<Rightarrow> (int \<times> GpioCtx) option" where
  "device_conf_gpio_in config conf pin active =
     (let conf = conf\<lparr>active_level := active\<rparr>;
          conf = conf\<lparr>gdata := (gdata conf)\<lparr>pin_num := pin\<rparr>\<rparr>;
          conf = conf\<lparr>start_active_time := START_TIME\<rparr> in
      if 0 \<le> pin \<and> pin < 64
      then Some (config \<lparr>pin_bit_mask = push_bit (nat pin) 1,
                         pull_up_en = \<not> active, pull_down_en = active\<rparr>, conf)
      else None)"

section \<open>The poll of the buttons\<close>

text \<open>
  The first loop of \<open>device_read_but_handler\<close> from button \<open>i\<close>, with the local variables
  \<open>bits\<close>, \<open>held\<close> and \<open>click\<close>.
\<close>

definition count_button :: "nat \<Rightarrow> GpioState \<Rightarrow> u32 \<times> u32 \<times> u32 \<Rightarrow> u32 \<times> u32 \<times> u32" where
  "count_button i but_val acc =
     (case acc of (bits, held, click) \<Rightarrow>
        if but_val = GPIO_INACTIVE then (bits, held, click)
        else if but_val = GPIO_HELD then (bits OR push_bit (i * 2 + 1) 1, held + 1, click)
        else if but_val = GPIO_CLICK \<or> held \<noteq> 0 \<or> click \<noteq> 0
        then (bits OR push_bit (i * 2) 1, held, click + 1)
        else (bits, held, click))"

fun scan_buttons :: "(int \<Rightarrow> int) \<Rightarrow> u32 \<Rightarrow> nat \<Rightarrow> GpioCtx list \<Rightarrow> u32 \<times> u32 \<times> u32 \<Rightarrow>
    GpioCtx list \<times> u32 \<times> u32 \<times> u32" where
  "scan_buttons level ms i [] acc = ([], acc)"
| "scan_buttons level ms i (c # cs) acc =
     (let (but_val, c') = get_inp_state level c ms;
          (cs', acc') = scan_buttons level ms (Suc i) cs (count_button i but_val acc)
      in (c' # cs', acc'))"

text \<open>The buttons after a poll and the bits it reports, 0 for no report.\<close>

definition read_buttons :: "(int \<Rightarrow> int) \<Rightarrow> u32 \<Rightarrow> GpioCtx list \<Rightarrow> GpioCtx list \<times> u32" where
  "read_buttons level ms but_list =
     (case scan_buttons level ms 0 but_list (0, 0, 0) of (but_list, bits, held, click) \<Rightarrow>
        if bits \<noteq> 0
        then let debounce_time = (if held \<noteq> 0 then HELD_TIME else DEBOUNCE_TIME) in
             (map (\<lambda>c. c\<lparr>start_active_time := ms + debounce_time\<rparr>) but_list,
              if held + click > 1 then bits OR BUT_MULTI_PRESS else bits)
        else (but_list, 0))"

definition device_read_but_handler ::
  "(int \<Rightarrow> int) \<Rightarrow> (DevEvn \<Rightarrow> 'q \<Rightarrow> bool \<times> 'q) \<Rightarrow> u32 \<Rightarrow> GpioCtx list \<times> 'q \<Rightarrow> GpioCtx list \<times> 'q" where
  "device_read_but_handler level send ms s =
     (case s of (but_list, q) \<Rightarrow>
        case read_buttons level ms but_list of (but_list, bits) \<Rightarrow>
          (but_list, if bits \<noteq> 0 then snd (set_event send EVN_BUT_PRESS bits q) else q))"

text \<open>
  \<open>device_gpio_init\<close>: \<open>pins\<close> are the configured pins with their active levels, \<open>h\<close> is the number
  of the poll as a handler.  \<open>ESP_ERROR_CHECK\<close> aborts the program on an error: \<open>None\<close>.
\<close>

definition gpio_init_data_list :: "(int \<times> bool) list" where
  "gpio_init_data_list = [(40, False), (42, False), (41, False)]"

fun conf_buttons :: "(gpio_config_t \<Rightarrow> int) \<Rightarrow> (int \<times> bool) list \<Rightarrow> GpioCtx list \<Rightarrow> GpioCtx list option" where
  "conf_buttons config ((pin, lvl) # pins) (c # cs) =
     do {
       (err, c) \<leftarrow> device_conf_gpio_in config c pin lvl;
       if err \<noteq> 0 then None else map_option ((#) c) (conf_buttons config pins cs)
     }"
| "conf_buttons config pins cs = Some cs"

definition device_gpio_init :: "(gpio_config_t \<Rightarrow> int) \<Rightarrow> nat \<Rightarrow> (PeriodicEvent \<Rightarrow> 'q \<Rightarrow> 'q) \<Rightarrow>
    GpioCtx list \<times> EventHandlerRegistry list \<times> 'q \<Rightarrow>
    (GpioCtx list \<times> EventHandlerRegistry list \<times> 'q) option" where
  "device_gpio_init config h request s =
     (case s of (but_list, reg, q) \<Rightarrow>
        do {
          but_list \<leftarrow> conf_buttons config gpio_init_data_list but_list;
          Some (but_list, snd (register_event_handler EVN_READ_GPIO (Some h) reg),
                request (start_periodic_event EVN_READ_GPIO 0 75 FOREVER) q)
        })"

section \<open>Sequences of polls\<close>

type_synonym poll = "u32 \<times> (int \<Rightarrow> int)"

text \<open>The reports, with their times, of a sequence of polls.\<close>

fun but_run :: "poll list \<Rightarrow> GpioCtx list \<Rightarrow> (u32 \<times> u32) list" where
  "but_run [] cs = []"
| "but_run ((ms, level) # ps) cs =
     (case read_buttons level ms cs of (cs', bits) \<Rightarrow>
        (if bits \<noteq> 0 then [(ms, bits)] else []) @ but_run ps cs')"

text \<open>The polls are what the handler sends as events.\<close>

lemma handler_reports:
  "device_read_but_handler level (\<lambda>e q. (True, q @ [e])) ms (cs, q) =
     (fst (read_buttons level ms cs),
      q @ map (\<lambda>(t, bits). \<lparr>evn_id = EVN_BUT_PRESS, evn_ctx = bits\<rparr>) (but_run [(ms, level)] cs))"
  by (simp add: device_read_but_handler_def set_event_def split: prod.split)

text \<open>Every button's time is at least \<open>L\<close>: nothing is reported before \<open>L\<close>.\<close>

definition quiet_until :: "u32 \<Rightarrow> GpioCtx list \<Rightarrow> bool" where
  "quiet_until L cs \<longleftrightarrow> (\<forall>c\<in>set cs. L \<le> start_active_time c)"

lemma get_inp_state_start:
  "get_inp_state level c ms = (v, c') \<Longrightarrow> L \<le> start_active_time c \<Longrightarrow>
     L \<le> start_active_time c' \<and> (v \<noteq> GPIO_INACTIVE \<longrightarrow> L \<le> ms)"
  by (auto simp: get_inp_state_def Let_def not_less split: if_splits intro: order_trans)

lemma count_inactive [simp]: "count_button i GPIO_INACTIVE acc = acc"
  by (simp add: count_button_def split: prod.split)

lemma scan_quiet:
  "quiet_until L cs \<Longrightarrow> scan_buttons level ms i cs acc = (cs', acc') \<Longrightarrow>
     quiet_until L cs' \<and> (acc' \<noteq> acc \<longrightarrow> L \<le> ms)"
proof (induction cs arbitrary: i acc cs' acc')
  case Nil
  then show ?case by (simp add: quiet_until_def)
next
  case (Cons c cs)
  obtain v c' where g: "get_inp_state level c ms = (v, c')" by force
  obtain ds where s: "scan_buttons level ms (Suc i) cs (count_button i v acc) = (ds, acc')"
    and cs': "cs' = c' # ds"
    using Cons.prems(2) g by (auto split: prod.splits)
  have c: "L \<le> start_active_time c" "quiet_until L cs"
    using Cons.prems(1) by (simp_all add: quiet_until_def)
  note IH = Cons.IH [OF c(2) s]
  from get_inp_state_start [OF g c(1)] IH show ?case
    by (cases "v = GPIO_INACTIVE") (auto simp: cs' quiet_until_def)
qed

lemma read_buttons_quiet:
  assumes "quiet_until L cs" "read_buttons level ms cs = (cs', bits)" "unat ms + 800 < 2 ^ 32"
  shows "quiet_until L cs'" "bits \<noteq> 0 \<Longrightarrow> L \<le> ms" "bits \<noteq> 0 \<Longrightarrow> quiet_until (ms + DEBOUNCE_TIME) cs'"
proof -
  obtain ds b h k where s: "scan_buttons level ms 0 cs (0, 0, 0) = (ds, b, h, k)"
    by (metis prod_cases4)
  have le: "ms \<le> ms + HELD_TIME" "ms \<le> ms + DEBOUNCE_TIME" "ms + DEBOUNCE_TIME \<le> ms + HELD_TIME"
    using assms(3) by (simp_all add: latency_defs word_le_nat_alt unat_word_ariths)
  from scan_quiet [OF assms(1) s]
  have q: "quiet_until L ds" "b \<noteq> 0 \<Longrightarrow> L \<le> ms" by auto
  have split: "cs' = ds \<and> bits = 0 \<and> b = 0 \<or>
      b \<noteq> 0 \<and> (\<exists>d. (d = HELD_TIME \<or> d = DEBOUNCE_TIME) \<and>
                  cs' = map (\<lambda>c. c\<lparr>start_active_time := ms + d\<rparr>) ds)"
    using assms(2) s by (auto simp: read_buttons_def Let_def split: if_splits)
  then show "quiet_until L cs'" "bits \<noteq> 0 \<Longrightarrow> L \<le> ms"
      "bits \<noteq> 0 \<Longrightarrow> quiet_until (ms + DEBOUNCE_TIME) cs'"
    using q le by (auto simp: quiet_until_def intro: order_trans)
qed

lemma but_run_quiet:
  "quiet_until L cs \<Longrightarrow> \<forall>p\<in>set ps. unat (fst p) + 800 < 2 ^ 32 \<Longrightarrow>
     (\<forall>r\<in>set (but_run ps cs). L \<le> fst r) \<and>
     sorted_wrt (\<lambda>r r'. fst r + DEBOUNCE_TIME \<le> fst r') (but_run ps cs)"
proof (induction ps arbitrary: cs L)
  case Nil
  then show ?case by simp
next
  case (Cons p ps)
  obtain ms level where p: "p = (ms, level)" by force
  obtain cs' bits where r: "read_buttons level ms cs = (cs', bits)" by force
  have ms: "unat ms + 800 < 2 ^ 32" using Cons.prems(2) p by simp
  note q = read_buttons_quiet [OF Cons.prems(1) r ms]
  have ps: "\<forall>p\<in>set ps. unat (fst p) + 800 < 2 ^ 32" using Cons.prems(2) by simp
  from Cons.IH [OF q(1) ps] Cons.IH [OF q(3) ps] q(2) r show ?case
    by (cases "bits = 0") (auto simp: p)
qed

text \<open>
  Polls at the times \<open>ts\<close> come often enough: each at most \<open>DEBOUNCE_TIME\<close> after the one before
  (or after \<open>s\<close>).  A poll before \<open>s\<close> does nothing.
\<close>

fun paced :: "u32 \<Rightarrow> u32 list \<Rightarrow> bool" where
  "paced s [] = True"
| "paced s (t # ts) = (unat t \<le> unat s + 75 \<and> paced (max s t) ts)"

definition idle_at :: "u32 \<Rightarrow> GpioCtx \<Rightarrow> GpioCtx" where
  "idle_at s c = c\<lparr>start_active_time := s\<rparr>"

lemma idle_at_sel [simp]:
  "start_active_time (idle_at s c) = s" "gdata (idle_at s c) = gdata c"
  "active_level (idle_at s c) = active_level c" "is_active level (idle_at s c) = is_active level c"
  "idle_at t (idle_at s c) = idle_at t c" "idle_at (start_active_time c) c = c"
  by (simp_all add: idle_at_def is_active_def)

lemma elapsed:
  "s \<le> t \<Longrightarrow> unat ((t::u32) - s) = unat t - unat s"
  by (simp add: unat_sub)

lemma get_released:
  assumes "\<not> is_active level c" "unat t \<le> unat s + 75"
  shows "get_inp_state level (idle_at s c) t = (GPIO_INACTIVE, idle_at (max s t) c)"
proof (cases "s \<le> t")
  case True
  then have "\<not> t - s > DEBOUNCE_TIME"
    using assms(2) by (simp add: latency_defs word_less_nat_alt elapsed)
  with True assms(1) show ?thesis
    by (simp add: get_inp_state_def Let_def not_less max_absorb2)
next
  case False
  then show ?thesis by (simp add: get_inp_state_def not_le max_def)
qed

lemma scan_released:
  "\<forall>c\<in>set cs. \<not> is_active level c \<Longrightarrow> unat t \<le> unat s + 75 \<Longrightarrow>
     scan_buttons level t i (map (idle_at s) cs) acc = (map (idle_at (max s t)) cs, acc)"
  by (induction cs arbitrary: i) (simp_all add: get_released)






section \<open>The properties\<close>

text \<open>The configured buttons, and the levels when the buttons on the pins \<open>low\<close> are pressed.\<close>

definition button :: "int \<Rightarrow> GpioCtx" where
  "button pin = \<lparr>gdata = \<lparr>pin_num = pin, gpio_state = GPIO_INACTIVE\<rparr>, active_level = False,
                 start_active_time = START_TIME\<rparr>"

definition levels :: "int list \<Rightarrow> int \<Rightarrow> int" where
  "levels low pin = (if pin \<in> set low then 0 else 1)"

lemma init_buttons:
  "length cs = 3 \<Longrightarrow> \<forall>c\<in>set cs. gpio_state (gdata c) = GPIO_INACTIVE \<Longrightarrow>
   conf_buttons (\<lambda>_. 0) gpio_init_data_list cs = Some [button 40, button 42, button 41]"
  by (auto simp: numeral_3_eq_3 length_Suc_conv gpio_init_data_list_def device_conf_gpio_in_def
      button_def Let_def)

lemma is_active_button: "is_active (levels low) (button pin) \<longleftrightarrow> pin \<in> set low"
  by (simp add: is_active_def button_def levels_def)

lemma start_button: "start_active_time (button pin) = 1000"
  by (simp add: button_def latency_defs)

text \<open>C19: Two reports of the buttons are at least 75 ms apart, whatever the pins do and
  whenever the polls come, as long as the clock is below \<open>2 ^ 32 - 800\<close>.\<close>

theorem button_reports_spaced:
  assumes "\<forall>p\<in>set ps. unat (fst p) + 800 < 2 ^ 32"
  shows "sorted_wrt (\<lambda>r r'. fst r + DEBOUNCE_TIME \<le> fst r') (but_run ps cs)"
proof -
  have "quiet_until 0 cs" by (simp add: quiet_until_def)
  then show ?thesis using but_run_quiet [OF _ assms] by blast
qed

theorem button_reports_spaced_witness:
  "sorted_wrt (\<lambda>r r'. fst r + DEBOUNCE_TIME \<le> fst r')
     (but_run [(1050, levels []), (1125, levels [40]), (1200, levels []), (1250, levels []), (1400, levels [])]
        [button 40, button 42, button 41])"
  by (rule button_reports_spaced) simp

lemma but_run_released:
  "\<forall>p\<in>set ps. \<forall>c\<in>set cs. \<not> is_active (snd p) c \<Longrightarrow> paced s (map fst ps) \<Longrightarrow>
     but_run ps (map (idle_at s) cs) = []"
proof (induction ps arbitrary: s)
  case (Cons p ps)
  then show ?case
    by (cases p) (simp add: read_buttons_def scan_released)
qed simp

text \<open>As long as no button is active and each poll comes at most 75 ms after the one
  before, nothing is reported.\<close>

lemma idle_buttons_silent:
  assumes "\<forall>c\<in>set cs. start_active_time c = s"
    and "\<forall>p\<in>set ps. \<forall>c\<in>set cs. \<not> is_active (snd p) c"
    and "paced s (map fst ps)"
  shows "but_run ps cs = []"
proof -
  have "map (idle_at s) cs = cs" using assms(1) by (intro map_idI) (auto simp: idle_at_def)
  with but_run_released [OF assms(2,3)] show ?thesis by simp
qed

lemma idle_buttons_silent_witness:
  "but_run [(900, levels []), (1050, levels []), (1125, levels [])] [button 40, button 42, button 41] = []"
  by (rule idle_buttons_silent [where s = 1000]) (simp_all add: start_button is_active_button)




text \<open>
  A press of \<open>c\<close> while the buttons \<open>ds\<close> stay released, with the times of all buttons at \<open>s\<close>: the
  polls \<open>mid\<close> see it active up to 800 ms after \<open>s\<close>, and the poll \<open>p\<close> is the first after the 800 ms
  that sees it active, or sees it released more than 75 ms after \<open>s\<close>.  What \<open>p\<close> reports.
\<close>

definition press_polls :: "GpioCtx \<Rightarrow> GpioCtx list \<Rightarrow> u32 \<Rightarrow> poll list \<Rightarrow> poll \<Rightarrow> bool" where
  "press_polls c ds s mid p \<longleftrightarrow>
     (\<forall>q\<in>set mid. is_active (snd q) c \<and> (\<forall>d\<in>set ds. \<not> is_active (snd q) d) \<and>
        s \<le> fst q \<and> unat (fst q) \<le> unat s + 800) \<and>
     (\<forall>d\<in>set ds. \<not> is_active (snd p) d) \<and>
     (if is_active (snd p) c then unat s + 800 < unat (fst p) else unat s + 75 < unat (fst p)) \<and>
     paced s (map fst mid @ [fst p])"


lemma press_polls_idle: "press_polls (idle_at u c) ds s mid p = press_polls c ds s mid p"
  by (simp add: press_polls_def)




end
