(* ===== verification/Device.thy ===== *)
theory Device
  imports Prelude
begin

text \<open>
  The device's data, settings and helpers: \<open>components/device/include/comm_types.h\<close>, \<open>device.c\<close>,
  \<open>global_helpers.c\<close> and \<open>components/device_memory/device_memory.c\<close>.  A character array is its list of
  bytes; the event group of FreeRTOS is the word of its bits.  The lemmas give the ranges of the
  settings and show that the strings stay terminated.
\<close>

section \<open>Data\<close>

definition IPV4_SIZE :: nat where "IPV4_SIZE = 4"
definition MAX_SSID_LEN :: nat where "MAX_SSID_LEN = 32"
definition MAX_PWD_LEN :: nat where "MAX_PWD_LEN = 64"

text \<open>\<open>ipv4_t\<close>, a union of four bytes and a word, is its word; \<open>ipv4_bytes\<close> are its bytes.\<close>

type_synonym ipv4_t = u32

definition ipv4_bytes :: "ipv4_t \<Rightarrow> u8 list" where
  "ipv4_bytes a = le_bytes IPV4_SIZE a"

record serv_conf_t =
  hostname :: ptr
  serv_ip :: ipv4_t
  port :: u16

record dev_ip_info_t =
  enable :: bool
  netmask :: ipv4_t
  gateway :: ipv4_t
  ip :: ipv4_t
  dns :: ipv4_t

text \<open>\<open>power_dbm\<close> is the 32 bits of a \<open>float\<close>.\<close>

record dev_ap_conf_t =
  ap_ssid :: "u8 list"
  ap_password :: "u8 list"
  ap_ip_info :: dev_ip_info_t
  ch :: u8
  power_dbm :: u32

record dev_sta_conf_t =
  sta_ssid :: "u8 list"
  sta_password :: "u8 list"
  sta_ip_info :: dev_ip_info_t
  broadcast :: ipv4_t

record dev_wifi_config_t =
  ap :: dev_ap_conf_t
  sta :: dev_sta_conf_t
  cur_mode :: int

record dev_time_info_t =
  time_day :: u16
  time_hour :: u8
  time_min :: u8

record device_conf_t =
  speed1 :: u8
  speed2 :: u8
  off_timer :: u8
  on_timer :: u8
  inter_timer :: u8
  motion_en :: bool
  humidity :: u8
  wifi_en :: bool

record nfc_setings_data_t =
  key1 :: u64
  main_settings :: device_conf_t

record nfc_wifi_data_t =
  key2 :: u64
  nfc_sta :: dev_sta_conf_t

record dev_info_t =
  dev_pwd :: "u8 list"
  dev_id :: u64
  dev_type :: u8

record settings_t =
  vents_client_conf :: serv_conf_t
  dns_serv_conf :: serv_conf_t
  bgcp_serv_conf :: serv_conf_t
  wifi_conf :: dev_wifi_config_t
  dev_info :: dev_info_t
  filter_time :: dev_time_info_t
  filt_time_set :: dev_time_info_t

record device_status_t =
  cur_humidity :: int
  motion :: bool
  lt1 :: bool
  lt2 :: bool
  fan_speed :: int
  info_str :: ptr
  title_str :: ptr
  admin_en :: bool

record device_data_t =
  dev_status :: device_status_t
  config :: device_conf_t
  dev_settings :: settings_t
  filter_status :: u8
  dev_speed :: u8
  rpm :: u16
  boost_switch :: bool
  emergency :: bool
  rh_val :: u16
  rh_perc :: u8
  voc_val :: u8
  voc_perc :: u8

section \<open>Settings\<close>

definition OFF :: u8 where "OFF = 0"

definition val_list_speed1 :: "u8 list" where "val_list_speed1 = [OFF, 15, 20, 30, 40, 60]"
definition val_list_speed2 :: "u8 list" where "val_list_speed2 = [15, 20, 30, 40, 60, 100]"
definition val_list_voc_threshold :: "u8 list" where
  "val_list_voc_threshold = [OFF, 20, 30, 50, 60, 70, 80, 90]"
definition val_list_rh_threshold :: "u8 list" where
  "val_list_rh_threshold = [OFF, 40, 50, 60, 70, 80, 90]"
definition val_list_interval_tim :: "u8 list" where "val_list_interval_tim = [OFF, 3, 6, 12]"
definition val_list_on_timer :: "u8 list" where "val_list_on_timer = [OFF, 1, 2, 5]"
definition val_list_off_timer :: "u8 list" where "val_list_off_timer = [OFF, 5, 15, 30]"

lemmas val_lists = val_list_speed1_def val_list_speed2_def val_list_rh_threshold_def
  val_list_interval_tim_def val_list_on_timer_def val_list_off_timer_def

abbreviation set_config :: "(device_conf_t \<Rightarrow> device_conf_t) \<Rightarrow> device_data_t \<Rightarrow> device_data_t" where
  "set_config f d \<equiv> d\<lparr>config := f (config d)\<rparr>"

text \<open>
  An \<open>int\<close> argument is an integer.  C compares it with the \<open>size_t\<close> length of a table, but only
  after it was found not to be negative.
\<close>

definition set_speed :: "int \<Rightarrow> int \<Rightarrow> device_data_t \<Rightarrow> device_data_t" where
  "set_speed s1 s2 d =
     (let d = (if s1 \<ge> 0 \<and> s1 < int (length val_list_speed1)
               then set_config (\<lambda>c. c\<lparr>speed1 := word_of_int s1\<rparr>) d else d) in
      if s2 \<ge> 0 \<and> s2 < int (length val_list_speed2)
      then set_config (\<lambda>c. c\<lparr>speed2 := word_of_int s2\<rparr>) d else d)"

definition set_humidity :: "int \<Rightarrow> device_data_t \<Rightarrow> device_data_t" where
  "set_humidity v d =
     (if v \<ge> 0 \<and> v < int (length val_list_rh_threshold)
      then set_config (\<lambda>c. c\<lparr>humidity := word_of_int v\<rparr>) d else d)"

definition set_inter_timer :: "int \<Rightarrow> device_data_t \<Rightarrow> device_data_t" where
  "set_inter_timer v d =
     (if v \<ge> 0 \<and> v \<le> int (length val_list_interval_tim)
      then set_config (\<lambda>c. c\<lparr>inter_timer := word_of_int v\<rparr>) d else d)"

definition set_timer :: "int \<Rightarrow> int \<Rightarrow> device_data_t \<Rightarrow> device_data_t" where
  "set_timer on off d =
     (let d = (if on \<ge> 0 \<and> on \<le> int (length val_list_on_timer)
               then set_config (\<lambda>c. c\<lparr>on_timer := word_of_int on\<rparr>) d else d) in
      if off \<ge> 0 \<and> off \<le> int (length val_list_off_timer)
      then set_config (\<lambda>c. c\<lparr>off_timer := word_of_int off\<rparr>) d else d)"

section \<open>Strings\<close>

text \<open>
  \<open>strnlen\<close>: \<open>n\<close> characters of the object \<open>s\<close> may be read; \<open>None\<close> if the object ends before.
\<close>

fun strnlen :: "u8 list \<Rightarrow> nat \<Rightarrow> nat option" where
  "strnlen s 0 = Some 0"
| "strnlen [] (Suc n) = None"
| "strnlen (c # s) (Suc n) = (if c = 0 then Some 0 else map_option Suc (strnlen s n))"

definition strlen :: "u8 list \<Rightarrow> nat option" where
  "strlen s = (if 0 \<in> set s then Some (length (takeWhile (\<lambda>c. c \<noteq> 0) s)) else None)"

text \<open>\<open>memcpy\<close> to the front of a buffer: outside the buffer or the source it is \<open>None\<close>.\<close>

definition memcpy :: "u8 list \<Rightarrow> u8 list \<Rightarrow> nat \<Rightarrow> u8 list option" where
  "memcpy dst src n =
     (if n \<le> length dst \<and> n \<le> length src then Some (take n src @ drop n dst) else None)"

definition set_byte :: "u8 list \<Rightarrow> nat \<Rightarrow> u8 \<Rightarrow> u8 list option" where
  "set_byte bs i b = (if i < length bs then Some (bs[i := b]) else None)"

text \<open>What \<open>set_sta_pwd\<close> and \<open>set_sta_ssid\<close> do to their buffer.\<close>

definition store_string :: "nat \<Rightarrow> u8 list \<Rightarrow> u8 list \<Rightarrow> u8 list option" where
  "store_string max_len str buf =
     do {
       len \<leftarrow> strnlen str max_len;
       buf \<leftarrow> memcpy buf str len;
       set_byte buf len 0
     }"

abbreviation set_sta :: "(dev_sta_conf_t \<Rightarrow> dev_sta_conf_t) \<Rightarrow> device_data_t \<Rightarrow> device_data_t" where
  "set_sta f d \<equiv> d\<lparr>dev_settings := (dev_settings d)\<lparr>wifi_conf := (wifi_conf (dev_settings d))\<lparr>sta :=
     f (sta (wifi_conf (dev_settings d)))\<rparr>\<rparr>\<rparr>"

definition set_sta_pwd :: "u8 list \<Rightarrow> device_data_t \<Rightarrow> device_data_t option" where
  "set_sta_pwd str d =
     do {
       buf \<leftarrow> store_string MAX_PWD_LEN str (sta_password (sta (wifi_conf (dev_settings d))));
       Some (set_sta (\<lambda>c. c\<lparr>sta_password := buf\<rparr>) d)
     }"

definition set_sta_ssid :: "u8 list \<Rightarrow> device_data_t \<Rightarrow> device_data_t option" where
  "set_sta_ssid str d =
     do {
       buf \<leftarrow> store_string MAX_SSID_LEN str (sta_ssid (sta (wifi_conf (dev_settings d))));
       Some (set_sta (\<lambda>c. c\<lparr>sta_ssid := buf\<rparr>) d)
     }"

text \<open>\<open>cpy_str\<close>: the result and the destination; the terminator is not copied.\<close>

definition cpy_str :: "u8 list \<Rightarrow> u8 list \<Rightarrow> nat \<Rightarrow> (int \<times> u8 list) option" where
  "cpy_str dst src dst_buf_size =
     do {
       len \<leftarrow> strnlen src dst_buf_size;
       if len = dst_buf_size then Some (-1, dst)
       else do { dst \<leftarrow> memcpy dst src len; Some (int len, dst) }
     }"

section \<open>Helpers\<close>

definition compute_broadcast :: "u32 \<Rightarrow> u32 \<Rightarrow> u32" where
  "compute_broadcast addr nm = (addr AND nm) OR NOT nm"

definition IPV4_ADDR :: "u32 \<Rightarrow> u32 \<Rightarrow> u32 \<Rightarrow> u32 \<Rightarrow> u32" where
  "IPV4_ADDR a b c d =
     push_bit 24 (a AND 0xFF) OR push_bit 16 (b AND 0xFF) OR push_bit 8 (c AND 0xFF) OR (d AND 0xFF)"

definition SERIAL_STR_LEN :: nat where "SERIAL_STR_LEN = 17"

text \<open>\<open>%02X\<close> of a byte, and the serial number of a MAC address with its terminator.\<close>

definition hex_digit :: "u8 \<Rightarrow> u8" where
  "hex_digit x = (if x < 10 then x + 0x30 else x + 0x37)"

definition hex_byte :: "u8 \<Rightarrow> u8 list" where
  "hex_byte x = [hex_digit (drop_bit 4 x), hex_digit (x AND 0xF)]"

definition get_serial_number :: "u8 list \<Rightarrow> u8 list" where
  "get_serial_number mac =
     take (SERIAL_STR_LEN - 1) ([0x30, 0x31, 0x30, 0x30] @ concat (map hex_byte (take 6 mac))) @ [0]"

section \<open>The event group\<close>

definition BIT_DNS_SERVER_RUN :: u32 where "BIT_DNS_SERVER_RUN = push_bit 11 1"
definition BIT_BGCP_SERVER_RUN :: u32 where "BIT_BGCP_SERVER_RUN = 1"
definition BIT_I2C_OPER_CPLT :: u32 where "BIT_I2C_OPER_CPLT = push_bit 4 1"
definition BIT_I2C_OPER_ERR :: u32 where "BIT_I2C_OPER_ERR = push_bit 5 1"
definition BIT_WIFI_STA_CONNECTED :: u32 where "BIT_WIFI_STA_CONNECTED = push_bit 6 1"
definition BIT_WIFI_STA_CONN_FAIL :: u32 where "BIT_WIFI_STA_CONN_FAIL = push_bit 7 1"
definition BIT_WIFI_AP_START :: u32 where "BIT_WIFI_AP_START = push_bit 8 1"
definition BIT_WIFI_CONNECTED :: u32 where "BIT_WIFI_CONNECTED = push_bit 9 1"
definition BIT_WIFI_AUTO_CONN :: u32 where "BIT_WIFI_AUTO_CONN = push_bit 10 1"
definition BIT_ECHO_SERVER_RUN :: u32 where "BIT_ECHO_SERVER_RUN = push_bit 12 1"

lemmas device_bits = BIT_DNS_SERVER_RUN_def BIT_BGCP_SERVER_RUN_def BIT_I2C_OPER_CPLT_def
  BIT_I2C_OPER_ERR_def BIT_WIFI_STA_CONNECTED_def BIT_WIFI_STA_CONN_FAIL_def BIT_WIFI_AP_START_def
  BIT_WIFI_CONNECTED_def BIT_WIFI_AUTO_CONN_def BIT_ECHO_SERVER_RUN_def

definition device_set_bits :: "u32 \<Rightarrow> u32 \<Rightarrow> u32" where
  "device_set_bits v evn_group = evn_group OR v"

definition device_clear_bits :: "u32 \<Rightarrow> u32 \<Rightarrow> u32" where
  "device_clear_bits v evn_group = evn_group AND NOT v"

definition device_get_bits :: "u32 \<Rightarrow> u32" where
  "device_get_bits evn_group = evn_group"

lemma set_bits_seen: "v \<noteq> 0 \<Longrightarrow> device_set_bits v g AND v \<noteq> 0"
proof -
  have "(g OR v) AND v = v" by (rule bit_word_eqI) (auto simp: bit_simps)
  then show "v \<noteq> 0 \<Longrightarrow> ?thesis" by (simp add: device_set_bits_def)
qed

section \<open>Non-volatile memory\<close>

text \<open>
  The error numbers the code names; any other error of the SDK is \<open>ESP_ERR_OTHER\<close>.
\<close>

datatype esp_err =
    ESP_OK | ESP_FAIL | ESP_ERR_NO_MEM | ESP_ERR_INVALID_ARG | ESP_ERR_TIMEOUT
  | ESP_ERR_NVS_NO_FREE_PAGES | ESP_ERR_NVS_NEW_VERSION_FOUND | ESP_ERR_OTHER int

text \<open>A call that may fail, then the rest; \<open>CHECK_RET_FALSE\<close>.\<close>

definition check_ret_false :: "esp_err \<times> 'w \<Rightarrow> ('w \<Rightarrow> bool \<times> 'w) \<Rightarrow> bool \<times> 'w" where
  "check_ret_false r k = (case r of (e, w) \<Rightarrow> if e \<noteq> ESP_OK then (False, w) else k w)"

text \<open>
  The NVS library on its state \<open>'s\<close>.  \<open>nvs_open\<close> takes the name space and whether the handle may
  write, and gives the handle; \<open>nvs_get_blob\<close> gives the bytes it stored in the buffer.
\<close>

record 's nvs_api =
  nvs_flash_init :: "'s \<Rightarrow> esp_err \<times> 's"
  nvs_flash_erase :: "'s \<Rightarrow> esp_err \<times> 's"
  nvs_open :: "string \<Rightarrow> bool \<Rightarrow> 's \<Rightarrow> esp_err \<times> nat \<times> 's"
  nvs_get_blob :: "nat \<Rightarrow> string \<Rightarrow> nat \<Rightarrow> 's \<Rightarrow> esp_err \<times> u8 list \<times> 's"
  nvs_set_blob :: "nat \<Rightarrow> string \<Rightarrow> u8 list \<Rightarrow> 's \<Rightarrow> esp_err \<times> 's"
  nvs_commit :: "nat \<Rightarrow> 's \<Rightarrow> esp_err \<times> 's"
  nvs_close :: "nat \<Rightarrow> 's \<Rightarrow> 's"

definition SPACE_NAME :: string where "SPACE_NAME = ''nvs''"

definition init_nvs :: "'s nvs_api \<Rightarrow> 's \<Rightarrow> bool \<times> 's" where
  "init_nvs api s =
     (case nvs_flash_init api s of (e, s) \<Rightarrow>
        if e = ESP_ERR_NVS_NO_FREE_PAGES \<or> e = ESP_ERR_NVS_NEW_VERSION_FOUND
        then (case nvs_flash_erase api s of (e, s) \<Rightarrow>
                if e \<noteq> ESP_OK then (False, s)
                else (case nvs_flash_init api s of (e, s) \<Rightarrow> (e = ESP_OK, s)))
        else (e = ESP_OK, s))"

text \<open>
  \<open>read_flash\<close> and \<open>write_flash\<close>: \<open>None\<close> for a null buffer.  The early \<open>return
  ESP_ERR_INVALID_ARG\<close> is converted to the \<open>bool\<close> true.  After a failed \<open>nvs_open\<close> the
  handle that is closed was never set: \<open>nvs_open\<close>'s second result stands for it.
\<close>

definition read_flash ::
  "'s nvs_api \<Rightarrow> string \<Rightarrow> u8 list option \<Rightarrow> nat \<Rightarrow> 's \<Rightarrow> (bool \<times> u8 list option \<times> 's) option" where
  "read_flash api data_name data_buf data_size s =
     (if data_size = 0 \<or> data_buf = None then Some (True, data_buf, s)
      else
        (case nvs_open api SPACE_NAME False s of (e, h, s) \<Rightarrow>
           if e \<noteq> ESP_OK then Some (False, data_buf, nvs_close api h s)
           else
             (case nvs_get_blob api h data_name data_size s of (e, bs, s) \<Rightarrow>
                do {
                  buf \<leftarrow> memcpy (the data_buf) bs (length bs);
                  Some (e = ESP_OK, Some buf, nvs_close api h s)
                })))"

definition write_flash ::
  "'s nvs_api \<Rightarrow> string \<Rightarrow> u8 list option \<Rightarrow> nat \<Rightarrow> 's \<Rightarrow> (bool \<times> 's) option" where
  "write_flash api data_name data data_size s =
     (if data_size = 0 \<or> data = None then Some (True, s)
      else if length (the data) < data_size then None
      else
        (case nvs_open api SPACE_NAME True s of (e, h, s) \<Rightarrow>
           if e \<noteq> ESP_OK then Some (False, nvs_close api h s)
           else
             (case nvs_set_blob api h data_name (take data_size (the data)) s of (e, s) \<Rightarrow>
                if e \<noteq> ESP_OK then Some (False, nvs_close api h s)
                else
                  (case nvs_commit api h s of (e, s) \<Rightarrow>
                     Some (e = ESP_OK, nvs_close api h s)))))"

section \<open>Strings stay terminated\<close>

lemma strnlen_le: "strnlen s n = Some k \<Longrightarrow> k \<le> n \<and> k \<le> length s"
  by (induction s n arbitrary: k rule: strnlen.induct) (auto split: if_splits)

lemma strnlen_prefix: "strnlen s n = Some k \<Longrightarrow> 0 \<notin> set (take k s)"
  by (induction s n arbitrary: k rule: strnlen.induct) (auto split: if_splits)

lemma strnlen_stop: "strnlen s n = Some k \<Longrightarrow> k < n \<Longrightarrow> k < length s \<and> s ! k = 0"
  by (induction s n arbitrary: k rule: strnlen.induct) (auto split: if_splits)

text \<open>The string of a buffer: the bytes before the first 0.\<close>

definition c_string :: "u8 list \<Rightarrow> u8 list" where
  "c_string bs = takeWhile (\<lambda>b. b \<noteq> 0) bs"

definition terminated :: "u8 list \<Rightarrow> bool" where
  "terminated bs \<longleftrightarrow> 0 \<in> set bs"

lemma strnlen_c_string:
  "strnlen s n = Some k \<Longrightarrow> take k s = take n (c_string s)"
  unfolding c_string_def
  by (induction s n arbitrary: k rule: strnlen.induct) (auto split: if_splits)

lemma strnlen_terminated: "terminated s \<Longrightarrow> \<exists>k. strnlen s n = Some k"
  unfolding terminated_def by (induction s n rule: strnlen.induct) auto

lemma store_string_spec:
  assumes "terminated str" "n < length buf"
  shows "\<exists>buf'. store_string n str buf = Some buf' \<and> length buf' = length buf \<and>
           c_string buf' = take n (c_string str) \<and> terminated buf'"
proof -
  obtain k where k: "strnlen str n = Some k" using strnlen_terminated [OF assms(1)] by blast
  note le = strnlen_le [OF k]
  let ?b = "(take k str @ drop k buf)[k := 0]"
  have b: "?b = take k str @ 0 # drop (Suc k) buf"
    using le assms(2) by (simp add: list_update_append Cons_nth_drop_Suc [symmetric])
  have "c_string ?b = take k str"
    using strnlen_prefix [OF k] unfolding b c_string_def
    by (subst takeWhile_append2) auto
  then have "c_string ?b = take n (c_string str)" using strnlen_c_string [OF k] by simp
  moreover have "store_string n str buf = Some ?b"
    using k le assms(2) by (simp add: store_string_def memcpy_def set_byte_def)
  moreover have "terminated ?b" unfolding b by (simp add: terminated_def)
  moreover have "length ?b = length buf" using le assms(2) by simp
  ultimately show ?thesis by blast
qed

section \<open>Ranges of the settings\<close>

text \<open>
  An index into each table.  The timers may be one past the end of theirs: \<open>set_timer\<close> and
  \<open>set_inter_timer\<close> compare with \<open>\<le>\<close>.
\<close>

definition config_ok :: "device_conf_t \<Rightarrow> bool" where
  "config_ok c \<longleftrightarrow>
     unat (speed1 c) < length val_list_speed1 \<and> unat (speed2 c) < length val_list_speed2 \<and>
     unat (humidity c) < length val_list_rh_threshold \<and>
     unat (inter_timer c) \<le> length val_list_interval_tim \<and>
     unat (on_timer c) \<le> length val_list_on_timer \<and> unat (off_timer c) \<le> length val_list_off_timer"

datatype setting =
  Set_speed int int | Set_humidity int | Set_inter_timer int | Set_timer int int

fun apply_setting :: "setting \<Rightarrow> device_data_t \<Rightarrow> device_data_t" where
  "apply_setting (Set_speed a b) d = set_speed a b d"
| "apply_setting (Set_humidity a) d = set_humidity a d"
| "apply_setting (Set_inter_timer a) d = set_inter_timer a d"
| "apply_setting (Set_timer a b) d = set_timer a b d"

lemma unat_small_int: "0 \<le> i \<Longrightarrow> i < 256 \<Longrightarrow> unat (word_of_int i :: u8) = nat i"
  by (simp add: unsigned_of_int take_bit_int_eq_self)

lemma apply_setting_ok: "config_ok (config d) \<Longrightarrow> config_ok (config (apply_setting e d))"
  by (cases e)
    (auto simp: set_speed_def set_humidity_def set_inter_timer_def set_timer_def config_ok_def
      Let_def val_lists unat_small_int nat_less_iff)

interpretation settings: step_system apply_setting "\<lambda>d. config_ok (config d)"
  by unfold_locales (rule apply_setting_ok)

section \<open>The properties\<close>

text \<open>A device with all settings at 0 and empty strings, as the static variable starts.\<close>

definition zero_ip_info :: dev_ip_info_t where
  "zero_ip_info = \<lparr>enable = False, netmask = 0, gateway = 0, ip = 0, dns = 0\<rparr>"

definition zero_serv :: serv_conf_t where
  "zero_serv = \<lparr>hostname = None, serv_ip = 0, port = 0\<rparr>"

definition zero_conf :: device_conf_t where
  "zero_conf = \<lparr>speed1 = 0, speed2 = 0, off_timer = 0, on_timer = 0, inter_timer = 0,
     motion_en = False, humidity = 0, wifi_en = False\<rparr>"

definition zero_wifi :: dev_wifi_config_t where
  "zero_wifi =
     \<lparr>ap = \<lparr>ap_ssid = replicate 33 0, ap_password = replicate 65 0, ap_ip_info = zero_ip_info,
            ch = 0, power_dbm = 0\<rparr>,
      sta = \<lparr>sta_ssid = replicate 33 0, sta_password = replicate 65 0, sta_ip_info = zero_ip_info,
             broadcast = 0\<rparr>,
      cur_mode = 0\<rparr>"

definition zero_device :: device_data_t where
  "zero_device =
     \<lparr>dev_status = \<lparr>cur_humidity = 0, motion = False, lt1 = False, lt2 = False, fan_speed = 0,
        info_str = None, title_str = None, admin_en = False\<rparr>,
      config = zero_conf,
      dev_settings = \<lparr>vents_client_conf = zero_serv, dns_serv_conf = zero_serv,
        bgcp_serv_conf = zero_serv, wifi_conf = zero_wifi,
        dev_info = \<lparr>dev_pwd = replicate 65 0, dev_id = 0, dev_type = 0\<rparr>,
        filter_time = \<lparr>time_day = 0, time_hour = 0, time_min = 0\<rparr>,
        filt_time_set = \<lparr>time_day = 0, time_hour = 0, time_min = 0\<rparr>\<rparr>,
      filter_status = 0, dev_speed = 0, rpm = 0, boost_switch = False, emergency = False,
      rh_val = 0, rh_perc = 0, voc_val = 0, voc_perc = 0\<rparr>"

lemma zero_device_ok: "config_ok (config zero_device)"
  by (simp add: zero_device_def zero_conf_def config_ok_def val_lists)

text \<open>C25: Whatever arguments the setters are called with, the indexes of the speeds and of the
  humidity threshold stay inside their tables, and those of the timers at most one past it.\<close>

theorem settings_in_range:
  assumes "config_ok (config d)"
  shows "config_ok (config (fold apply_setting es d))"
  using assms by (rule settings.run_inv)

theorem settings_in_range_witness:
  "config_ok (config (fold apply_setting [Set_speed 5 7, Set_timer 4 (-1), Set_humidity 900] zero_device))"
  by (rule settings_in_range) (rule zero_device_ok)

text \<open>Setting the station's password stores the first 64 characters of a terminated string,
  terminated inside its buffer of 65 bytes, and changes nothing else.\<close>

lemma sta_pwd_stored:
  assumes "terminated str" "length (sta_password (sta (wifi_conf (dev_settings d)))) = MAX_PWD_LEN + 1"
  shows "\<exists>buf. set_sta_pwd str d = Some (set_sta (\<lambda>c. c\<lparr>sta_password := buf\<rparr>) d) \<and>
           length buf = MAX_PWD_LEN + 1 \<and> terminated buf \<and> c_string buf = take MAX_PWD_LEN (c_string str)"
  using store_string_spec [OF assms(1), of MAX_PWD_LEN "sta_password (sta (wifi_conf (dev_settings d)))"]
    assms(2)
  by (auto simp: set_sta_pwd_def)

lemma sta_pwd_stored_witness:
  "\<exists>buf. set_sta_pwd [0x61, 0x62, 0] zero_device =
           Some (set_sta (\<lambda>c. c\<lparr>sta_password := buf\<rparr>) zero_device) \<and>
         length buf = MAX_PWD_LEN + 1 \<and> terminated buf \<and>
         c_string buf = take MAX_PWD_LEN (c_string [0x61, 0x62, 0])"
  by (rule sta_pwd_stored)
    (simp_all add: terminated_def zero_device_def zero_wifi_def MAX_PWD_LEN_def)

end
