(* ===== verification/I2c_Async.thy ===== *)
theory I2c_Async
  imports Device
begin

text \<open>
  The I2C task, \<open>components/device_i2c/i2c_async.c\<close>: requests of several operations are queued,
  and one task runs them with up to three retries per operation and notifies a callback.  The
  ESP-IDF driver is a parameter \<open>i2c_driver\<close>: it builds a list of commands and runs it on the
  bus.  The lemmas show that serving a request ends, how often an operation is tried, and
  which accesses are safe.
\<close>

section \<open>Types\<close>

definition MAX_RETRY :: nat where "MAX_RETRY = 3"
definition I2C_BUF_SIZE :: nat where "I2C_BUF_SIZE = 512"
definition I2C_QUEUE_LEN :: nat where "I2C_QUEUE_LEN = 5"

text \<open>
  A callback gets the result, its context, the receive buffer (\<open>None\<close> for a null pointer)
  and a length; it may change objects in memory.
\<close>

type_synonym cplt_callback = "esp_err \<Rightarrow> ptr \<Rightarrow> u8 list option \<Rightarrow> nat \<Rightarrow> mem \<Rightarrow> mem option"

record i2c_op =
  write_data :: "u8 list option"
  write_size :: nat
  reg_addr :: u16
  read_size :: nat
  post_delay :: u32
  op_cplt_callback :: "cplt_callback option"
  user_ctx :: ptr

text \<open>
  The pointer to the operations: null, into an array (its elements from there on), or to a
  local array whose function has returned.
\<close>

datatype ops_ptr = Null | Ops "i2c_op list" | Dangling

record i2c_request =
  i2c_port :: int
  device_addr :: u8
  op_count :: nat
  reg_addr_16b :: bool
  tr_cplt_callback :: "cplt_callback option"
  req_res :: esp_err
  ops :: ops_ptr

datatype i2c_cmd = CMD_START | CMD_WRITE_BYTE u8 | CMD_WRITE "u8 list" | CMD_READ nat | CMD_STOP

text \<open>
  The driver: whether a command list can be created, the result of adding a command to a list,
  and what running a list on a port does to the bus: its result and the bytes it read.
\<close>

record 'b i2c_driver =
  link_create :: bool
  link_add :: "i2c_cmd list \<Rightarrow> i2c_cmd \<Rightarrow> esp_err"
  cmd_begin :: "int \<Rightarrow> i2c_cmd list \<Rightarrow> 'b \<Rightarrow> esp_err \<times> u8 list \<times> 'b"

record 'b i2c_state =
  bus :: 'b
  i2c_buf :: "u8 list"
  objs :: mem
  evn_group :: u32
  i2c_queue :: "i2c_request list"

section \<open>Transfers\<close>

text \<open>The commands added one by one, up to the first error (\<open>CHECK_RET_ERR\<close>).\<close>

fun link_cmds :: "'b i2c_driver \<Rightarrow> i2c_cmd list \<Rightarrow> i2c_cmd list \<Rightarrow> esp_err \<times> i2c_cmd list" where
  "link_cmds drv link [] = (ESP_OK, link)"
| "link_cmds drv link (c # cs) =
     (if link_add drv link c \<noteq> ESP_OK then (link_add drv link c, link)
      else link_cmds drv (link @ [c]) cs)"

definition I2C_MASTER_WRITE :: u8 where "I2C_MASTER_WRITE = 0"
definition I2C_MASTER_READ :: u8 where "I2C_MASTER_READ = 1"

definition reg_cmds :: "bool \<Rightarrow> u16 \<Rightarrow> i2c_cmd list" where
  "reg_cmds reg_16b_format reg =
     (if reg_16b_format then [CMD_WRITE_BYTE (hi8 reg)] else []) @ [CMD_WRITE_BYTE (lo8 reg)]"

definition device_i2c_master_write_to_device :: "'b i2c_driver \<Rightarrow> int \<Rightarrow> u8 \<Rightarrow> u16 \<Rightarrow> bool \<Rightarrow>
    u8 list option \<Rightarrow> nat \<Rightarrow> 'b \<Rightarrow> (esp_err \<times> 'b) option" where
  "device_i2c_master_write_to_device drv i2c_num device_address reg reg_16b_format write_buffer wr_size b =
     (if \<not> link_create drv then Some (ESP_ERR_NO_MEM, b)
      else if write_buffer \<noteq> None \<and> length (the write_buffer) < wr_size then None
      else
        (case link_cmds drv []
                ([CMD_START, CMD_WRITE_BYTE (push_bit 1 device_address OR I2C_MASTER_WRITE)] @
                 reg_cmds reg_16b_format reg @
                 (if write_buffer \<noteq> None \<and> wr_size > 0
                  then [CMD_WRITE (take wr_size (the write_buffer))] else []) @
                 [CMD_STOP]) of (e, link) \<Rightarrow>
           if e \<noteq> ESP_OK then Some (e, b)
           else (case cmd_begin drv i2c_num link b of (e, _, b) \<Rightarrow> Some (e, b))))"

text \<open>The read stores what the driver read at the front of the receive buffer.\<close>

definition device_i2c_master_read_from_device :: "'b i2c_driver \<Rightarrow> int \<Rightarrow> u8 \<Rightarrow> u16 \<Rightarrow> bool \<Rightarrow>
    bool \<Rightarrow> u8 list \<Rightarrow> nat \<Rightarrow> 'b \<Rightarrow> (esp_err \<times> u8 list \<times> 'b) option" where
  "device_i2c_master_read_from_device drv i2c_num device_address reg reg_16b_format two_step_reading
       read_buffer rd_size b =
     (if \<not> link_create drv then Some (ESP_ERR_NO_MEM, read_buffer, b)
      else if length read_buffer < rd_size then None
      else
        (case link_cmds drv []
                ([CMD_START] @
                 (if \<not> two_step_reading
                  then [CMD_WRITE_BYTE (push_bit 1 device_address OR I2C_MASTER_WRITE)] @
                       reg_cmds reg_16b_format reg @ [CMD_START]
                  else []) @
                 [CMD_WRITE_BYTE (push_bit 1 device_address OR I2C_MASTER_READ), CMD_READ rd_size, CMD_STOP])
         of (e, link) \<Rightarrow>
           if e \<noteq> ESP_OK then Some (e, read_buffer, b)
           else (case cmd_begin drv i2c_num link b of (e, rx, b) \<Rightarrow>
                   Some (e, take rd_size rx @ drop (length (take rd_size rx)) read_buffer, b))))"

definition copy_callback :: cplt_callback where
  "copy_callback res ctx data sz m =
     (if res = ESP_OK \<and> ctx \<noteq> None \<and> data \<noteq> None
      then (if sz \<le> length (the data) then mem_write m ctx (take sz (the data)) else None)
      else Some m)"

section \<open>The task\<close>

definition notification_callback ::
  "esp_err \<Rightarrow> i2c_request \<Rightarrow> i2c_op \<Rightarrow> 'b i2c_state \<Rightarrow> 'b i2c_state option" where
  "notification_callback res req op s =
     (let len = (if res = ESP_OK then read_size op else 0) in
      case op_cplt_callback op of
        Some f \<Rightarrow> map_option (\<lambda>m. s\<lparr>objs := m\<rparr>) (f res (user_ctx op) (Some (i2c_buf s)) len (objs s))
      | None \<Rightarrow>
          (case tr_cplt_callback req of
             Some f \<Rightarrow> map_option (\<lambda>m. s\<lparr>objs := m\<rparr>) (f res (user_ctx op) (Some (i2c_buf s)) len (objs s))
           | None \<Rightarrow> Some s))"

text \<open>One try of an operation: the write and the read with the result of the last of them.\<close>

definition i2c_transfer :: "'b i2c_driver \<Rightarrow> i2c_request \<Rightarrow> i2c_op \<Rightarrow> esp_err \<Rightarrow> 'b i2c_state \<Rightarrow>
    (esp_err \<times> 'b i2c_state) option" where
  "i2c_transfer drv req op result s =
     (let two_step_reading = (post_delay op > 0 \<and> read_size op \<noteq> 0) in
      do {
        (result, s) \<leftarrow>
          (if two_step_reading \<or> write_size op \<noteq> 0
           then do {
             (e, b) \<leftarrow> device_i2c_master_write_to_device drv (i2c_port req) (device_addr req) (reg_addr op)
                         (reg_addr_16b req) (write_data op) (write_size op) (bus s);
             Some (e, s\<lparr>bus := b\<rparr>)
           }
           else Some (result, s));
        (if read_size op \<noteq> 0
         then do {
           (e, buf, b) \<leftarrow> device_i2c_master_read_from_device drv (i2c_port req) (device_addr req) (reg_addr op)
                            (reg_addr_16b req) two_step_reading (i2c_buf s) (read_size op) (bus s);
           Some (e, s\<lparr>i2c_buf := buf, bus := b\<rparr>)
         }
         else Some (result, s))
      })"

text \<open>
  The loop over the operations: \<open>k\<close> are left of the request, \<open>ops\<close> is the array from the
  current one on.
\<close>

function i2c_run :: "'b i2c_driver \<Rightarrow> i2c_request \<Rightarrow> i2c_op list \<Rightarrow> nat \<Rightarrow> nat \<Rightarrow> esp_err \<Rightarrow>
    'b i2c_state \<Rightarrow> 'b i2c_state option" where
  "i2c_run drv req os 0 fail_count result s = Some s"
| "i2c_run drv req [] (Suc k) fail_count result s = None"
| "i2c_run drv req (op # os) (Suc k) fail_count result s =
     (if read_size op > I2C_BUF_SIZE \<or> (write_size op \<noteq> 0 \<and> write_data op = None)
      then do {
        s \<leftarrow> notification_callback ESP_ERR_INVALID_ARG req op s;
        i2c_run drv req os k fail_count result
          (s\<lparr>evn_group := device_set_bits BIT_I2C_OPER_ERR (evn_group s)\<rparr>)
      }
      else do {
        (result, s) \<leftarrow> i2c_transfer drv req op result s;
        s \<leftarrow> (if result = ESP_OK \<or> fail_count \<ge> MAX_RETRY
              then notification_callback result req op s else Some s);
        if result = ESP_OK then i2c_run drv req os k 0 result s
        else if fail_count < MAX_RETRY then i2c_run drv req (op # os) (Suc k) (fail_count + 1) result s
        else Some s
      })"
  by pat_completeness auto
termination
  by (relation "measures [\<lambda>(drv, req, os, k, f, r, s). k, \<lambda>(drv, req, os, k, f, r, s). MAX_RETRY - f]") auto

declare i2c_run.simps(3) [simp del]

text \<open>One turn of \<open>i2c_task\<close>, if a request waits.\<close>

definition i2c_task :: "'b i2c_driver \<Rightarrow> 'b i2c_state \<Rightarrow> 'b i2c_state option" where
  "i2c_task drv s =
     (case i2c_queue s of
        [] \<Rightarrow> Some s
      | req # q \<Rightarrow>
          do {
            os \<leftarrow> (case ops req of Ops os \<Rightarrow> Some os | _ \<Rightarrow> None);
            s \<leftarrow> i2c_run drv req os (op_count req) 0 ESP_OK (s\<lparr>i2c_queue := q\<rparr>);
            Some (if i2c_queue s = []
                  then s\<lparr>evn_group := device_set_bits BIT_I2C_OPER_CPLT (evn_group s)\<rparr> else s)
          })"

fun i2c_tasks :: "nat \<Rightarrow> 'b i2c_driver \<Rightarrow> 'b i2c_state \<Rightarrow> 'b i2c_state option" where
  "i2c_tasks 0 drv s = Some s"
| "i2c_tasks (Suc n) drv s = do { s \<leftarrow> i2c_task drv s; i2c_tasks n drv s }"

section \<open>Requests\<close>

definition init_req :: "int \<Rightarrow> u8 \<Rightarrow> nat \<Rightarrow> cplt_callback option \<Rightarrow> i2c_request \<Rightarrow> i2c_request" where
  "init_req prt dev_addr reg_addr_size cb req =
     req\<lparr>i2c_port := prt, device_addr := dev_addr, tr_cplt_callback := cb, op_count := 0,
         ops := Null, reg_addr_16b := (reg_addr_size = 2)\<rparr>"

definition req_set_oper :: "ops_ptr \<Rightarrow> u16 \<Rightarrow> i2c_request \<Rightarrow> i2c_request" where
  "req_set_oper ops_list cnt req = req\<lparr>ops := ops_list, op_count := unat cnt\<rparr>"

definition i2c_send_async :: "i2c_request option \<Rightarrow> 'b i2c_state \<Rightarrow> esp_err \<times> 'b i2c_state" where
  "i2c_send_async req s =
     (case req of
        None \<Rightarrow> (ESP_ERR_INVALID_ARG, s)
      | Some req \<Rightarrow>
          (if ops req = Null \<or> op_count req = 0 then (ESP_ERR_INVALID_ARG, s)
           else if length (i2c_queue s) \<ge> I2C_QUEUE_LEN then (ESP_FAIL, s)
           else (ESP_OK, s\<lparr>i2c_queue := i2c_queue s @ [req]\<rparr>)))"

text \<open>
  \<open>i2c_send_sync\<close>: \<open>n\<close> is how many requests the task serves before the time is over; the wait
  ends at the latest then, with the bits of the event group at that time.
\<close>

definition i2c_send_sync ::
  "'b i2c_driver \<Rightarrow> nat \<Rightarrow> i2c_request option \<Rightarrow> 'b i2c_state \<Rightarrow> (esp_err \<times> 'b i2c_state) option" where
  "i2c_send_sync drv n req s =
     (let s = s\<lparr>evn_group := device_clear_bits (BIT_I2C_OPER_CPLT OR BIT_I2C_OPER_ERR) (evn_group s)\<rparr> in
      case i2c_send_async req s of (e, s) \<Rightarrow>
        if e = ESP_OK
        then do {
          s \<leftarrow> i2c_tasks n drv s;
          Some (if evn_group s AND BIT_I2C_OPER_CPLT = 0 then (ESP_ERR_TIMEOUT, s) else (ESP_OK, s))
        }
        else Some (e, s))"

section \<open>Serving requests is safe\<close>

text \<open>
  A request is well formed if its array is long enough, no write reads past its data, and its
  callbacks keep an invariant \<open>I\<close> of the objects whenever they get at most the bytes read.
\<close>

definition cb_ok :: "(mem \<Rightarrow> bool) \<Rightarrow> cplt_callback option \<Rightarrow> ptr \<Rightarrow> nat \<Rightarrow> bool" where
  "cb_ok I cb ctx k \<longleftrightarrow>
     (case cb of None \<Rightarrow> True
      | Some f \<Rightarrow> \<forall>res buf len m. I m \<and> length buf = I2C_BUF_SIZE \<and> len \<le> k \<and> len \<le> I2C_BUF_SIZE \<longrightarrow>
                    (\<exists>m'. f res ctx (Some buf) len m = Some m' \<and> I m'))"

definition eff_callback :: "i2c_request \<Rightarrow> i2c_op \<Rightarrow> cplt_callback option" where
  "eff_callback req op = (if op_cplt_callback op = None then tr_cplt_callback req else op_cplt_callback op)"

definition op_ok :: "(mem \<Rightarrow> bool) \<Rightarrow> i2c_request \<Rightarrow> i2c_op \<Rightarrow> bool" where
  "op_ok I req op \<longleftrightarrow>
     (\<forall>d. write_data op = Some d \<longrightarrow> write_size op \<le> length d) \<and>
     cb_ok I (eff_callback req op) (user_ctx op) (read_size op)"

definition req_ok :: "(mem \<Rightarrow> bool) \<Rightarrow> i2c_request \<Rightarrow> bool" where
  "req_ok I req \<longleftrightarrow>
     (\<exists>os. ops req = Ops os \<and> op_count req \<le> length os \<and> (\<forall>op\<in>set (take (op_count req) os). op_ok I req op))"

definition i2c_ok :: "(mem \<Rightarrow> bool) \<Rightarrow> 'b i2c_state \<Rightarrow> bool" where
  "i2c_ok I s \<longleftrightarrow> I (objs s) \<and> length (i2c_buf s) = I2C_BUF_SIZE"

lemma notification_eff:
  "notification_callback res req op s =
     (case eff_callback req op of None \<Rightarrow> Some s
      | Some f \<Rightarrow> map_option (\<lambda>m. s\<lparr>objs := m\<rparr>)
          (f res (user_ctx op) (Some (i2c_buf s)) (if res = ESP_OK then read_size op else 0) (objs s)))"
  by (simp add: notification_callback_def eff_callback_def Let_def split: option.split)

lemma notification_safe:
  assumes "op_ok I req op" "i2c_ok I s" "res = ESP_OK \<longrightarrow> read_size op \<le> I2C_BUF_SIZE"
  shows "\<exists>s'. notification_callback res req op s = Some s' \<and> i2c_ok I s' \<and>
           i2c_queue s' = i2c_queue s \<and> bus s' = bus s \<and> evn_group s' = evn_group s"
proof (cases "eff_callback req op")
  case None
  then show ?thesis using assms by (simp add: notification_eff)
next
  case (Some f)
  have "\<exists>m'. f res (user_ctx op) (Some (i2c_buf s)) (if res = ESP_OK then read_size op else 0) (objs s) = Some m' \<and> I m'"
    using assms Some unfolding op_ok_def cb_ok_def i2c_ok_def by auto
  then show ?thesis using assms(2) Some by (auto simp: notification_eff i2c_ok_def)
qed

lemma write_to_device_safe:
  "\<forall>d. wb = Some d \<longrightarrow> n \<le> length d \<Longrightarrow>
     \<exists>r. device_i2c_master_write_to_device drv p a reg f wb n b = Some r"
  by (auto simp: device_i2c_master_write_to_device_def split: prod.split)

lemma read_from_device_safe:
  assumes "n \<le> length buf"
  shows "\<exists>e buf' b'. device_i2c_master_read_from_device drv p a reg f two buf n b = Some (e, buf', b') \<and>
           length buf' = length buf"
  using assms by (auto simp: device_i2c_master_read_from_device_def split: prod.split)

lemma transfer_safe:
  assumes "op_ok I req op" "i2c_ok I s" "read_size op \<le> I2C_BUF_SIZE"
  shows "\<exists>r s'. i2c_transfer drv req op result s = Some (r, s') \<and> i2c_ok I s' \<and>
           i2c_queue s' = i2c_queue s \<and> objs s' = objs s \<and> evn_group s' = evn_group s"
proof -
  have w: "\<forall>d. write_data op = Some d \<longrightarrow> write_size op \<le> length d" using assms(1) by (simp add: op_ok_def)
  obtain e b where wr: "device_i2c_master_write_to_device drv (i2c_port req) (device_addr req) (reg_addr op)
      (reg_addr_16b req) (write_data op) (write_size op) (bus s) = Some (e, b)"
    using write_to_device_safe [OF w] by fast
  have "read_size op \<le> length (i2c_buf s)" using assms(2,3) by (simp add: i2c_ok_def)
  from read_from_device_safe [OF this]
  have "\<forall>two c. \<exists>t. device_i2c_master_read_from_device drv (i2c_port req) (device_addr req) (reg_addr op)
      (reg_addr_16b req) two (i2c_buf s) (read_size op) c = Some t \<and> length (fst (snd t)) = I2C_BUF_SIZE"
    using assms(2) by (fastforce simp: i2c_ok_def)
  then obtain R where rd: "device_i2c_master_read_from_device drv (i2c_port req) (device_addr req) (reg_addr op)
      (reg_addr_16b req) two (i2c_buf s) (read_size op) c = Some (R two c)"
      "length (fst (snd (R two c))) = I2C_BUF_SIZE" for two c
    by metis
  show ?thesis
    using assms(2) wr rd by (simp add: i2c_transfer_def Let_def i2c_ok_def split_def)
qed

lemma i2c_run_safe:
  "k \<le> length os \<Longrightarrow> \<forall>op\<in>set (take k os). op_ok I req op \<Longrightarrow> i2c_ok I s \<Longrightarrow>
     \<exists>s'. i2c_run drv req os k fail_count result s = Some s' \<and> i2c_ok I s' \<and> i2c_queue s' = i2c_queue s"
proof (induction drv req os k fail_count result s rule: i2c_run.induct)
  case (3 drv req op os k fail_count result s)
  have op: "op_ok I req op" and os: "k \<le> length os" "\<forall>op\<in>set (take k os). op_ok I req op"
    using "3.prems" by auto
  show ?case
  proof (cases "read_size op > I2C_BUF_SIZE \<or> (write_size op \<noteq> 0 \<and> write_data op = None)")
    case True
    obtain s1 where n: "notification_callback ESP_ERR_INVALID_ARG req op s = Some s1" "i2c_ok I s1"
        "i2c_queue s1 = i2c_queue s"
      using notification_safe [OF op "3.prems"(3), of ESP_ERR_INVALID_ARG] by auto
    have "i2c_ok I (s1\<lparr>evn_group := device_set_bits BIT_I2C_OPER_ERR (evn_group s1)\<rparr>)"
      using n(2) by (simp add: i2c_ok_def)
    from "3.IH"(1) [OF True n(1) os this] n True show ?thesis by (simp add: i2c_run.simps(3))
  next
    case False
    then have small: "read_size op \<le> I2C_BUF_SIZE" by auto
    obtain r s1 where t: "i2c_transfer drv req op result s = Some (r, s1)" "i2c_ok I s1" "i2c_queue s1 = i2c_queue s"
      using transfer_safe [OF op "3.prems"(3) small] by blast
    obtain s2 where n: "(if r = ESP_OK \<or> fail_count \<ge> MAX_RETRY then notification_callback r req op s1 else Some s1) = Some s2"
        "i2c_ok I s2" "i2c_queue s2 = i2c_queue s"
      using notification_safe [OF op t(2), of r] small t by (cases "r = ESP_OK \<or> fail_count \<ge> MAX_RETRY") auto
    have step: "i2c_run drv req (op # os) (Suc k) fail_count result s =
        (if r = ESP_OK then i2c_run drv req os k 0 r s2
         else if fail_count < MAX_RETRY then i2c_run drv req (op # os) (Suc k) (fail_count + 1) r s2
         else Some s2)"
      by (subst i2c_run.simps(3), subst if_not_P [OF False]) (simp add: t n)
    consider "r = ESP_OK" | "r \<noteq> ESP_OK" "fail_count < MAX_RETRY" | "r \<noteq> ESP_OK" "\<not> fail_count < MAX_RETRY" by blast
    then show ?thesis
    proof cases
      case 1
      from "3.IH"(2) [OF False t(1) refl n(1) 1 os n(2)] show ?thesis
        using step t n 1 by simp
    next
      case 2
      from "3.IH"(3) [OF False t(1) refl n(1) 2 "3.prems"(1,2) n(2)] show ?thesis
        using step t n 2 by simp
    next
      case 3
      then show ?thesis using step t n by simp
    qed
  qed
qed simp_all

lemma cplt_seen: "device_set_bits BIT_I2C_OPER_CPLT g AND BIT_I2C_OPER_CPLT \<noteq> 0"
  by (rule set_bits_seen) (simp add: device_bits)

lemma i2c_task_safe:
  assumes "\<forall>req\<in>set (i2c_queue s). req_ok I req" "i2c_ok I s"
  shows "\<exists>s'. i2c_task drv s = Some s' \<and> i2c_ok I s' \<and> i2c_queue s' = tl (i2c_queue s) \<and>
           (i2c_queue s \<noteq> [] \<and> tl (i2c_queue s) = [] \<longrightarrow> evn_group s' AND BIT_I2C_OPER_CPLT \<noteq> 0)"
proof (cases "i2c_queue s")
  case Nil
  then show ?thesis using assms(2) by (simp add: i2c_task_def)
next
  case (Cons req q)
  then obtain os where os: "ops req = Ops os" "op_count req \<le> length os"
      "\<forall>op\<in>set (take (op_count req) os). op_ok I req op"
    using assms(1) by (auto simp: req_ok_def)
  have "i2c_ok I (s\<lparr>i2c_queue := q\<rparr>)" using assms(2) by (simp add: i2c_ok_def)
  from i2c_run_safe [OF os(2,3) this, of drv 0 ESP_OK] obtain s1 where
    "i2c_run drv req os (op_count req) 0 ESP_OK (s\<lparr>i2c_queue := q\<rparr>) = Some s1" "i2c_ok I s1" "i2c_queue s1 = q"
    by auto
  then show ?thesis
    using Cons os(1) by (auto simp: i2c_task_def i2c_ok_def simp: cplt_seen)
qed

lemma i2c_tasks_safe:
  "\<forall>req\<in>set (i2c_queue s). req_ok I req \<Longrightarrow> i2c_ok I s \<Longrightarrow>
     \<exists>s'. i2c_tasks n drv s = Some s' \<and> i2c_ok I s' \<and> i2c_queue s' = drop n (i2c_queue s)"
proof (induction n arbitrary: s)
  case 0
  then show ?case by simp
next
  case (Suc n)
  obtain s1 where s1: "i2c_task drv s = Some s1" "i2c_ok I s1" "i2c_queue s1 = tl (i2c_queue s)"
    using i2c_task_safe [OF Suc.prems] by blast
  have "\<forall>req\<in>set (i2c_queue s1). req_ok I req"
    using Suc.prems(1) s1(3) by (cases "i2c_queue s") auto
  from Suc.IH [OF this s1(2)] s1 show ?case by (auto simp: drop_Suc)
qed

section \<open>A bus that fails\<close>

definition bus_fails :: "'b i2c_driver \<Rightarrow> bool" where
  "bus_fails drv \<longleftrightarrow> (\<forall>p l b. fst (cmd_begin drv p l b) \<noteq> ESP_OK)"

lemma failing_write:
  "bus_fails drv \<Longrightarrow> device_i2c_master_write_to_device drv p a reg f wb n b = Some (e, b') \<Longrightarrow> e \<noteq> ESP_OK"
  by (auto simp: device_i2c_master_write_to_device_def bus_fails_def split: prod.splits if_splits)
    (metis fst_conv)+

lemma failing_read:
  "bus_fails drv \<Longrightarrow> device_i2c_master_read_from_device drv p a reg f two buf n b = Some (e, buf', b') \<Longrightarrow>
     e \<noteq> ESP_OK"
  by (auto simp: device_i2c_master_read_from_device_def bus_fails_def split: prod.splits if_splits)
    (metis fst_conv)+

lemma failing_transfer:
  "bus_fails drv \<Longrightarrow> read_size op \<noteq> 0 \<or> write_size op \<noteq> 0 \<Longrightarrow>
     i2c_transfer drv req op r s = Some (e, s') \<Longrightarrow> e \<noteq> ESP_OK"
  by (auto simp: i2c_transfer_def Let_def Option.bind_eq_Some_conv split: if_splits
      dest: failing_write failing_read)

lemma failing_run:
  assumes "bus_fails drv" "read_size op \<noteq> 0 \<or> write_size op \<noteq> 0" "read_size op \<le> I2C_BUF_SIZE"
    and "write_size op \<noteq> 0 \<longrightarrow> write_data op \<noteq> None" "op_ok I req op"
    and "tr_cplt_callback req = Some copy_callback" "op_cplt_callback op = None"
  shows "i2c_ok I s \<Longrightarrow> \<exists>s'. i2c_run drv req (op # os) (Suc k) f r s = Some s' \<and>
           objs s' = objs s \<and> i2c_queue s' = i2c_queue s \<and> evn_group s' = evn_group s"
proof (induction "MAX_RETRY - f" arbitrary: f r s rule: less_induct)
  case less
  have valid: "\<not> (read_size op > I2C_BUF_SIZE \<or> (write_size op \<noteq> 0 \<and> write_data op = None))"
    using assms(3,4) by auto
  obtain e s1 where t: "i2c_transfer drv req op r s = Some (e, s1)" "i2c_ok I s1"
      "i2c_queue s1 = i2c_queue s" "objs s1 = objs s" "evn_group s1 = evn_group s"
    using transfer_safe [OF assms(5) less.prems assms(3)] by blast
  have e: "e \<noteq> ESP_OK" using failing_transfer [OF assms(1,2) t(1)] .
  have n: "notification_callback e req op s1 = Some s1"
    using e assms(6,7) by (simp add: notification_callback_def copy_callback_def)
  have step: "i2c_run drv req (op # os) (Suc k) f r s =
      (if f < MAX_RETRY then i2c_run drv req (op # os) (Suc k) (f + 1) e s1 else Some s1)"
    by (subst i2c_run.simps(3), subst if_not_P [OF valid]) (simp add: t(1) n e)
  show ?case
  proof (cases "f < MAX_RETRY")
    case True
    then have "MAX_RETRY - (f + 1) < MAX_RETRY - f" by simp
    from less.hyps [OF this t(2)] show ?thesis using step True t by auto
  next
    case False
    then show ?thesis using step t by simp
  qed
qed

section \<open>The properties\<close>

text \<open>C23: Serving \<open>n\<close> requests of a queue of well-formed requests ends, without an access
  outside an object, and takes the first \<open>n\<close> of them off the queue, whatever the bus does.\<close>

theorem i2c_requests_served:
  assumes "\<forall>req\<in>set (i2c_queue s). req_ok I req"
    and "I (objs s)" "length (i2c_buf s) = I2C_BUF_SIZE"
  shows "\<exists>s'. i2c_tasks n drv s = Some s' \<and> I (objs s') \<and> i2c_queue s' = drop n (i2c_queue s)"
  using i2c_tasks_safe [OF assms(1), of n drv] assms(2,3) by (auto simp: i2c_ok_def)

text \<open>A request that reads two bytes into object 0, on a driver whose every run fails.\<close>

definition broken_driver :: "unit i2c_driver" where
  "broken_driver = \<lparr>link_create = True, link_add = (\<lambda>_ _. ESP_OK),
     cmd_begin = (\<lambda>_ _ b. (ESP_FAIL, [], b))\<rparr>"

definition read_two :: i2c_op where
  "read_two = \<lparr>write_data = None, write_size = 0, reg_addr = 0x10, read_size = 2, post_delay = 0,
     op_cplt_callback = None, user_ctx = Some 0\<rparr>"

definition read_two_req :: i2c_request where
  "read_two_req = \<lparr>i2c_port = 0, device_addr = 0x53, op_count = 1, reg_addr_16b = True,
     tr_cplt_callback = Some copy_callback, req_res = ESP_OK, ops = Ops [read_two]\<rparr>"

definition idle_i2c :: "unit i2c_state" where
  "idle_i2c = \<lparr>bus = (), i2c_buf = replicate I2C_BUF_SIZE 0, objs = [0 \<mapsto> [1, 2]], evn_group = 0, i2c_queue = []\<rparr>"

lemma copy_callback_ok:
  "cb_ok (\<lambda>m. has_bytes m ctx k) (Some copy_callback) ctx k"
proof -
  have "\<exists>m'. copy_callback res ctx (Some buf) len m = Some m' \<and> has_bytes m' ctx k"
    if m: "has_bytes m ctx k" and len: "len \<le> k" "len \<le> length buf" for res buf len m
  proof (cases "res = ESP_OK \<and> ctx \<noteq> None")
    case True
    have "has_bytes m ctx (length (take len buf))" using has_bytes_mono [OF m len(1)] len(2) by simp
    then obtain m' where "mem_write m ctx (take len buf) = Some m'" using mem_write_Some by blast
    with True len(2) m show ?thesis
      using same_shape_has_bytes [OF mem_write_same_shape] by (simp add: copy_callback_def)
  qed (use m in \<open>auto simp: copy_callback_def\<close>)
  then show ?thesis by (simp add: cb_ok_def)
qed

lemma read_two_ok: "op_ok (\<lambda>m. has_bytes m (Some 0) 2) read_two_req read_two"
  using copy_callback_ok [of "Some 0" 2] by (simp add: op_ok_def eff_callback_def read_two_def read_two_req_def)

theorem i2c_requests_served_witness:
  "\<exists>s'. i2c_tasks 3 broken_driver (idle_i2c\<lparr>i2c_queue := [read_two_req, read_two_req]\<rparr>) = Some s' \<and>
     has_bytes (objs s') (Some 0) 2 \<and> i2c_queue s' = drop 3 [read_two_req, read_two_req]"
proof -
  let ?I = "\<lambda>m. has_bytes m (Some 0) 2"
  have req: "req_ok ?I read_two_req"
    using read_two_ok unfolding req_ok_def by (intro exI [of _ "[read_two]"]) (simp add: read_two_req_def)
  have "?I (objs idle_i2c)" "length (i2c_buf idle_i2c) = I2C_BUF_SIZE"
    by (simp_all add: idle_i2c_def has_bytes_def)
  with req show ?thesis
    using i2c_requests_served [of "idle_i2c\<lparr>i2c_queue := [read_two_req, read_two_req]\<rparr>" ?I 3 broken_driver]
    by simp
qed

text \<open>A synchronous request whose transfers all fail is reported as a success: the task
  gives up after its retries, signals completion, and the caller's buffer is unchanged.\<close>

lemma i2c_failure_unreported:
  assumes "bus_fails drv" "0 < n" "i2c_queue s = []" "length (i2c_buf s) = I2C_BUF_SIZE"
    and "ops req = Ops [op]" "op_count req = 1"
    and "read_size op \<noteq> 0 \<or> write_size op \<noteq> 0" "read_size op \<le> I2C_BUF_SIZE"
    and "case write_data op of None \<Rightarrow> write_size op = 0 | Some d \<Rightarrow> write_size op \<le> length d"
    and "tr_cplt_callback req = Some copy_callback" "op_cplt_callback op = None"
    and "has_bytes (objs s) (user_ctx op) (read_size op)"
  shows "\<exists>s'. i2c_send_sync drv n (Some req) s = Some (ESP_OK, s') \<and> objs s' = objs s"
proof -
  let ?I = "\<lambda>m. has_bytes m (user_ctx op) (read_size op)"
  let ?s = "s\<lparr>evn_group := device_clear_bits (BIT_I2C_OPER_CPLT OR BIT_I2C_OPER_ERR) (evn_group s)\<rparr>"
  have op: "op_ok ?I req op"
    using assms(9,10,11) copy_callback_ok [of "user_ctx op" "read_size op"]
    by (auto simp: op_ok_def eff_callback_def split: option.splits)
  have "write_size op \<noteq> 0 \<longrightarrow> write_data op \<noteq> None" using assms(9) by (auto split: option.splits)
  from failing_run [OF assms(1,7,8) this op assms(10,11), of "?s\<lparr>i2c_queue := []\<rparr>" "[]" 0 0 ESP_OK] assms(4,12)
  obtain s1 where run: "i2c_run drv req [op] (Suc 0) 0 ESP_OK (?s\<lparr>i2c_queue := []\<rparr>) = Some s1" "objs s1 = objs s"
      "i2c_queue s1 = []" "evn_group s1 = evn_group ?s"
    by (auto simp: i2c_ok_def)
  let ?t = "s1\<lparr>evn_group := device_set_bits BIT_I2C_OPER_CPLT (evn_group s1)\<rparr>"
  obtain m where n: "n = Suc m" using assms(2) by (cases n) auto
  have idle: "i2c_tasks m drv ?t = Some ?t"
    using run(3) by (induction m) (simp_all add: i2c_task_def)
  have "i2c_tasks n drv (?s\<lparr>i2c_queue := [req]\<rparr>) = Some ?t"
    using run assms(3,5,6) idle unfolding n by (simp add: i2c_task_def)
  moreover have "evn_group ?t AND BIT_I2C_OPER_CPLT \<noteq> 0"
    using cplt_seen by simp
  ultimately show ?thesis
    using assms(3,5,6) run(2) by (simp add: i2c_send_sync_def i2c_send_async_def I2C_QUEUE_LEN_def Let_def)
qed

lemma i2c_failure_unreported_witness:
  "\<exists>s'. i2c_send_sync broken_driver 1 (Some read_two_req) idle_i2c = Some (ESP_OK, s') \<and>
     objs s' = objs idle_i2c"
proof (rule i2c_failure_unreported [where op = read_two])
  show "length (i2c_buf idle_i2c) = I2C_BUF_SIZE" by (simp add: idle_i2c_def)
  show "read_size read_two \<le> I2C_BUF_SIZE" by (simp add: read_two_def I2C_BUF_SIZE_def)
qed (simp_all add: bus_fails_def broken_driver_def idle_i2c_def read_two_req_def read_two_def has_bytes_def)

end
