(* ===== verification/Wifi_Service.thy ===== *)
theory Wifi_Service
  imports Device Event_Manager Complex_Main
begin

text \<open>
  The Wi-Fi service: \<open>components/wifi_service/wifi_service.c\<close> and \<open>wifi_tools.c\<close>.  The Wi-Fi and
  network functions of ESP-IDF are a parameter, functions on the driver's state; a result the
  code ignores is left out of its type.  The lemmas show how often a lost connection is tried
  again, which credentials are accepted and what the driver is given, and that the channel
  chosen is the least used one.
\<close>

section \<open>Data\<close>

definition AP_MAX_CONNECTION :: u8 where "AP_MAX_CONNECTION = 2"
definition WIFI_MAX_RETRY :: int where "WIFI_MAX_RETRY = 10"
definition MAX_SCAN_RESULTS :: nat where "MAX_SCAN_RESULTS = 30"
definition MAX_WIFI_CH :: nat where "MAX_WIFI_CH = 13"

datatype dev_wifi_mode_t =
    DEV_WIFI_MODE_NOT_INIT | DEV_WIFI_MODE_NULL | DEV_WIFI_MODE_STA | DEV_WIFI_MODE_AP | DEV_WIFI_MODE_APSTA

definition mode_number :: "dev_wifi_mode_t \<Rightarrow> int" where
  "mode_number m =
     (case m of DEV_WIFI_MODE_NOT_INIT \<Rightarrow> 0 | DEV_WIFI_MODE_NULL \<Rightarrow> 1 | DEV_WIFI_MODE_STA \<Rightarrow> 2
      | DEV_WIFI_MODE_AP \<Rightarrow> 3 | DEV_WIFI_MODE_APSTA \<Rightarrow> 4)"

text \<open>The modes and the configurations of the driver, of the fields the code sets.\<close>

datatype wifi_mode = WIFI_MODE_NULL | WIFI_MODE_STA | WIFI_MODE_AP | WIFI_MODE_APSTA

datatype wifi_auth_mode = WIFI_AUTH_OPEN | WIFI_AUTH_WPA2_PSK | WIFI_AUTH_WPA_WPA2_PSK

record wifi_sta_config =
  cfg_ssid :: "u8 list"
  cfg_password :: "u8 list"
  cfg_authmode :: wifi_auth_mode

record wifi_ap_config = wifi_sta_config +
  max_connection :: u8
  channel :: u8

record 'w wifi_api =
  wifi_connect :: "'w \<Rightarrow> 'w"
  wifi_get_mode :: "'w \<Rightarrow> esp_err \<times> wifi_mode \<times> 'w"
  wifi_driver_mode :: "wifi_mode \<Rightarrow> 'w \<Rightarrow> esp_err \<times> 'w"
  wifi_set_sta_config :: "wifi_sta_config \<Rightarrow> 'w \<Rightarrow> esp_err \<times> 'w"
  wifi_set_ap_config :: "wifi_ap_config \<Rightarrow> 'w \<Rightarrow> esp_err \<times> 'w"
  wifi_start :: "'w \<Rightarrow> esp_err \<times> 'w"
  wifi_stop :: "'w \<Rightarrow> esp_err \<times> 'w"
  set_max_tx_power :: "int \<Rightarrow> 'w \<Rightarrow> esp_err \<times> 'w"
  dhcps_stop :: "'w \<Rightarrow> esp_err \<times> 'w"
  dhcps_start :: "'w \<Rightarrow> esp_err \<times> 'w"
  dhcpc_stop :: "'w \<Rightarrow> esp_err \<times> 'w"
  dhcpc_start :: "'w \<Rightarrow> esp_err \<times> 'w"
  set_ip_info :: "bool \<Rightarrow> ipv4_t \<times> ipv4_t \<times> ipv4_t \<Rightarrow> 'w \<Rightarrow> esp_err \<times> 'w"
  set_dns_info :: "ipv4_t \<Rightarrow> 'w \<Rightarrow> esp_err \<times> 'w"
  wifi_scan_start :: "'w \<Rightarrow> esp_err \<times> 'w"
  scan_get_ap_records :: "nat \<Rightarrow> 'w \<Rightarrow> esp_err \<times> u8 list \<times> 'w"
  event_queue_send :: "DevEvn \<Rightarrow> 'w \<Rightarrow> bool \<times> 'w"

text \<open>
  The state: \<open>_wifi_init\<close>, the static counter of the event handler, the bits of the event group
  and the driver's state.
\<close>

record 'w wifi_state =
  wifi_init :: bool
  reconnection_ctrl :: int
  dev_bits :: u32
  driver :: 'w

section \<open>Events\<close>

datatype wifi_event =
    WIFI_EVENT_STA_START | WIFI_EVENT_STA_DISCONNECTED | WIFI_EVENT_AP_START | WIFI_EVENT_AP_STACONNECTED
  | WIFI_EVENT_STA_STOP | WIFI_EVENT_AP_STADISCONNECTED | WIFI_EVENT_OTHER
  | IP_EVENT_STA_GOT_IP ipv4_t ipv4_t ipv4_t | IP_EVENT_OTHER

definition auto_conn :: "'w wifi_state \<Rightarrow> bool" where
  "auto_conn s \<longleftrightarrow> device_get_bits (dev_bits s) AND BIT_WIFI_AUTO_CONN \<noteq> 0"

abbreviation clear_bits :: "u32 \<Rightarrow> 'w wifi_state \<Rightarrow> 'w wifi_state" where
  "clear_bits v s \<equiv> s\<lparr>dev_bits := device_clear_bits v (dev_bits s)\<rparr>"

abbreviation set_bits :: "u32 \<Rightarrow> 'w wifi_state \<Rightarrow> 'w wifi_state" where
  "set_bits v s \<equiv> s\<lparr>dev_bits := device_set_bits v (dev_bits s)\<rparr>"

text \<open>
  \<open>wifi_event_handler\<close>: the user context is the address and the object of the station's
  network data, or null.  The address and gateway are those of the event.
\<close>

definition wifi_event_handler ::
  "'w wifi_api \<Rightarrow> wifi_event \<Rightarrow> (u32 \<times> dev_ip_info_t) option \<times> 'w wifi_state \<Rightarrow> (u32 \<times> dev_ip_info_t) option \<times> 'w wifi_state" where
  "wifi_event_handler api e cs =
     (case cs of (ctx, s) \<Rightarrow>
        (case e of
           WIFI_EVENT_STA_START \<Rightarrow>
             (ctx, if auto_conn s then s\<lparr>reconnection_ctrl := 0, driver := wifi_connect api (driver s)\<rparr> else s)
         | WIFI_EVENT_STA_DISCONNECTED \<Rightarrow>
             (ctx,
              if auto_conn s
              then
                (if reconnection_ctrl s < WIFI_MAX_RETRY
                 then s\<lparr>driver := wifi_connect api (driver s), reconnection_ctrl := reconnection_ctrl s + 1\<rparr>
                 else set_bits BIT_WIFI_STA_CONN_FAIL (clear_bits BIT_WIFI_STA_CONNECTED s))
              else s)
         | WIFI_EVENT_AP_START \<Rightarrow> (ctx, set_bits BIT_WIFI_AP_START s)
         | WIFI_EVENT_AP_STACONNECTED \<Rightarrow> (ctx, set_bits BIT_WIFI_CONNECTED s)
         | WIFI_EVENT_STA_STOP \<Rightarrow> (ctx, clear_bits (BIT_WIFI_STA_CONNECTED OR BIT_WIFI_AUTO_CONN) s)
         | WIFI_EVENT_AP_STADISCONNECTED \<Rightarrow> (ctx, clear_bits BIT_WIFI_CONNECTED s)
         | IP_EVENT_STA_GOT_IP addr gw nm \<Rightarrow>
             (let s = (set_bits BIT_WIFI_STA_CONNECTED s)\<lparr>reconnection_ctrl := 0\<rparr>;
                  ctx = map_option (\<lambda>(a, i). (a, i\<lparr>ip := addr, gateway := gw, netmask := nm\<rparr>)) ctx;
                  p = (case ctx of None \<Rightarrow> 0 | Some (a, _) \<Rightarrow> a) in
              (ctx, s\<lparr>driver := snd (set_event (event_queue_send api) EVN_STA_CONNECTED p (driver s))\<rparr>))
         | WIFI_EVENT_OTHER \<Rightarrow> (ctx, s)
         | IP_EVENT_OTHER \<Rightarrow> (ctx, s)))"

section \<open>Modes\<close>

definition get_wifi_mode :: "dev_wifi_mode_t \<Rightarrow> wifi_mode" where
  "get_wifi_mode m =
     (case m of DEV_WIFI_MODE_STA \<Rightarrow> WIFI_MODE_STA | DEV_WIFI_MODE_AP \<Rightarrow> WIFI_MODE_AP
      | DEV_WIFI_MODE_APSTA \<Rightarrow> WIFI_MODE_APSTA | _ \<Rightarrow> WIFI_MODE_NULL)"

definition set_wifi_on :: "'w wifi_api \<Rightarrow> 'w wifi_state \<Rightarrow> bool \<times> 'w wifi_state" where
  "set_wifi_on api s =
     (let s = set_bits BIT_WIFI_AUTO_CONN s in
      case wifi_start api (driver s) of (e, w) \<Rightarrow> (e = ESP_OK, s\<lparr>driver := w\<rparr>))"

definition set_wifi_off :: "'w wifi_api \<Rightarrow> 'w wifi_state \<Rightarrow> bool \<times> 'w wifi_state" where
  "set_wifi_off api s =
     (let s = clear_bits (BIT_WIFI_STA_CONNECTED OR BIT_WIFI_AUTO_CONN) s in
      case wifi_stop api (driver s) of (e, w) \<Rightarrow> (e = ESP_OK, s\<lparr>driver := w\<rparr>))"

text \<open>The value of the bits of a \<open>float\<close>: \<open>None\<close> is not a number, an infinity is its next power of two.\<close>

definition float_value :: "u32 \<Rightarrow> rat option" where
  "float_value b =
     (let e = unat (drop_bit 23 b AND 0xFF); m = unat (b AND 0x7FFFFF) in
      if e = 255 \<and> m \<noteq> 0 then None
      else Some ((if bit b 31 then - 1 else 1) *
                 (if e = 0 then of_nat m / 2 ^ 149 else of_nat (2 ^ 23 + m) * 2 ^ e / 2 ^ 150)))"

text \<open>
  The truncation of \<open>dbm * 4.0f + 0.5f\<close>: between 2 and 21 the product is exact and the rounding of
  the sum does not reach the next integer, so exact arithmetic gives the same result.
\<close>

definition dbm_to_raw_tx_power :: "rat \<Rightarrow> int" where
  "dbm_to_raw_tx_power dbm =
     (let raw = \<lfloor>dbm * 4 + 1 / 2\<rfloor>;
          raw = (if raw < 8 then 8 else raw) in
      if raw > 84 then 84 else raw)"

text \<open>Not a number passes the range check, and its conversion to \<open>int8_t\<close> is undefined.\<close>

definition set_wifi_tx_power_exact_dbm :: "'w wifi_api \<Rightarrow> u32 \<Rightarrow> 'w \<Rightarrow> (bool \<times> 'w) option" where
  "set_wifi_tx_power_exact_dbm api b w =
     do {
       dbm \<leftarrow> float_value b;
       (if dbm < 2 \<or> dbm > 21 then Some (False, w)
        else (case set_max_tx_power api (dbm_to_raw_tx_power dbm) w of (e, w) \<Rightarrow> Some (e = ESP_OK, w)))
     }"

definition set_ap_ip_info :: "'w wifi_api \<Rightarrow> dev_ip_info_t \<Rightarrow> 'w \<Rightarrow> bool \<times> 'w" where
  "set_ap_ip_info api info w =
     (if \<not> enable info then (True, w)
      else
        check_ret_false (dhcps_stop api w) (\<lambda>w.
        check_ret_false (set_ip_info api True (ip info, netmask info, gateway info) w) (\<lambda>w.
        check_ret_false (dhcps_start api w) (\<lambda>w. (True, w)))))"

definition set_sta_ip_info :: "'w wifi_api \<Rightarrow> dev_ip_info_t \<Rightarrow> 'w \<Rightarrow> bool \<times> 'w" where
  "set_sta_ip_info api info w =
     (if \<not> enable info then (case dhcpc_start api w of (e, w) \<Rightarrow> (e = ESP_OK, w))
      else
        check_ret_false (dhcpc_stop api w) (\<lambda>w.
        check_ret_false (set_ip_info api False (ip info, netmask info, gateway info) w) (\<lambda>w.
        check_ret_false (set_dns_info api (dns info) w) (\<lambda>w. (True, w)))))"

text \<open>
  The two parts of \<open>wifi_set_mode\<close> that fill a configuration: \<open>Some None\<close> is the early
  \<open>return false\<close>.
\<close>

definition zero_sta_config :: wifi_sta_config where
  "zero_sta_config = \<lparr>cfg_ssid = replicate 32 0, cfg_password = replicate 64 0, cfg_authmode = WIFI_AUTH_OPEN\<rparr>"

definition zero_ap_config :: wifi_ap_config where
  "zero_ap_config = \<lparr>cfg_ssid = replicate 32 0, cfg_password = replicate 64 0, cfg_authmode = WIFI_AUTH_OPEN,
     max_connection = 0, channel = 0\<rparr>"

definition sta_config :: "dev_sta_conf_t \<Rightarrow> wifi_sta_config option option" where
  "sta_config c =
     do {
       (n, ss) \<leftarrow> cpy_str (cfg_ssid zero_sta_config) (sta_ssid c) 32;
       (if n < 1 then Some None
        else do {
          (len, pw) \<leftarrow> cpy_str (cfg_password zero_sta_config) (sta_password c) 64;
          Some (if len = -1 \<or> (len > 0 \<and> len < 8) then None
                else Some \<lparr>cfg_ssid = ss, cfg_password = pw,
                           cfg_authmode = (if len \<noteq> 0 then WIFI_AUTH_WPA2_PSK else WIFI_AUTH_OPEN)\<rparr>)
        })
     }"

definition ap_config :: "dev_ap_conf_t \<Rightarrow> wifi_ap_config option option" where
  "ap_config c =
     do {
       (n, ss) \<leftarrow> cpy_str (cfg_ssid zero_ap_config) (ap_ssid c) 32;
       (if n < 1 then Some None
        else do {
          (len, pw) \<leftarrow> cpy_str (cfg_password zero_ap_config) (ap_password c) 64;
          Some (if len = -1 \<or> (len > 0 \<and> len < 8) then None
                else Some \<lparr>cfg_ssid = ss, cfg_password = pw,
                           cfg_authmode = (if len \<noteq> 0 then WIFI_AUTH_WPA_WPA2_PSK else WIFI_AUTH_OPEN),
                           max_connection = AP_MAX_CONNECTION,
                           channel = (if ch c = 0 \<or> ch c > 13 then 1 else ch c)\<rparr>)
        })
     }"

definition wants_sta :: "dev_wifi_mode_t \<Rightarrow> bool" where
  "wants_sta m \<longleftrightarrow> m = DEV_WIFI_MODE_STA \<or> m = DEV_WIFI_MODE_APSTA"

definition wants_ap :: "dev_wifi_mode_t \<Rightarrow> bool" where
  "wants_ap m \<longleftrightarrow> m = DEV_WIFI_MODE_AP \<or> m = DEV_WIFI_MODE_APSTA"

definition leave_mode :: "'w wifi_api \<Rightarrow> wifi_mode \<Rightarrow> 'w wifi_state \<Rightarrow> 'w wifi_state" where
  "leave_mode api prev_mode s = (if prev_mode \<noteq> WIFI_MODE_NULL then snd (set_wifi_off api s) else s)"

text \<open>
  The rest of \<open>wifi_set_mode\<close>: the switch of the driver.  The results of \<open>set_wifi_off\<close>,
  \<open>set_wifi_on\<close>, \<open>set_sta_ip_info\<close>, \<open>set_ap_ip_info\<close> and of the transmit power are ignored.
\<close>

definition wifi_switch ::
  "'w wifi_api \<Rightarrow> dev_wifi_config_t \<Rightarrow> dev_wifi_mode_t \<Rightarrow> wifi_sta_config \<Rightarrow> wifi_ap_config \<Rightarrow> 'w wifi_state \<Rightarrow>
     (bool \<times> dev_wifi_config_t \<times> 'w wifi_state) option" where
  "wifi_switch api conf new_mode sta_cfg ap_cfg s =
     (case wifi_get_mode api (driver s) of (_, cur_wifi_mode, w) \<Rightarrow>
        (let s = s\<lparr>driver := w\<rparr>;
             s = leave_mode api cur_wifi_mode s in
         (case check_ret_false (wifi_driver_mode api (get_wifi_mode new_mode) (driver s)) (\<lambda>w.
                 let sta_done = (if wants_sta new_mode
                                 then wifi_set_sta_config api sta_cfg (snd (set_sta_ip_info api (sta_ip_info (sta conf)) w))
                                 else (ESP_OK, w)) in
                 check_ret_false sta_done (\<lambda>w.
                 let ap_done = (if wants_ap new_mode
                                then wifi_set_ap_config api ap_cfg (snd (set_ap_ip_info api (ap_ip_info (ap conf)) w))
                                else (ESP_OK, w)) in
                 check_ret_false ap_done (\<lambda>w. (True, w)))) of (ok, w) \<Rightarrow>
            (let s = s\<lparr>driver := w\<rparr> in
             if \<not> ok then Some (False, conf, s)
             else do {
               s \<leftarrow> (if new_mode \<noteq> DEV_WIFI_MODE_NULL
                     then
                       (let s = snd (set_wifi_on api s) in
                        if wants_ap new_mode
                        then map_option (\<lambda>(_, w). s\<lparr>driver := w\<rparr>)
                               (set_wifi_tx_power_exact_dbm api (power_dbm (ap conf)) (driver s))
                        else Some s)
                     else Some s);
               Some (True, conf\<lparr>cur_mode := mode_number new_mode\<rparr>, s)
             }))))"

definition wifi_set_mode ::
  "'w wifi_api \<Rightarrow> dev_wifi_config_t \<Rightarrow> dev_wifi_mode_t \<Rightarrow> 'w wifi_state \<Rightarrow>
     (bool \<times> dev_wifi_config_t \<times> 'w wifi_state) option" where
  "wifi_set_mode api conf new_mode s =
     (if \<not> wifi_init s then Some (False, conf, s)
      else do {
        sta_cfg \<leftarrow> (if wants_sta new_mode then sta_config (sta conf) else Some (Some zero_sta_config));
        (case sta_cfg of
           None \<Rightarrow> Some (False, conf, s)
         | Some sta_cfg \<Rightarrow>
             do {
               ap_cfg \<leftarrow> (if wants_ap new_mode then ap_config (ap conf) else Some (Some zero_ap_config));
               (case ap_cfg of
                  None \<Rightarrow> Some (False, conf, s)
                | Some ap_cfg \<Rightarrow> wifi_switch api conf new_mode sta_cfg ap_cfg s)
             })
      })"

section \<open>The choice of a channel\<close>

definition count_channels :: "u8 list \<Rightarrow> nat list" where
  "count_channels primaries =
     foldl (\<lambda>counts c. if 1 \<le> c \<and> c \<le> of_nat MAX_WIFI_CH then counts[unat c := counts ! unat c + 1] else counts)
       (replicate 14 0) primaries"

definition best_channel :: "nat list \<Rightarrow> nat" where
  "best_channel counts =
     foldl (\<lambda>best c. if counts ! c < counts ! best then c else best) 1 [2..<MAX_WIFI_CH + 1]"

text \<open>\<open>get_best_wifi_ch\<close>: \<open>None\<close> is the abort of \<open>ESP_ERROR_CHECK\<close>.\<close>

definition esp_error_check :: "esp_err \<times> 'w \<Rightarrow> 'w option" where
  "esp_error_check r = (case r of (e, w) \<Rightarrow> if e = ESP_OK then Some w else None)"

definition run_scan :: "'w wifi_api \<Rightarrow> 'w \<Rightarrow> 'w option" where
  "run_scan api w =
     do {
       w \<leftarrow> esp_error_check (wifi_driver_mode api WIFI_MODE_STA w);
       w \<leftarrow> esp_error_check (wifi_start api w);
       esp_error_check (wifi_scan_start api w)
     }"

definition scan_records :: "'w wifi_api \<Rightarrow> 'w \<Rightarrow> (u8 list \<times> 'w) option" where
  "scan_records api w =
     (case scan_get_ap_records api MAX_SCAN_RESULTS w of (e, aps, w) \<Rightarrow>
        if e = ESP_OK then Some (aps, w) else None)"

definition get_best_wifi_ch :: "'w wifi_api \<Rightarrow> 'w wifi_state \<Rightarrow> (nat \<times> 'w wifi_state) option" where
  "get_best_wifi_ch api s =
     (case wifi_get_mode api (driver s) of (e, prev_mode, w) \<Rightarrow>
        (let s = s\<lparr>driver := w\<rparr> in
         if e \<noteq> ESP_OK then Some (1, s)
         else
           (let s = leave_mode api prev_mode s in
            do {
              w \<leftarrow> run_scan api (driver s);
              (primaries, w) \<leftarrow> scan_records api w;
              w \<leftarrow> esp_error_check (wifi_stop api w);
              w \<leftarrow> esp_error_check (wifi_driver_mode api WIFI_MODE_NULL w);
              s \<leftarrow> (if prev_mode \<noteq> WIFI_MODE_NULL
                    then do {
                      w \<leftarrow> esp_error_check (wifi_driver_mode api prev_mode w);
                      Some (snd (set_wifi_on api (s\<lparr>driver := w\<rparr>)))
                    }
                    else Some (s\<lparr>driver := w\<rparr>));
              Some (best_channel (count_channels primaries), s)
            })))"

section \<open>The least used channel\<close>

lemma count_channels_nth:
  "i \<le> 13 \<Longrightarrow> count_channels primaries ! i =
     (if i = 0 then 0 else length (filter (\<lambda>c. unat c = i) primaries)) \<and> length (count_channels primaries) = 14"
proof (induction primaries rule: rev_induct)
  case Nil
  then show ?case by (simp add: count_channels_def nth_replicate)
next
  case (snoc c cs)
  have range: "(1 \<le> c \<and> c \<le> of_nat MAX_WIFI_CH) \<longleftrightarrow> (1 \<le> unat c \<and> unat c \<le> 13)"
    by (simp add: word_le_nat_alt MAX_WIFI_CH_def)
  have step: "count_channels (cs @ [c]) =
      (if 1 \<le> unat c \<and> unat c \<le> 13 then (count_channels cs)[unat c := count_channels cs ! unat c + 1] else count_channels cs)"
    using range by (simp add: count_channels_def)
  show ?case using snoc unfolding step by (cases "unat c = 0") (auto simp: nth_list_update)
qed

lemma best_channel_spec:
  "1 \<le> best_channel counts \<and> best_channel counts \<le> MAX_WIFI_CH \<and>
   (\<forall>c. 1 \<le> c \<longrightarrow> c \<le> MAX_WIFI_CH \<longrightarrow> counts ! best_channel counts \<le> counts ! c) \<and>
   (\<forall>c. 1 \<le> c \<longrightarrow> c < best_channel counts \<longrightarrow> counts ! best_channel counts < counts ! c)"
proof -
  define best where "best n = foldl (\<lambda>best c. if counts ! c < counts ! best then c else best) 1 [2..<n + 1]" for n
  have "1 \<le> n \<Longrightarrow> 1 \<le> best n \<and> best n \<le> n \<and> (\<forall>c. 1 \<le> c \<longrightarrow> c \<le> n \<longrightarrow> counts ! best n \<le> counts ! c) \<and>
      (\<forall>c. 1 \<le> c \<longrightarrow> c < best n \<longrightarrow> counts ! best n < counts ! c)" for n
  proof (induction n)
    case 0
    then show ?case by simp
  next
    case (Suc n)
    show ?case
    proof (cases "n = 0")
      case True
      then show ?thesis by (auto simp: best_def le_Suc_eq)
    next
      case False
      then have step: "best (Suc n) = (if counts ! Suc n < counts ! best n then Suc n else best n)"
        by (simp add: best_def)
      show ?thesis
      proof (cases "counts ! Suc n < counts ! best n")
        case True
        have "1 \<le> c \<Longrightarrow> c \<le> n \<Longrightarrow> counts ! best n \<le> counts ! c" for c
          using Suc.IH False by simp
        then have "1 \<le> c \<Longrightarrow> c \<le> n \<Longrightarrow> counts ! Suc n < counts ! c" for c
          using True by (meson order.strict_trans2)
        then show ?thesis using True unfolding step by (auto simp: le_Suc_eq less_Suc_eq_le less_imp_le)
      next
        case no: False
        then show ?thesis using Suc.IH False unfolding step by (auto simp: le_Suc_eq)
      qed
    qed
  qed
  moreover have "best_channel counts = best MAX_WIFI_CH" by (simp only: best_channel_def best_def)
  moreover have "1 \<le> MAX_WIFI_CH" by (simp add: MAX_WIFI_CH_def)
  ultimately show ?thesis by metis
qed

text \<open>The number of access points on a channel.\<close>

definition aps_on :: "u8 list \<Rightarrow> nat \<Rightarrow> nat" where
  "aps_on primaries c = length (filter (\<lambda>p. unat p = c) primaries)"

section \<open>Reconnection\<close>

lemmas wifi_bits = BIT_WIFI_STA_CONNECTED_def BIT_WIFI_STA_CONN_FAIL_def BIT_WIFI_AUTO_CONN_def

lemma set_cleared_other:
  fixes b c f a :: u32
  assumes "f AND a = 0" "c AND a = 0"
  shows "device_set_bits f (device_clear_bits c b) AND a = b AND a"
proof (rule bit_word_eqI)
  fix n assume n: "n < LENGTH(32)"
  have "bit f n \<and> bit a n \<longleftrightarrow> False" "bit c n \<and> bit a n \<longleftrightarrow> False"
    using arg_cong [OF assms(1), of "\<lambda>w. bit w n"] arg_cong [OF assms(2), of "\<lambda>w. bit w n"]
    by (simp_all add: bit_and_iff)
  with n show "bit (device_set_bits f (device_clear_bits c b) AND a) n \<longleftrightarrow> bit (b AND a) n"
    by (auto simp: device_set_bits_def device_clear_bits_def bit_simps)
qed

lemma lost_step:
  "auto_conn s \<Longrightarrow> reconnection_ctrl s < WIFI_MAX_RETRY \<Longrightarrow>
     wifi_event_handler api WIFI_EVENT_STA_DISCONNECTED (ctx, s) =
       (ctx, s\<lparr>driver := wifi_connect api (driver s), reconnection_ctrl := reconnection_ctrl s + 1\<rparr>)"
  by (simp add: wifi_event_handler_def)

lemma auto_conn_dev_bits [simp]: "auto_conn (s\<lparr>driver := w, reconnection_ctrl := r\<rparr>) = auto_conn s"
  by (simp add: auto_conn_def)

lemma lost_retries:
  "auto_conn s \<Longrightarrow> reconnection_ctrl s = 0 \<Longrightarrow> k \<le> 10 \<Longrightarrow>
     fold (wifi_event_handler api) (replicate k WIFI_EVENT_STA_DISCONNECTED) (ctx, s) =
       (ctx, s\<lparr>driver := (wifi_connect api ^^ k) (driver s), reconnection_ctrl := int k\<rparr>)"
proof (induction k)
  case 0
  then show ?case by (cases s) simp
next
  case (Suc k)
  let ?s = "s\<lparr>driver := (wifi_connect api ^^ k) (driver s), reconnection_ctrl := int k\<rparr>"
  have "replicate (Suc k) WIFI_EVENT_STA_DISCONNECTED = replicate k WIFI_EVENT_STA_DISCONNECTED @ [WIFI_EVENT_STA_DISCONNECTED]"
    by (simp add: replicate_append_same)
  then show ?case using Suc lost_step [of ?s api ctx] by (simp add: WIFI_MAX_RETRY_def)
qed

definition failed_bits :: "u32 \<Rightarrow> u32" where
  "failed_bits b = device_set_bits BIT_WIFI_STA_CONN_FAIL (device_clear_bits BIT_WIFI_STA_CONNECTED b)"

lemma failed_bits_twice [simp]: "failed_bits (failed_bits b) = failed_bits b"
  by (rule bit_word_eqI) (auto simp: failed_bits_def device_set_bits_def device_clear_bits_def bit_simps)

lemma auto_conn_failed:
  "auto_conn (s\<lparr>dev_bits := failed_bits b\<rparr>) \<longleftrightarrow> b AND BIT_WIFI_AUTO_CONN \<noteq> 0"
proof -
  have "failed_bits b AND BIT_WIFI_AUTO_CONN = b AND BIT_WIFI_AUTO_CONN"
    unfolding failed_bits_def by (rule set_cleared_other) (simp_all add: wifi_bits)
  then show ?thesis by (simp add: auto_conn_def device_get_bits_def)
qed

lemma given_up:
  "auto_conn s \<Longrightarrow> reconnection_ctrl s = 10 \<Longrightarrow>
     fold (wifi_event_handler api) (replicate (Suc k) WIFI_EVENT_STA_DISCONNECTED) (ctx, s) =
       (ctx, s\<lparr>dev_bits := failed_bits (dev_bits s)\<rparr>)"
proof (induction k arbitrary: s)
  case 0
  then show ?case by (simp add: wifi_event_handler_def WIFI_MAX_RETRY_def failed_bits_def)
next
  case (Suc k)
  let ?s = "s\<lparr>dev_bits := failed_bits (dev_bits s)\<rparr>"
  have "wifi_event_handler api WIFI_EVENT_STA_DISCONNECTED (ctx, s) = (ctx, ?s)"
    using Suc.prems by (simp add: wifi_event_handler_def WIFI_MAX_RETRY_def failed_bits_def)
  moreover have "auto_conn ?s" using Suc.prems(1) by (simp only: auto_conn_failed) (simp add: auto_conn_def device_get_bits_def)
  ultimately show ?case using Suc.IH [of ?s] Suc.prems(2) by simp
qed

section \<open>Credentials\<close>

text \<open>A string stored in a zeroed buffer of \<open>n\<close> bytes.\<close>

definition padded :: "nat \<Rightarrow> u8 list \<Rightarrow> u8 list" where
  "padded n str = str @ replicate (n - length str) 0"

lemma cpy_str_zero:
  assumes "terminated src"
  shows "cpy_str (replicate n 0) src n =
     Some (if length (c_string src) < n then (int (length (c_string src)), padded n (c_string src))
           else (-1, replicate n 0))"
proof -
  obtain k where k: "strnlen src n = Some k" using strnlen_terminated [OF assms] by blast
  have c: "take k src = take n (c_string src)" using strnlen_c_string [OF k] .
  have le: "k \<le> n" "k \<le> length src" using strnlen_le [OF k] by auto
  have len: "k = min n (length (c_string src))" using arg_cong [OF c, of length] le by simp
  show ?thesis
  proof (cases "length (c_string src) < n")
    case True
    then show ?thesis using k c len le by (simp add: cpy_str_def memcpy_def padded_def)
  next
    case False
    then show ?thesis using k len by (simp add: cpy_str_def)
  qed
qed

text \<open>Credentials the service accepts: an SSID of 1 to 31 and a password of 0 or 8 to 63 characters.\<close>

definition credentials_ok :: "u8 list \<Rightarrow> u8 list \<Rightarrow> bool" where
  "credentials_ok ssid pwd \<longleftrightarrow>
     0 < length (c_string ssid) \<and> length (c_string ssid) < 32 \<and>
     (length (c_string pwd) = 0 \<or> 8 \<le> length (c_string pwd) \<and> length (c_string pwd) < 64)"

definition auth_of :: "wifi_auth_mode \<Rightarrow> u8 list \<Rightarrow> wifi_auth_mode" where
  "auth_of protected pwd = (if c_string pwd = [] then WIFI_AUTH_OPEN else protected)"

definition sta_config_spec :: "dev_sta_conf_t \<Rightarrow> wifi_sta_config" where
  "sta_config_spec c =
     \<lparr>cfg_ssid = padded 32 (c_string (sta_ssid c)), cfg_password = padded 64 (c_string (sta_password c)),
      cfg_authmode = auth_of WIFI_AUTH_WPA2_PSK (sta_password c)\<rparr>"

definition ap_config_spec :: "dev_ap_conf_t \<Rightarrow> wifi_ap_config" where
  "ap_config_spec c =
     \<lparr>cfg_ssid = padded 32 (c_string (ap_ssid c)), cfg_password = padded 64 (c_string (ap_password c)),
      cfg_authmode = auth_of WIFI_AUTH_WPA_WPA2_PSK (ap_password c), max_connection = 2,
      channel = (if ch c = 0 \<or> ch c > 13 then 1 else ch c)\<rparr>"

lemma sta_config_spec:
  assumes "terminated (sta_ssid c)" "terminated (sta_password c)"
  shows "sta_config c = Some (if credentials_ok (sta_ssid c) (sta_password c) then Some (sta_config_spec c) else None)"
  using cpy_str_zero [OF assms(1), of 32] cpy_str_zero [OF assms(2), of 64]
  by (auto simp: sta_config_def zero_sta_config_def credentials_ok_def sta_config_spec_def auth_of_def)

lemma ap_config_spec:
  assumes "terminated (ap_ssid c)" "terminated (ap_password c)"
  shows "ap_config c = Some (if credentials_ok (ap_ssid c) (ap_password c) then Some (ap_config_spec c) else None)"
  using cpy_str_zero [OF assms(1), of 32] cpy_str_zero [OF assms(2), of 64]
  by (auto simp: ap_config_def zero_ap_config_def credentials_ok_def ap_config_spec_def auth_of_def AP_MAX_CONNECTION_def)

text \<open>
  A driver with a log of the calls that choose the mode, pass a configuration, start or stop it;
  what the calls do and return is left to the driver \<open>api\<close>.
\<close>

datatype wifi_call =
    Called_mode wifi_mode | Called_sta wifi_sta_config | Called_ap wifi_ap_config | Called_start | Called_stop

definition unlogged :: "('w \<Rightarrow> 'r \<times> 'w) \<Rightarrow> 'w \<times> wifi_call list \<Rightarrow> 'r \<times> 'w \<times> wifi_call list" where
  "unlogged f = (\<lambda>(w, calls). case f w of (r, w) \<Rightarrow> (r, w, calls))"

definition calling :: "wifi_call \<Rightarrow> ('w \<Rightarrow> 'r \<times> 'w) \<Rightarrow> 'w \<times> wifi_call list \<Rightarrow> 'r \<times> 'w \<times> wifi_call list" where
  "calling c f = (\<lambda>(w, calls). case f w of (r, w) \<Rightarrow> (r, w, calls @ [c]))"

definition logged :: "'w wifi_api \<Rightarrow> ('w \<times> wifi_call list) wifi_api" where
  "logged api =
     \<lparr>wifi_connect = (\<lambda>(w, calls). (wifi_connect api w, calls)),
      wifi_get_mode = (\<lambda>(w, calls). case wifi_get_mode api w of (e, m, w) \<Rightarrow> (e, m, w, calls)),
      wifi_driver_mode = (\<lambda>m. calling (Called_mode m) (wifi_driver_mode api m)),
      wifi_set_sta_config = (\<lambda>c. calling (Called_sta c) (wifi_set_sta_config api c)),
      wifi_set_ap_config = (\<lambda>c. calling (Called_ap c) (wifi_set_ap_config api c)),
      wifi_start = calling Called_start (wifi_start api), wifi_stop = calling Called_stop (wifi_stop api),
      set_max_tx_power = (\<lambda>p. unlogged (set_max_tx_power api p)),
      dhcps_stop = unlogged (dhcps_stop api), dhcps_start = unlogged (dhcps_start api),
      dhcpc_stop = unlogged (dhcpc_stop api), dhcpc_start = unlogged (dhcpc_start api),
      set_ip_info = (\<lambda>a i. unlogged (set_ip_info api a i)), set_dns_info = (\<lambda>d. unlogged (set_dns_info api d)),
      wifi_scan_start = unlogged (wifi_scan_start api),
      scan_get_ap_records = (\<lambda>n (w, calls). case scan_get_ap_records api n w of (e, r, w) \<Rightarrow> (e, r, w, calls)),
      event_queue_send = (\<lambda>ev. unlogged (event_queue_send api ev))\<rparr>"

lemma logged_addresses:
  "snd (snd (set_sta_ip_info (logged api) i (w, l))) = l" "snd (snd (set_ap_ip_info (logged api) i (w, l))) = l"
  by (auto simp: set_sta_ip_info_def set_ap_ip_info_def check_ret_false_def logged_def unlogged_def split: prod.split)

lemma logged_power:
  "float_value b \<noteq> None \<Longrightarrow>
   \<exists>ok w'. set_wifi_tx_power_exact_dbm (logged api) b (w, l) = Some (ok, w', l)"
  by (auto simp: set_wifi_tx_power_exact_dbm_def logged_def unlogged_def split: prod.split)

lemma logged_on: "\<exists>ok w'. set_wifi_on (logged api) (s\<lparr>driver := (w, l)\<rparr>) =
    (ok, (set_bits BIT_WIFI_AUTO_CONN s)\<lparr>driver := (w', l @ [Called_start])\<rparr>)"
  by (auto simp: set_wifi_on_def logged_def calling_def Let_def split: prod.split)

lemma logged_leave:
  "snd (driver (leave_mode (logged api) prev (s\<lparr>driver := (w, l)\<rparr>))) =
     l @ (if prev = WIFI_MODE_NULL then [] else [Called_stop])"
  by (auto simp: leave_mode_def set_wifi_off_def logged_def calling_def Let_def split: prod.split)

text \<open>The calls of the driver, all of which succeed.\<close>

definition driver_works :: "'w wifi_api \<Rightarrow> bool" where
  "driver_works api \<longleftrightarrow> (\<forall>m w. fst (wifi_driver_mode api m w) = ESP_OK) \<and>
     (\<forall>c w. fst (wifi_set_sta_config api c w) = ESP_OK) \<and> (\<forall>c w. fst (wifi_set_ap_config api c w) = ESP_OK)"

lemma logged_configure:
  assumes "conf_calls = Called_mode m # (if a then [Called_sta sc] else []) @ (if b then [Called_ap ac] else [])"
  shows "\<exists>ok w' calls rest.
    check_ret_false (wifi_driver_mode (logged api) m (w, l)) (\<lambda>w.
      let sta_done = (if a then wifi_set_sta_config (logged api) sc (snd (set_sta_ip_info (logged api) i w))
                      else (ESP_OK, w)) in
      check_ret_false sta_done (\<lambda>w.
      let ap_done = (if b then wifi_set_ap_config (logged api) ac (snd (set_ap_ip_info (logged api) j w))
                     else (ESP_OK, w)) in
      check_ret_false ap_done (\<lambda>w. (True, w)))) = (ok, w', l @ calls) \<and>
    calls @ rest = conf_calls \<and> (ok \<longrightarrow> rest = []) \<and> (driver_works api \<longrightarrow> ok)"
proof -
  obtain e1 w1 where 1: "wifi_driver_mode api m w = (e1, w1)" by fastforce
  obtain r2 w2 where 2: "set_sta_ip_info (logged api) i (w1, l @ [Called_mode m]) = (r2, w2, l @ [Called_mode m])"
    using logged_addresses(1) [of api i w1 "l @ [Called_mode m]"] by (metis prod.collapse)
  obtain e3 w3 where 3: "(if a then wifi_set_sta_config api sc w2 else (ESP_OK, w1)) = (e3, w3)" by fastforce
  let ?l3 = "l @ Called_mode m # (if a then [Called_sta sc] else [])"
  obtain r4 w4 where 4: "set_ap_ip_info (logged api) j (w3, ?l3) = (r4, w4, ?l3)"
    using logged_addresses(2) [of api j w3 ?l3] by (metis prod.collapse)
  obtain e5 w5 where 5: "(if b then wifi_set_ap_config api ac w4 else (ESP_OK, w3)) = (e5, w5)" by fastforce
  have works: "driver_works api \<Longrightarrow> e1 = ESP_OK \<and> e3 = ESP_OK \<and> e5 = ESP_OK"
    using 1 3 5 unfolding driver_works_def by (metis fst_conv)
  show ?thesis
  proof (cases "e1 = ESP_OK \<and> e3 = ESP_OK")
    case True
    then show ?thesis using 1 2 3 4 5 assms works
      by (cases a; cases b) (auto simp: check_ret_false_def logged_def calling_def Let_def)
  next
    case False
    then show ?thesis using 1 2 3 assms works
      by (cases a; cases "e1 = ESP_OK") (auto simp: check_ret_false_def logged_def calling_def Let_def)
  qed
qed

lemma logged_switch:
  assumes "driver s = (w, l)" "wifi_get_mode api w = (e, prev, w0)" "wants_ap m \<Longrightarrow> float_value (power_dbm (ap conf)) \<noteq> None"
    "expected = (if prev = WIFI_MODE_NULL then [] else [Called_stop]) @
       Called_mode (get_wifi_mode m) # (if wants_sta m then [Called_sta sc] else []) @
       (if wants_ap m then [Called_ap ac] else []) @ (if m = DEV_WIFI_MODE_NULL then [] else [Called_start])"
  shows "\<exists>ok conf' s' calls rest. wifi_switch (logged api) conf m sc ac s = Some (ok, conf', s') \<and>
    snd (driver s') = l @ calls \<and> calls @ rest = expected \<and> (ok \<longrightarrow> rest = []) \<and>
    conf' = (if ok then conf\<lparr>cur_mode := mode_number m\<rparr> else conf) \<and> (driver_works api \<longrightarrow> ok)"
proof -
  let ?l1 = "l @ (if prev = WIFI_MODE_NULL then [] else [Called_stop])"
  let ?on = "if m = DEV_WIFI_MODE_NULL then [] else [Called_start]"
  have get: "wifi_get_mode (logged api) (driver s) = (e, prev, w0, l)" using assms(1,2) by (simp add: logged_def)
  obtain s1 w1 where s1: "leave_mode (logged api) prev (s\<lparr>driver := (w0, l)\<rparr>) = s1" "driver s1 = (w1, ?l1)"
    using logged_leave [where api = api and prev = prev and s = s and w = w0 and l = l] by (metis prod.collapse)
  obtain ok w2 calls rest where c: "check_ret_false (wifi_driver_mode (logged api) (get_wifi_mode m) (w1, ?l1)) (\<lambda>w.
      let sta_done = (if wants_sta m then wifi_set_sta_config (logged api) sc (snd (set_sta_ip_info (logged api) (sta_ip_info (sta conf)) w))
                      else (ESP_OK, w)) in
      check_ret_false sta_done (\<lambda>w.
      let ap_done = (if wants_ap m then wifi_set_ap_config (logged api) ac (snd (set_ap_ip_info (logged api) (ap_ip_info (ap conf)) w))
                     else (ESP_OK, w)) in
      check_ret_false ap_done (\<lambda>w. (True, w)))) = (ok, w2, ?l1 @ calls)"
    and calls: "calls @ rest = Called_mode (get_wifi_mode m) # (if wants_sta m then [Called_sta sc] else []) @
       (if wants_ap m then [Called_ap ac] else [])" "ok \<longrightarrow> rest = []" "driver_works api \<longrightarrow> ok"
    using logged_configure [OF refl, where m = "get_wifi_mode m" and a = "wants_sta m" and sc = sc and
        b = "wants_ap m" and ac = ac and api = api and w = w1 and l = ?l1] by meson
  let ?s2 = "s1\<lparr>driver := (w2, ?l1 @ calls)\<rparr>"
  have expected: "expected = (if prev = WIFI_MODE_NULL then [] else [Called_stop]) @ calls @ rest @ ?on"
    using assms(4) calls(1) by simp
  show ?thesis
  proof (cases ok)
    case False
    then have "wifi_switch (logged api) conf m sc ac s = Some (False, conf, ?s2)"
      using get s1 c by (simp add: wifi_switch_def Let_def)
    then show ?thesis using False calls(3) expected
      by (intro exI [of _ False] exI [of _ conf] exI [of _ ?s2]) simp
  next
    case True
    let ?off = "if m \<noteq> DEV_WIFI_MODE_NULL
       then let s = snd (set_wifi_on (logged api) ?s2) in
         if wants_ap m then map_option (\<lambda>(_, w). s\<lparr>driver := w\<rparr>)
                               (set_wifi_tx_power_exact_dbm (logged api) (power_dbm (ap conf)) (driver s))
         else Some s
       else Some ?s2"
    obtain b w3 where on: "set_wifi_on (logged api) ?s2 =
        (b, (set_bits BIT_WIFI_AUTO_CONN s1)\<lparr>driver := (w3, (?l1 @ calls) @ [Called_start])\<rparr>)"
      using logged_on [where api = api and s = s1 and w = w2 and l = "?l1 @ calls"] by blast
    have "\<exists>s'. ?off = Some s' \<and> snd (driver s') = ?l1 @ calls @ ?on"
      using on assms(3) logged_power [where b = "power_dbm (ap conf)" and api = api and w = w3 and l = "(?l1 @ calls) @ [Called_start]"]
      by (cases "wants_ap m") auto
    then obtain s' where s': "?off = Some s'" "snd (driver s') = ?l1 @ calls @ ?on" by blast
    then have "wifi_switch (logged api) conf m sc ac s = Some (True, conf\<lparr>cur_mode := mode_number m\<rparr>, s')"
      using get s1 c True by (simp only: wifi_switch_def Let_def prod.case) simp
    then show ?thesis using s'(2) calls(2) True expected
      by (intro exI [of _ True] exI [of _ "conf\<lparr>cur_mode := mode_number m\<rparr>"] exI [of _ s']) simp
  qed
qed

text \<open>A driver that counts the calls of \<open>esp_wifi_connect\<close> and finds five access points.\<close>

definition test_wifi :: "nat wifi_api" where
  "test_wifi =
     \<lparr>wifi_connect = Suc, wifi_get_mode = (\<lambda>w. (ESP_OK, WIFI_MODE_NULL, w)), wifi_driver_mode = (\<lambda>_ w. (ESP_OK, w)),
      wifi_set_sta_config = (\<lambda>_ w. (ESP_OK, w)), wifi_set_ap_config = (\<lambda>_ w. (ESP_OK, w)),
      wifi_start = Pair ESP_OK, wifi_stop = Pair ESP_OK, set_max_tx_power = (\<lambda>_ w. (ESP_OK, w)),
      dhcps_stop = Pair ESP_OK, dhcps_start = Pair ESP_OK, dhcpc_stop = Pair ESP_OK, dhcpc_start = Pair ESP_OK,
      set_ip_info = (\<lambda>_ _ w. (ESP_OK, w)), set_dns_info = (\<lambda>_ w. (ESP_OK, w)), wifi_scan_start = Pair ESP_OK,
      scan_get_ap_records = (\<lambda>_ w. (ESP_OK, [1, 1, 2, 6, 3], w)), event_queue_send = (\<lambda>_ w. (True, w))\<rparr>"

definition idle_wifi :: "nat wifi_state" where
  "idle_wifi = \<lparr>wifi_init = True, reconnection_ctrl = 0, dev_bits = BIT_WIFI_AUTO_CONN, driver = 0\<rparr>"

lemma long_ssid: "length (c_string (replicate 32 97 @ [0])) = 32"
  by (simp add: c_string_def takeWhile_append)

section \<open>The properties\<close>

text \<open>C32: With automatic connection on, a connection lost \<open>k\<close> times without an address in between
  is tried again for the first ten losses only; the connected bit stays set for all of these, and
  from the eleventh loss on it is clear and the failure bit is set.\<close>

theorem wifi_reconnects_ten_times:
  assumes "auto_conn s" "reconnection_ctrl s = 0"
  shows "fold (wifi_event_handler api) (replicate k WIFI_EVENT_STA_DISCONNECTED) (ctx, s) =
           (ctx, s\<lparr>driver := (wifi_connect api ^^ min k 10) (driver s), reconnection_ctrl := int (min k 10),
                   dev_bits := (if k \<le> 10 then dev_bits s
                                else device_set_bits BIT_WIFI_STA_CONN_FAIL
                                       (device_clear_bits BIT_WIFI_STA_CONNECTED (dev_bits s)))\<rparr>)"
proof (cases "k \<le> 10")
  case True
  then show ?thesis using lost_retries [OF assms True, of api ctx] by (simp add: min_def)
next
  case False
  then obtain j where k: "k = 10 + Suc j" by (metis add_Suc_right less_imp_Suc_add not_le)
  let ?s = "s\<lparr>driver := (wifi_connect api ^^ 10) (driver s), reconnection_ctrl := 10\<rparr>"
  have "replicate k WIFI_EVENT_STA_DISCONNECTED =
      replicate 10 WIFI_EVENT_STA_DISCONNECTED @ replicate (Suc j) WIFI_EVENT_STA_DISCONNECTED"
    by (simp only: k replicate_add)
  then have "fold (wifi_event_handler api) (replicate k WIFI_EVENT_STA_DISCONNECTED) (ctx, s) =
      fold (wifi_event_handler api) (replicate (Suc j) WIFI_EVENT_STA_DISCONNECTED) (ctx, ?s)"
    using lost_retries [OF assms, of 10 api ctx] by (simp only: fold_append comp_apply) simp
  also have "\<dots> = (ctx, ?s\<lparr>dev_bits := failed_bits (dev_bits ?s)\<rparr>)"
    using assms(1) by (intro given_up) simp_all
  finally show ?thesis using k by (simp add: failed_bits_def)
qed

theorem wifi_reconnects_ten_times_witness:
  "fold (wifi_event_handler test_wifi) (replicate 12 WIFI_EVENT_STA_DISCONNECTED) (None, idle_wifi) =
   (None, idle_wifi\<lparr>driver := 10, reconnection_ctrl := 10,
     dev_bits := BIT_WIFI_AUTO_CONN OR BIT_WIFI_STA_CONN_FAIL\<rparr>)"
  using wifi_reconnects_ten_times [of idle_wifi test_wifi 12 None]
  by (simp add: idle_wifi_def test_wifi_def auto_conn_def wifi_bits device_get_bits_def device_set_bits_def
      device_clear_bits_def Suc_funpow)

text \<open>C33: In an initialised service whose strings are terminated, a mode whose credentials are not
  accepted (in particular a 32 character SSID, which the settings can hold) is refused without any
  call of the driver.  Otherwise, whatever the driver answers, its calls are a part from the front
  of these: stop when it was on, the mode, the station's configuration and the access point's, as
  far as the mode wants them, with the stored strings padded with zeros and no password meaning no
  protection, and start unless the mode is the null mode; all of them were made when success is
  reported, and then the mode is stored; and success is reported when the driver works.\<close>

theorem wifi_set_mode_checks_credentials:
  assumes "wifi_init s" "driver s = (w, [])" "wifi_get_mode api w = (e, prev, w0)"
    and "terminated (sta_ssid (sta conf))" "terminated (sta_password (sta conf))"
    and "terminated (ap_ssid (ap conf))" "terminated (ap_password (ap conf))"
    and "wants_ap m \<Longrightarrow> float_value (power_dbm (ap conf)) \<noteq> None"
    and "accepted \<longleftrightarrow> (wants_sta m \<longrightarrow> credentials_ok (sta_ssid (sta conf)) (sta_password (sta conf))) \<and>
           (wants_ap m \<longrightarrow> credentials_ok (ap_ssid (ap conf)) (ap_password (ap conf)))"
  shows "(\<not> accepted \<longrightarrow> wifi_set_mode (logged api) conf m s = Some (False, conf, s)) \<and>
    (accepted \<longrightarrow> (\<exists>ok conf' s' calls rest.
       wifi_set_mode (logged api) conf m s = Some (ok, conf', s') \<and> snd (driver s') = calls \<and>
       calls @ rest =
         (if prev = WIFI_MODE_NULL then [] else [Called_stop]) @
         [Called_mode (case m of DEV_WIFI_MODE_STA \<Rightarrow> WIFI_MODE_STA | DEV_WIFI_MODE_AP \<Rightarrow> WIFI_MODE_AP
                       | DEV_WIFI_MODE_APSTA \<Rightarrow> WIFI_MODE_APSTA | _ \<Rightarrow> WIFI_MODE_NULL)] @
         (if wants_sta m
          then [Called_sta \<lparr>cfg_ssid = padded 32 (c_string (sta_ssid (sta conf))),
                 cfg_password = padded 64 (c_string (sta_password (sta conf))),
                 cfg_authmode = (if c_string (sta_password (sta conf)) = [] then WIFI_AUTH_OPEN else WIFI_AUTH_WPA2_PSK)\<rparr>]
          else []) @
         (if wants_ap m
          then [Called_ap \<lparr>cfg_ssid = padded 32 (c_string (ap_ssid (ap conf))),
                 cfg_password = padded 64 (c_string (ap_password (ap conf))),
                 cfg_authmode = (if c_string (ap_password (ap conf)) = [] then WIFI_AUTH_OPEN else WIFI_AUTH_WPA_WPA2_PSK),
                 max_connection = 2, channel = (if ch (ap conf) = 0 \<or> ch (ap conf) > 13 then 1 else ch (ap conf))\<rparr>]
          else []) @
         (if m = DEV_WIFI_MODE_NULL then [] else [Called_start]) \<and>
       (ok \<longrightarrow> rest = []) \<and> conf' = (if ok then conf\<lparr>cur_mode := mode_number m\<rparr> else conf) \<and>
       (driver_works api \<longrightarrow> ok)))"
proof -
  let ?sc = "if wants_sta m then sta_config_spec (sta conf) else zero_sta_config"
    and ?ac = "if wants_ap m then ap_config_spec (ap conf) else zero_ap_config"
  show ?thesis
  proof (cases accepted)
    case False
    then have "wifi_set_mode (logged api) conf m s = Some (False, conf, s)"
      using assms(1,4-7,9) by (auto simp: wifi_set_mode_def sta_config_spec ap_config_spec)
    with False show ?thesis by blast
  next
    case True
    then have run: "wifi_set_mode (logged api) conf m s = wifi_switch (logged api) conf m ?sc ?ac s"
      using assms(1,4-7,9) by (auto simp: wifi_set_mode_def sta_config_spec ap_config_spec)
    show ?thesis
      unfolding run using True
      by (intro conjI impI logged_switch [OF assms(2,3,8), unfolded append_Nil])
        (cases m, simp_all add: wants_sta_def wants_ap_def sta_config_spec_def ap_config_spec_def auth_of_def get_wifi_mode_def)
  qed
qed

text \<open>A station that is refused for its SSID of 32 characters, and an open one.\<close>

definition station :: "u8 list \<Rightarrow> dev_wifi_config_t" where
  "station ssid = zero_wifi\<lparr>sta := (sta zero_wifi)\<lparr>sta_ssid := ssid @ [0]\<rparr>\<rparr>"

definition logged_wifi :: "(nat \<times> wifi_call list) wifi_state" where
  "logged_wifi = \<lparr>wifi_init = True, reconnection_ctrl = 0, dev_bits = 0, driver = (0, [])\<rparr>"

theorem wifi_set_mode_checks_credentials_witness:
  "wifi_set_mode (logged test_wifi) (station (replicate 32 0x61)) DEV_WIFI_MODE_STA logged_wifi =
     Some (False, station (replicate 32 0x61), logged_wifi) \<and>
   (\<exists>s'. wifi_set_mode (logged test_wifi) (station [0x61, 0x62]) DEV_WIFI_MODE_STA logged_wifi =
       Some (True, (station [0x61, 0x62])\<lparr>cur_mode := 2\<rparr>, s') \<and>
     snd (driver s') = [Called_mode WIFI_MODE_STA,
       Called_sta \<lparr>cfg_ssid = [0x61, 0x62] @ replicate 30 0, cfg_password = replicate 64 0, cfg_authmode = WIFI_AUTH_OPEN\<rparr>,
       Called_start])"
proof -
  have works: "driver_works test_wifi" by (simp add: driver_works_def test_wifi_def)
  have init: "wifi_init logged_wifi" "driver logged_wifi = (0, [])"
    "wifi_get_mode test_wifi 0 = (ESP_OK, WIFI_MODE_NULL, 0)"
    by (simp_all add: logged_wifi_def test_wifi_def)
  have strings: "terminated (sta_ssid (sta (station ssid)))" "terminated (sta_password (sta (station ssid)))"
    "terminated (ap_ssid (ap (station ssid)))" "terminated (ap_password (ap (station ssid)))" for ssid
    by (simp_all add: station_def zero_wifi_def terminated_def)
  have ap: "wants_ap DEV_WIFI_MODE_STA \<Longrightarrow> float_value (power_dbm (ap (station ssid))) \<noteq> None" for ssid
    by (simp add: wants_ap_def)
  have long: "False \<longleftrightarrow>
      (wants_sta DEV_WIFI_MODE_STA \<longrightarrow>
         credentials_ok (sta_ssid (sta (station (replicate 32 0x61)))) (sta_password (sta (station (replicate 32 0x61))))) \<and>
      (wants_ap DEV_WIFI_MODE_STA \<longrightarrow>
         credentials_ok (ap_ssid (ap (station (replicate 32 0x61)))) (ap_password (ap (station (replicate 32 0x61)))))"
    by (simp add: station_def credentials_ok_def wants_sta_def long_ssid)
  have short: "True \<longleftrightarrow>
      (wants_sta DEV_WIFI_MODE_STA \<longrightarrow>
         credentials_ok (sta_ssid (sta (station [0x61, 0x62]))) (sta_password (sta (station [0x61, 0x62])))) \<and>
      (wants_ap DEV_WIFI_MODE_STA \<longrightarrow>
         credentials_ok (ap_ssid (ap (station [0x61, 0x62]))) (ap_password (ap (station [0x61, 0x62]))))"
    by (simp add: station_def zero_wifi_def credentials_ok_def wants_ap_def c_string_def)
  have str: "c_string (sta_ssid (sta (station [0x61, 0x62]))) = [0x61, 0x62]"
    "c_string (sta_password (sta (station [0x61, 0x62]))) = []"
    by (simp_all add: station_def zero_wifi_def c_string_def)
  have refused: "wifi_set_mode (logged test_wifi) (station (replicate 32 0x61)) DEV_WIFI_MODE_STA logged_wifi =
      Some (False, station (replicate 32 0x61), logged_wifi)"
    using wifi_set_mode_checks_credentials [OF init strings ap long] by blast
  have "\<exists>ok conf' s' calls rest.
      wifi_set_mode (logged test_wifi) (station [0x61, 0x62]) DEV_WIFI_MODE_STA logged_wifi = Some (ok, conf', s') \<and>
      snd (driver s') = calls \<and>
      calls @ rest = [Called_mode WIFI_MODE_STA, Called_sta \<lparr>cfg_ssid = padded 32 [0x61, 0x62],
         cfg_password = padded 64 [], cfg_authmode = WIFI_AUTH_OPEN\<rparr>, Called_start] \<and>
      (ok \<longrightarrow> rest = []) \<and>
      conf' = (if ok then (station [0x61, 0x62])\<lparr>cur_mode := mode_number DEV_WIFI_MODE_STA\<rparr> else station [0x61, 0x62]) \<and>
      (driver_works test_wifi \<longrightarrow> ok)"
    using wifi_set_mode_checks_credentials [OF init strings ap short]
    unfolding str by (simp only: wants_sta_def wants_ap_def simp_thms dev_wifi_mode_t.simps if_True if_False append.simps)
  with works refused show ?thesis by (auto simp: mode_number_def padded_def)
qed

text \<open>C34: After a scan that reports its access points, the channel returned is between 1 and 13, no
  channel has fewer access points, and every smaller channel has more.\<close>

theorem best_channel_least_used:
  assumes "wifi_get_mode api (driver s) = (ESP_OK, prev_mode, w0)"
    and "run_scan api (driver (leave_mode api prev_mode (s\<lparr>driver := w0\<rparr>))) = Some w"
    and "scan_get_ap_records api MAX_SCAN_RESULTS w = (ESP_OK, primaries, w')"
    and "get_best_wifi_ch api s = Some (c, s')"
  shows "1 \<le> c \<and> c \<le> 13 \<and> (\<forall>d. 1 \<le> d \<and> d \<le> 13 \<longrightarrow> aps_on primaries c \<le> aps_on primaries d) \<and>
         (\<forall>d. 1 \<le> d \<and> d < c \<longrightarrow> aps_on primaries c < aps_on primaries d)"
proof -
  have c: "c = best_channel (count_channels primaries)"
    using assms by (auto simp: get_best_wifi_ch_def scan_records_def Let_def Option.bind_eq_Some_conv split: if_splits)
  have nth: "d \<le> 13 \<Longrightarrow> 1 \<le> d \<Longrightarrow> count_channels primaries ! d = aps_on primaries d" for d
    using count_channels_nth [of d primaries] by (simp add: aps_on_def)
  show ?thesis
    using best_channel_spec [of "count_channels primaries"] nth unfolding c [symmetric] MAX_WIFI_CH_def by auto
qed

theorem best_channel_least_used_witness:
  "get_best_wifi_ch test_wifi idle_wifi = Some (4, idle_wifi) \<and>
   aps_on [1, 1, 2, 6, 3] 4 \<le> aps_on [1, 1, 2, 6, 3] 13 \<and> aps_on [1, 1, 2, 6, 3] 4 < aps_on [1, 1, 2, 6, 3] 3"
proof -
  have 1: "wifi_get_mode test_wifi (driver idle_wifi) = (ESP_OK, WIFI_MODE_NULL, 0)"
    and 2: "run_scan test_wifi (driver (leave_mode test_wifi WIFI_MODE_NULL (idle_wifi\<lparr>driver := 0\<rparr>))) = Some 0"
    and 3: "scan_get_ap_records test_wifi MAX_SCAN_RESULTS 0 = (ESP_OK, [1, 1, 2, 6, 3], 0)"
    by (simp_all add: test_wifi_def idle_wifi_def run_scan_def leave_mode_def esp_error_check_def)
  have "best_channel (count_channels [1, 1, 2, 6, 3]) = 4" by code_simp
  then have 4: "get_best_wifi_ch test_wifi idle_wifi = Some (4, idle_wifi)"
    using 1 2 3 by (simp add: get_best_wifi_ch_def scan_records_def)
      (simp add: test_wifi_def idle_wifi_def esp_error_check_def leave_mode_def)
  from best_channel_least_used [OF 1 2 3 4] 4 show ?thesis by simp
qed

end
