(* ===== verification/Startup.thy ===== *)
theory Startup
  imports Event_Dispatch Device_Gpio I2c_Async Wifi_Service
begin

text \<open>
  What runs once: \<open>device_init\<close> of \<open>components/device/device.c\<close>, \<open>i2c_init\<close> of
  \<open>components/device_i2c/i2c_async.c\<close> and \<open>wifi_preinit\<close> of \<open>components/wifi_service/wifi_service.c\<close>,
  with the event group of \<open>device.c\<close>.  The lemmas show what a second call does, which failures
  are final, and how the poll of the buttons and the event system work together.
\<close>

section \<open>The device\<close>

text \<open>The event group, \<open>None\<close> before it is created, the event system and the non-volatile memory.\<close>

record 's device_system =
  device_evn_group :: "u32 option"
  events :: event_system
  nvs :: 's

definition device_init :: "'s nvs_api \<Rightarrow> 's device_system \<Rightarrow> 's device_system" where
  "device_init api d =
     (if device_evn_group d \<noteq> None then d
      else d\<lparr>device_evn_group := Some 0, events := init_event_manager (events d),
             nvs := snd (init_nvs api (nvs d))\<rparr>)"

lemma device_init_again: "device_init api (device_init api d) = device_init api d"
  by (simp add: device_init_def)

text \<open>
  \<open>device_wait_bits\<close>: \<open>v\<close> is the value of the event group at the start of the wait and \<open>vs\<close> its
  values at the ticks of the wait; the wait ends with the first that has one of the bits, or
  at the last tick.
\<close>

fun device_wait_bits :: "u32 \<Rightarrow> u32 \<Rightarrow> u32 list \<Rightarrow> u32" where
  "device_wait_bits bits v [] = v"
| "device_wait_bits bits v (v' # vs) =
     (if v AND bits \<noteq> 0 then v else device_wait_bits bits v' vs)"

lemma device_wait_bits_iff:
  "device_wait_bits bits v vs AND bits \<noteq> 0 \<longleftrightarrow> (\<exists>x \<in> set (v # vs). x AND bits \<noteq> 0)"
  by (induction vs arbitrary: v) auto

text \<open>A bit that was set and cleared between two ticks is not seen.\<close>

lemma device_wait_bits_last:
  "\<forall>x \<in> set (v # vs). x AND bits = 0 \<Longrightarrow> device_wait_bits bits v vs = last (v # vs)"
  by (induction vs arbitrary: v) auto

section \<open>The I2C bus\<close>

definition I2C_MASTER_NUM :: int where "I2C_MASTER_NUM = 0"
definition I2C_MASTER_SCL_PIN :: int where "I2C_MASTER_SCL_PIN = 17"
definition I2C_MASTER_SDA_PIN :: int where "I2C_MASTER_SDA_PIN = 18"
definition CONFIG_I2C_CLK_SPEED_HZ :: u32 where "CONFIG_I2C_CLK_SPEED_HZ = 100000"
definition I2C_MASTER_TX_BUF_DISABLE :: nat where "I2C_MASTER_TX_BUF_DISABLE = 0"
definition I2C_MASTER_RX_BUF_DISABLE :: nat where "I2C_MASTER_RX_BUF_DISABLE = 0"

record i2c_config_t =
  sda_io_num :: int
  scl_io_num :: int
  sda_pullup_en :: bool
  scl_pullup_en :: bool
  clk_speed :: u32

record 'w i2c_setup_api =
  i2c_param_config :: "int \<Rightarrow> i2c_config_t \<Rightarrow> 'w \<Rightarrow> esp_err \<times> 'w"
  i2c_driver_install :: "int \<Rightarrow> nat \<Rightarrow> nat \<Rightarrow> int \<Rightarrow> 'w \<Rightarrow> esp_err \<times> 'w"

text \<open>The queue, \<open>None\<close> before it is created, and the state of the driver.\<close>

definition i2c_init ::
  "'w i2c_setup_api \<Rightarrow> i2c_request list option \<times> 'w \<Rightarrow> bool \<times> i2c_request list option \<times> 'w" where
  "i2c_init api s =
     (case s of (queue, w) \<Rightarrow>
        if queue \<noteq> None then (True, queue, w)
        else
          (let conf = \<lparr>sda_io_num = I2C_MASTER_SDA_PIN, scl_io_num = I2C_MASTER_SCL_PIN,
                       sda_pullup_en = True, scl_pullup_en = True, clk_speed = CONFIG_I2C_CLK_SPEED_HZ\<rparr>;
               (ok, w) =
                 check_ret_false (i2c_param_config api I2C_MASTER_NUM conf w) (\<lambda>w.
                 check_ret_false (i2c_driver_install api I2C_MASTER_NUM I2C_MASTER_RX_BUF_DISABLE
                                    I2C_MASTER_TX_BUF_DISABLE 0 w) (\<lambda>w. (True, w)))
           in (ok, Some [], w)))"

text \<open>A second call reports success without a further try, also when the first one failed.\<close>

lemma i2c_init_again: "i2c_init api s = (ok, s') \<Longrightarrow> i2c_init api s' = (True, s')"
  by (auto simp: i2c_init_def case_prod_beta Let_def split: if_splits)

section \<open>Wi-Fi\<close>

text \<open>
  The functions \<open>wifi_preinit\<close> calls once.  \<open>netif_create_default\<close> makes the interface of the
  station or of the access point, \<open>event_handler_register\<close> registers the handler for all Wi-Fi
  events or for the event of an address.
\<close>

record 'w preinit_api =
  netif_init :: "'w \<Rightarrow> esp_err \<times> 'w"
  event_loop_create_default :: "'w \<Rightarrow> esp_err \<times> 'w"
  netif_create_default :: "bool \<Rightarrow> 'w \<Rightarrow> nat option \<times> 'w"
  wifi_driver_init :: "'w \<Rightarrow> esp_err \<times> 'w"
  wifi_set_ps_none :: "'w \<Rightarrow> 'w"
  event_handler_register :: "bool \<Rightarrow> 'w \<Rightarrow> esp_err \<times> 'w"
  wifi_set_storage_ram :: "'w \<Rightarrow> esp_err \<times> 'w"

text \<open>\<open>None\<close> is a failed \<open>assert\<close>.\<close>

definition wifi_preinit ::
  "'w wifi_api \<Rightarrow> 'w preinit_api \<Rightarrow> dev_wifi_config_t \<Rightarrow> 'w wifi_state \<Rightarrow>
     (bool \<times> dev_wifi_config_t \<times> 'w wifi_state) option" where
  "wifi_preinit api p conf s =
     (if wifi_init s then Some (True, conf, s)
      else
        (case check_ret_false (netif_init p (driver s)) (\<lambda>w.
              check_ret_false (event_loop_create_default p w) (\<lambda>w. (True, w))) of (ok, w) \<Rightarrow>
           if \<not> ok then Some (False, conf, s\<lparr>driver := w\<rparr>)
           else
             (case netif_create_default p True w of (sta_netif, w) \<Rightarrow>
              case netif_create_default p False w of (ap_netif, w) \<Rightarrow>
                if ap_netif = None \<or> sta_netif = None then None
                else
                  (case check_ret_false (wifi_driver_init p w) (\<lambda>w.
                        check_ret_false (wifi_driver_mode api WIFI_MODE_NULL (wifi_set_ps_none p w)) (\<lambda>w.
                        check_ret_false (event_handler_register p True w) (\<lambda>w.
                        check_ret_false (event_handler_register p False w) (\<lambda>w.
                        check_ret_false (wifi_set_storage_ram p w) (\<lambda>w. (True, w)))))) of (ok, w) \<Rightarrow>
                     Some (ok, if ok then conf\<lparr>cur_mode := mode_number DEV_WIFI_MODE_NULL\<rparr> else conf,
                           s\<lparr>driver := w, wifi_init := ok\<rparr>)))))"

text \<open>Calls of \<open>wifi_preinit\<close> one after the other: the state after them, and whether one succeeded.\<close>

fun preinit_calls :: "nat \<Rightarrow> 'w wifi_api \<Rightarrow> 'w preinit_api \<Rightarrow> dev_wifi_config_t \<Rightarrow> 'w wifi_state \<Rightarrow>
    (bool \<times> 'w wifi_state) option" where
  "preinit_calls 0 api p conf s = Some (False, s)"
| "preinit_calls (Suc n) api p conf s =
     do {
       (ok, conf, s) \<leftarrow> wifi_preinit api p conf s;
       (ok', s) \<leftarrow> preinit_calls n api p conf s;
       Some (ok \<or> ok', s)
     }"

text \<open>
  What ESP-IDF documents of the default event loop: it is created once, a second creation fails,
  and none of the other functions removes it.
\<close>

definition one_event_loop :: "('w \<Rightarrow> bool) \<Rightarrow> 'w wifi_api \<Rightarrow> 'w preinit_api \<Rightarrow> bool" where
  "one_event_loop looped api p \<longleftrightarrow>
     (\<forall>w. looped w \<longrightarrow> fst (event_loop_create_default p w) \<noteq> ESP_OK) \<and>
     (\<forall>w. fst (event_loop_create_default p w) = ESP_OK \<longrightarrow> looped (snd (event_loop_create_default p w))) \<and>
     (\<forall>w. looped w \<longrightarrow>
        looped (snd (event_loop_create_default p w)) \<and> looped (snd (netif_init p w)) \<and>
        (\<forall>b. looped (snd (netif_create_default p b w)) \<and> looped (snd (event_handler_register p b w))) \<and>
        looped (snd (wifi_driver_init p w)) \<and> looped (wifi_set_ps_none p w) \<and>
        looped (snd (wifi_driver_mode api WIFI_MODE_NULL w)) \<and> looped (snd (wifi_set_storage_ram p w)))"

lemma event_loop_laws:
  assumes "one_event_loop looped api p"
  shows "looped w \<Longrightarrow> event_loop_create_default p w = (e, w') \<Longrightarrow> e \<noteq> ESP_OK \<and> looped w'"
    "event_loop_create_default p w = (ESP_OK, w') \<Longrightarrow> looped w'"
    "looped w \<Longrightarrow> netif_init p w = (e, w') \<Longrightarrow> looped w'"
    "looped w \<Longrightarrow> netif_create_default p b w = (n, w') \<Longrightarrow> looped w'"
    "looped w \<Longrightarrow> event_handler_register p b w = (e, w') \<Longrightarrow> looped w'"
    "looped w \<Longrightarrow> wifi_driver_init p w = (e, w') \<Longrightarrow> looped w'"
    "looped w \<Longrightarrow> looped (wifi_set_ps_none p w)"
    "looped w \<Longrightarrow> wifi_driver_mode api WIFI_MODE_NULL w = (e, w') \<Longrightarrow> looped w'"
    "looped w \<Longrightarrow> wifi_set_storage_ram p w = (e, w') \<Longrightarrow> looped w'"
  using assms unfolding one_event_loop_def by (metis fst_conv snd_conv)+

lemma preinit_looped:
  assumes "one_event_loop looped api p" "looped (driver s)" "\<not> wifi_init s"
  shows "\<exists>s'. wifi_preinit api p conf s = Some (False, conf, s') \<and> looped (driver s') \<and> \<not> wifi_init s'"
proof -
  obtain e1 w1 where n: "netif_init p (driver s) = (e1, w1)" by fastforce
  obtain e2 w2 where l: "event_loop_create_default p w1 = (e2, w2)" by fastforce
  have w1: "looped w1" using event_loop_laws(3) [OF assms(1,2) n] .
  then have "e2 \<noteq> ESP_OK" "looped w2" using event_loop_laws(1) [OF assms(1) w1 l] by auto
  then show ?thesis using assms(3) n l w1 by (simp add: wifi_preinit_def check_ret_false_def)
qed

lemma preinit_calls_looped:
  assumes "one_event_loop looped api p"
  shows "looped (driver s) \<Longrightarrow> \<not> wifi_init s \<Longrightarrow>
    \<exists>s'. preinit_calls n api p conf s = Some (False, s') \<and> \<not> wifi_init s'"
proof (induction n arbitrary: s)
  case (Suc n)
  obtain s1 where s1: "wifi_preinit api p conf s = Some (False, conf, s1)" "looped (driver s1)" "\<not> wifi_init s1"
    using preinit_looped [OF assms Suc.prems] by blast
  then show ?case using Suc.IH [of s1] by auto
qed simp

text \<open>The second half of \<open>wifi_preinit\<close> keeps the loop.\<close>

lemma check_keeps:
  "(\<And>e w'. r = (e, w') \<Longrightarrow> looped w') \<Longrightarrow> (\<And>w'. looped w' \<Longrightarrow> looped (snd (k w'))) \<Longrightarrow>
   looped (snd (check_ret_false r k))"
  by (cases r) (simp add: check_ret_false_def)

lemma preinit_keeps_loop:
  assumes laws: "one_event_loop looped api p" and new: "\<not> wifi_init s"
    and loop: "netif_init p (driver s) = (ESP_OK, w1)" "event_loop_create_default p w1 = (ESP_OK, w2)"
    and run: "wifi_preinit api p conf s = Some (ok, conf', s')"
  shows "looped (driver s') \<and> wifi_init s' = ok"
proof -
  note law = event_loop_laws [OF laws]
  obtain sta w3 where sta: "netif_create_default p True w2 = (sta, w3)" by fastforce
  obtain ap w4 where ap: "netif_create_default p False w3 = (ap, w4)" by fastforce
  have w4: "looped w4" using law(4) [OF law(4) [OF law(2) [OF loop(2)] sta] ap] .
  let ?rest = "check_ret_false (wifi_driver_init p w4) (\<lambda>w.
      check_ret_false (wifi_driver_mode api WIFI_MODE_NULL (wifi_set_ps_none p w)) (\<lambda>w.
      check_ret_false (event_handler_register p True w) (\<lambda>w.
      check_ret_false (event_handler_register p False w) (\<lambda>w.
      check_ret_false (wifi_set_storage_ram p w) (\<lambda>w. (True, w))))))"
  have 5: "looped (snd (check_ret_false (wifi_set_storage_ram p w) (\<lambda>w. (True, w))))" if "looped w" for w
    by (rule check_keeps [where looped = looped], erule law(9) [OF that], simp)
  have 4: "looped (snd (check_ret_false (event_handler_register p False w) (\<lambda>w.
      check_ret_false (wifi_set_storage_ram p w) (\<lambda>w. (True, w)))))" if "looped w" for w
    by (rule check_keeps [where looped = looped], erule law(5) [OF that], erule 5)
  have 3: "looped (snd (check_ret_false (event_handler_register p True w) (\<lambda>w.
      check_ret_false (event_handler_register p False w) (\<lambda>w.
      check_ret_false (wifi_set_storage_ram p w) (\<lambda>w. (True, w))))))" if "looped w" for w
    by (rule check_keeps [where looped = looped], erule law(5) [OF that], erule 4)
  have 2: "looped (snd (check_ret_false (wifi_driver_mode api WIFI_MODE_NULL (wifi_set_ps_none p w)) (\<lambda>w.
      check_ret_false (event_handler_register p True w) (\<lambda>w.
      check_ret_false (event_handler_register p False w) (\<lambda>w.
      check_ret_false (wifi_set_storage_ram p w) (\<lambda>w. (True, w)))))))" if "looped w" for w
    by (rule check_keeps [where looped = looped], erule law(8) [OF law(7) [OF that]], erule 3)
  have "looped (snd ?rest)"
    by (rule check_keeps [where looped = looped], erule law(6) [OF w4], erule 2)
  moreover have "wifi_preinit api p conf s =
      (if ap = None \<or> sta = None then None
       else case ?rest of (ok, w) \<Rightarrow>
         Some (ok, if ok then conf\<lparr>cur_mode := mode_number DEV_WIFI_MODE_NULL\<rparr> else conf,
               s\<lparr>driver := w, wifi_init := ok\<rparr>))"
    using new loop sta ap by (simp add: wifi_preinit_def check_ret_false_def [where r = "(ESP_OK, _)"])
  ultimately show ?thesis using run by (auto simp: case_prod_beta split: if_splits)
qed

section \<open>The poll of the buttons\<close>

text \<open>
  \<open>device_gpio_init\<close> on the event system: the poll is registered as handler \<open>h\<close> and requested as a
  periodic event.
\<close>

definition start_buttons ::
  "(gpio_config_t \<Rightarrow> int) \<Rightarrow> nat \<Rightarrow> GpioCtx list \<Rightarrow> event_system \<Rightarrow> (GpioCtx list \<times> event_system) option" where
  "start_buttons gpio_conf h cs s =
     do {
       (cs, reg, s') \<leftarrow> device_gpio_init gpio_conf h
                         (\<lambda>p s. case request_periodic p s of Some (_, s') \<Rightarrow> s' | None \<Rightarrow> s)
                         (cs, event_handler_registry s, s);
       Some (cs, s'\<lparr>event_handler_registry := reg\<rparr>)
     }"

text \<open>Runs of the timer's handler, the first of which finds the requests; the events it sends.\<close>

fun timer_run :: "nat \<Rightarrow> PeriodicEvent list \<Rightarrow> timer \<Rightarrow> timer \<times> DevEvn list" where
  "timer_run 0 news t = (t, [])"
| "timer_run (Suc n) news t =
     (let (t, out) = periodic_event_timer_handler news t; (t', out') = timer_run n [] t in (t', out @ out'))"

lemma timer_run_quiet: "timer_run n [] t = quiet_ticks n t"
  by (induction n arbitrary: t) (simp_all split: prod.split)

lemma handler_installs:
  "periodic_event_timer_handler news t =
   periodic_event_timer_handler [] (t\<lparr>periodic_evn_list := fold push_periodic_event news (periodic_evn_list t)\<rparr>)"
  by (simp add: periodic_event_timer_handler_def Let_def)

lemma timer_run_installs:
  "snd (timer_run n news t) =
   snd (quiet_ticks n (t\<lparr>periodic_evn_list := fold push_periodic_event news (periodic_evn_list t)\<rparr>))"
proof (cases n)
  case (Suc m)
  show ?thesis unfolding Suc timer_run.simps quiet_ticks.simps
    by (subst handler_installs) (simp add: timer_run_quiet)
qed simp

lemma start_buttons_system:
  assumes "start_buttons gpio_conf h cs (init_event_manager boot) = Some (cs', s)"
  shows "periodic_evn_queue s = Some [start_periodic_event EVN_READ_GPIO 0 75 FOREVER]"
    "periodic_timer s = new_timer"
    "event_handler_registry s = snd (register_event_handler EVN_READ_GPIO (Some h) new_registry)"
  using assms unfolding init_sys_at
  by (auto simp: start_buttons_def device_gpio_init_def sys_at_def boot_def request_periodic_def queue_send_def
      NEW_EVN_QUEUE_LEN_def bind_eq_Some_conv)

lemma poll_registered:
  "handlers_of EVN_READ_GPIO (snd (register_event_handler EVN_READ_GPIO (Some h) new_registry)) = [h]"
proof -
  have "seek_entry 0 EVN_NO_ENTRY None new_registry = 0"
    by (subst seek_entry.simps) (simp add: entry_matches_def new_registry_nth no_entry_def)
  then have "fst (get_event_entry 0 EVN_NO_ENTRY None new_registry) = Some 0"
    by (simp add: get_event_entry_def new_registry_nth)
  moreover have none: "handlers_of EVN_READ_GPIO new_registry = []" by (simp add: new_registry_def)
  ultimately have "snd (register_event_handler EVN_READ_GPIO (Some h) new_registry) =
      new_registry[0 := \<lparr>event_id = EVN_READ_GPIO, handler = Some h\<rparr>]"
    by (simp add: register_cases)
  moreover obtain xs ys where "handlers_of EVN_READ_GPIO new_registry = xs @ ys"
    "handlers_of EVN_READ_GPIO (new_registry[0 := \<lparr>event_id = EVN_READ_GPIO, handler = Some h\<rparr>]) = xs @ h # ys"
    using handlers_of_update_new [OF new_registry_nth(1), of EVN_READ_GPIO h] new_registry_nth(2)
    by (auto simp: no_entry_def)
  ultimately show ?thesis using none by simp
qed

lemma new_timer_slot: "slot_of EVN_READ_GPIO (periodic_evn_list new_timer) = Some 0"
  by (simp add: slot_of_def new_timer_def PERIODIC_EVN_LIST_LEN_def NO_CALL_def first_slot_None numeral_eq_Suc)

lemma polls_sent:
  "sent EVN_READ_GPIO (snd (timer_run m [start_periodic_event EVN_READ_GPIO 0 75 FOREVER] new_timer)) = m div 75"
proof -
  have "sent EVN_READ_GPIO (snd (quiet_ticks m (new_timer\<lparr>periodic_evn_list :=
      push_periodic_event (start_periodic_event EVN_READ_GPIO 0 75 FOREVER) (periodic_evn_list new_timer)\<rparr>))) =
      (if FOREVER < 0 then m div unat (75 :: u64) else min (nat FOREVER) (m div unat (75 :: u64)))"
    by (rule periodic_event_count_aux [OF new_timer_inv new_timer_slot _ _ refl]) simp_all
  then show ?thesis by (simp add: timer_run_installs FOREVER_def)
qed

section \<open>Properties\<close>

text \<open>C17: After the start the poll of the buttons is the only handler of its event, and the timer sends the
  event once every 75 ms, for ever: in the first \<open>m\<close> ms \<open>m div 75\<close> times.\<close>

theorem buttons_polled:
  assumes "start_buttons gpio_conf h cs (init_event_manager boot) = Some (cs', s)"
  shows "handlers_of EVN_READ_GPIO (event_handler_registry s) = [h] \<and>
    (\<exists>news. periodic_evn_queue s = Some news \<and>
       sent EVN_READ_GPIO (snd (timer_run m news (periodic_timer s))) = m div 75)"
  using start_buttons_system [OF assms] poll_registered polls_sent by simp

theorem buttons_polled_witness:
  "\<exists>cs' s. start_buttons (\<lambda>_. 0) 9 [button 40, button 42, button 41] (init_event_manager boot) = Some (cs', s) \<and>
     handlers_of EVN_READ_GPIO (event_handler_registry s) = [9]"
proof -
  obtain cs' s where s: "start_buttons (\<lambda>_. 0) 9 [button 40, button 42, button 41] (init_event_manager boot) = Some (cs', s)"
    by (simp add: start_buttons_def device_gpio_init_def gpio_init_data_list_def device_conf_gpio_in_def Let_def)
  from s buttons_polled [OF s] show ?thesis by blast
qed

text \<open>C18: A start of the Wi-Fi that fails after the event loop was created can never be repeated: every
  later call of \<open>wifi_preinit\<close> fails too, because the loop exists already.\<close>

theorem failed_preinit_is_final:
  assumes "one_event_loop looped api p" "\<not> wifi_init s"
    "netif_init p (driver s) = (ESP_OK, w1)" "event_loop_create_default p w1 = (ESP_OK, w2)"
    "wifi_preinit api p conf s = Some (False, conf', s')"
  shows "\<exists>s''. preinit_calls n api p conf' s' = Some (False, s'') \<and> \<not> wifi_init s''"
  using preinit_calls_looped [OF assms(1), of s'] preinit_keeps_loop [OF assms] by simp

text \<open>A driver without memory at the first call and with memory later: 0 is the state before the loop.\<close>

definition scarce_preinit :: "nat preinit_api" where
  "scarce_preinit = \<lparr>netif_init = Pair ESP_OK,
     event_loop_create_default = (\<lambda>w. if w = 0 then (ESP_OK, 1) else (ESP_FAIL, w)),
     netif_create_default = (\<lambda>b w. (Some 1, w)),
     wifi_driver_init = (\<lambda>w. if w = 1 then (ESP_ERR_NO_MEM, 2) else (ESP_OK, w)),
     wifi_set_ps_none = (\<lambda>w. w), event_handler_register = (\<lambda>b. Pair ESP_OK),
     wifi_set_storage_ram = Pair ESP_OK\<rparr>"

theorem failed_preinit_is_final_witness:
  "\<exists>s' s''. wifi_preinit test_wifi scarce_preinit zero_wifi (idle_wifi\<lparr>wifi_init := False\<rparr>) = Some (False, zero_wifi, s') \<and>
     preinit_calls 7 test_wifi scarce_preinit zero_wifi s' = Some (False, s'')"
proof -
  let ?s = "idle_wifi\<lparr>wifi_init := False\<rparr>"
  have laws: "one_event_loop (\<lambda>w. 0 < w) test_wifi scarce_preinit"
    by (simp add: one_event_loop_def scarce_preinit_def test_wifi_def)
  have run: "wifi_preinit test_wifi scarce_preinit zero_wifi ?s = Some (False, zero_wifi, ?s\<lparr>driver := 2\<rparr>)"
    by (simp add: wifi_preinit_def scarce_preinit_def check_ret_false_def idle_wifi_def)
  have calls: "netif_init scarce_preinit (driver ?s) = (ESP_OK, 0)"
    "event_loop_create_default scarce_preinit 0 = (ESP_OK, 1)" "\<not> wifi_init ?s"
    by (simp_all add: scarce_preinit_def idle_wifi_def)
  from failed_preinit_is_final [OF laws calls(3,1,2) run, of 7] run show ?thesis by blast
qed

end
