(* ===== verification/Pwm.thy ===== *)
theory Pwm
  imports Device
begin

text \<open>
  The outputs and the analog input of \<open>components/device_gpio\<close>: the PWM of \<open>pwm.c\<close> and the set-up of
  the converter in \<open>button_reader.c\<close>.  The LED controller and the converter are parameters, functions
  on the state of the hardware; the enumeration constants of ESP-IDF are names.  The lemmas give
  the duty value and what the controller is told.
\<close>

section \<open>The PWM output\<close>

datatype ledc_name =
    LEDC_TIMER_2 | LEDC_LOW_SPEED_MODE | LEDC_CHANNEL_0 | LEDC_TIMER_13_BIT | LEDC_AUTO_CLK
  | LEDC_INTR_DISABLE

definition LEDC_TIMER :: ledc_name where "LEDC_TIMER = LEDC_TIMER_2"
definition LEDC_MODE :: ledc_name where "LEDC_MODE = LEDC_LOW_SPEED_MODE"
definition LEDC_CHANNEL :: ledc_name where "LEDC_CHANNEL = LEDC_CHANNEL_0"
definition LEDC_DUT_RES :: ledc_name where "LEDC_DUT_RES = LEDC_TIMER_13_BIT"
definition LEDC_FREQUENCY :: u32 where "LEDC_FREQUENCY = 2000"
definition PIN_PWM_OUT :: int where "PIN_PWM_OUT = 6"
definition MAX_TIM_VAL :: u32 where "MAX_TIM_VAL = 8191"

record ledc_timer_config_t =
  speed_mode :: ledc_name
  timer_num :: ledc_name
  duty_resolution :: ledc_name
  freq_hz :: u32
  clk_cfg :: ledc_name

record ledc_channel_config_t =
  ch_speed_mode :: ledc_name
  ch_channel :: ledc_name
  timer_sel :: ledc_name
  intr_type :: ledc_name
  gpio_num :: int
  duty :: u32
  hpoint :: int

record 'w ledc_api =
  ledc_timer_config :: "ledc_timer_config_t \<Rightarrow> 'w \<Rightarrow> esp_err \<times> 'w"
  ledc_channel_config :: "ledc_channel_config_t \<Rightarrow> 'w \<Rightarrow> esp_err \<times> 'w"
  ledc_set_duty :: "ledc_name \<Rightarrow> ledc_name \<Rightarrow> u32 \<Rightarrow> 'w \<Rightarrow> 'w"
  ledc_update_duty :: "ledc_name \<Rightarrow> ledc_name \<Rightarrow> 'w \<Rightarrow> 'w"
  ledc_timer_resume :: "ledc_name \<Rightarrow> ledc_name \<Rightarrow> 'w \<Rightarrow> 'w"
  ledc_timer_pause :: "ledc_name \<Rightarrow> ledc_name \<Rightarrow> 'w \<Rightarrow> 'w"

definition pwm_init :: "'w ledc_api \<Rightarrow> 'w \<Rightarrow> bool \<times> 'w" where
  "pwm_init api w =
     (let ledc_timer = \<lparr>speed_mode = LEDC_MODE, timer_num = LEDC_TIMER, duty_resolution = LEDC_DUT_RES,
                        freq_hz = LEDC_FREQUENCY, clk_cfg = LEDC_AUTO_CLK\<rparr>;
          ledc_chan = \<lparr>ch_speed_mode = LEDC_MODE, ch_channel = LEDC_CHANNEL, timer_sel = LEDC_TIMER,
                       intr_type = LEDC_INTR_DISABLE, gpio_num = PIN_PWM_OUT, duty = 0, hpoint = 0\<rparr> in
      check_ret_false (ledc_timer_config api ledc_timer w) (\<lambda>w.
      check_ret_false (ledc_channel_config api ledc_chan w) (\<lambda>w. (True, w))))"

definition duty_value :: "u32 \<Rightarrow> u32" where
  "duty_value duty_perc =
     (let duty_perc = (if duty_perc > 100 then 100 else duty_perc) in (duty_perc * MAX_TIM_VAL) div 100)"

definition pwm_set_duty :: "'w ledc_api \<Rightarrow> u32 \<Rightarrow> 'w \<Rightarrow> 'w" where
  "pwm_set_duty api duty_perc w =
     ledc_update_duty api LEDC_MODE LEDC_CHANNEL
       (ledc_set_duty api LEDC_MODE LEDC_CHANNEL (duty_value duty_perc) w)"

definition pwm_start :: "'w ledc_api \<Rightarrow> 'w \<Rightarrow> 'w" where
  "pwm_start api w = ledc_timer_resume api LEDC_MODE LEDC_TIMER w"

definition pwm_stop :: "'w ledc_api \<Rightarrow> 'w \<Rightarrow> 'w" where
  "pwm_stop api w = ledc_timer_pause api LEDC_MODE LEDC_TIMER (pwm_set_duty api 0 w)"

text \<open>The product never leaves 32 bits: the value is the percentage of 8191, rounded down.\<close>

lemma duty_value_nat: "unat (duty_value p) = min 100 (unat p) * 8191 div 100"
proof -
  let ?p = "if p > 100 then 100 else p"
  have p: "unat ?p = min 100 (unat p)" by (simp add: word_less_nat_alt)
  have "unat ?p * unat MAX_TIM_VAL < 2 ^ 32" unfolding p by (simp add: MAX_TIM_VAL_def min_def)
  then have "unat (?p * MAX_TIM_VAL) = unat ?p * unat MAX_TIM_VAL" using unat_mult_lem [of ?p MAX_TIM_VAL] by simp
  moreover have "unat (duty_value p) = unat (?p * MAX_TIM_VAL) div 100"
    by (simp add: duty_value_def Let_def unat_div)
  ultimately show ?thesis unfolding p by (simp add: MAX_TIM_VAL_def)
qed

lemma duty_value_bounds:
  "duty_value p \<le> MAX_TIM_VAL" "100 \<le> p \<Longrightarrow> duty_value p = MAX_TIM_VAL" "p \<le> q \<Longrightarrow> duty_value p \<le> duty_value q"
proof -
  show "duty_value p \<le> MAX_TIM_VAL"
    using div_le_mono [of "min 100 (unat p) * 8191" "100 * 8191" 100]
    by (simp add: word_le_nat_alt duty_value_nat MAX_TIM_VAL_def)
  show "duty_value p = MAX_TIM_VAL" if "100 \<le> p"
  proof -
    have "min 100 (unat p) = 100" using that by (simp add: word_le_nat_alt)
    then show ?thesis using duty_value_nat [of p] by (simp add: unsigned_word_eqI MAX_TIM_VAL_def)
  qed
  show "duty_value p \<le> duty_value q" if "p \<le> q"
  proof -
    have "min 100 (unat p) * 8191 \<le> min 100 (unat q) * 8191" using that by (simp add: word_le_nat_alt)
    then show ?thesis by (simp add: word_le_nat_alt duty_value_nat div_le_mono)
  qed
qed

text \<open>Stopping leaves no duty behind: the value set is 0 before the timer is halted.\<close>

lemma pwm_stop_calls:
  "pwm_stop api w = ledc_timer_pause api LEDC_MODE LEDC_TIMER
     (ledc_update_duty api LEDC_MODE LEDC_CHANNEL (ledc_set_duty api LEDC_MODE LEDC_CHANNEL 0 w))"
  by (simp add: pwm_stop_def pwm_set_duty_def duty_value_def MAX_TIM_VAL_def)

section \<open>The analog input\<close>

datatype adc_name = ADC_UNIT_1 | ADC_CHANNEL_6 | ADC_ATTEN_DB_12 | ADC_BITWIDTH_12

record 'w adc_api =
  adc_new_unit :: "adc_name \<Rightarrow> 'w \<Rightarrow> esp_err \<times> nat \<times> 'w"
  adc_config_channel :: "nat \<Rightarrow> adc_name \<Rightarrow> adc_name \<Rightarrow> adc_name \<Rightarrow> 'w \<Rightarrow> esp_err \<times> 'w"

text \<open>
  \<open>device_gpio_adc_init\<close>: the handle of the unit is kept; \<open>ESP_ERROR_CHECK\<close> aborts the program on
  an error, \<open>None\<close>.
\<close>

definition device_gpio_adc_init :: "'w adc_api \<Rightarrow> 'w \<Rightarrow> (nat \<times> 'w) option" where
  "device_gpio_adc_init api w =
     (case adc_new_unit api ADC_UNIT_1 w of (e, adc_handle, w) \<Rightarrow>
        if e \<noteq> ESP_OK then None
        else (case adc_config_channel api adc_handle ADC_CHANNEL_6 ADC_ATTEN_DB_12 ADC_BITWIDTH_12 w of (e, w) \<Rightarrow>
                if e \<noteq> ESP_OK then None else Some (adc_handle, w)))"

end
