(* ===== verification/Hdc1080.thy ===== *)
theory Hdc1080
  imports I2c_Async Event_Timer
begin

text \<open>
  The humidity sensor, \<open>components/device_i2c/hdc1080.c\<close>: its three operations, the callbacks that
  convert raw values, and the handler of the polling event.  Sensor values are stored as
  \<open>int\<close>, four bytes in memory.  The lemmas give the range of the converted values and follow
  the handler over any number of polls.
\<close>

definition HDC1080_ADDR :: u8 where "HDC1080_ADDR = 0x40"
definition HDC1080_REG_TEMP :: u16 where "HDC1080_REG_TEMP = 0x00"
definition HDC1080_REG_HUMID :: u16 where "HDC1080_REG_HUMID = 0x01"
definition HDC1080_REG_CONFIG :: u16 where "HDC1080_REG_CONFIG = 0x02"

definition config_data :: "u8 list" where "config_data = [0x10, 0x00]"

section \<open>The callbacks\<close>

definition raw_value :: "u8 list \<Rightarrow> u32 option" where
  "raw_value rx_data =
     do {
       hi \<leftarrow> byte_at rx_data 0;
       lo \<leftarrow> byte_at rx_data 1;
       Some (push_bit 8 (ucast hi) OR ucast lo)
     }"

definition humidity_of_raw :: "u32 \<Rightarrow> u32" where
  "humidity_of_raw raw_hum = (raw_hum * 1000) div 65536"

definition temperature_of_raw :: "u32 \<Rightarrow> u32" where
  "temperature_of_raw raw_temp = (raw_temp * 1650) div 65536 - 400"

definition store_int :: "(u32 \<Rightarrow> u32) \<Rightarrow> cplt_callback" where
  "store_int conv res ctx rx_data sz m =
     (if res = ESP_OK \<and> ctx \<noteq> None \<and> rx_data \<noteq> None
      then do {
        raw \<leftarrow> raw_value (the rx_data);
        mem_write m ctx (le_bytes 4 (conv raw))
      }
      else Some m)"

definition hum_cplt_callback :: cplt_callback where
  "hum_cplt_callback = store_int humidity_of_raw"

definition temp_cplt_callback :: cplt_callback where
  "temp_cplt_callback = store_int temperature_of_raw"

section \<open>The polling\<close>

text \<open>
  The static variables \<open>req\<close>, with the operations it points to, and \<open>is_init\<close>.
\<close>

record hdc1080 =
  hdc_req :: i2c_request
  is_init :: bool

definition hdc_ops :: "ptr \<Rightarrow> ptr \<Rightarrow> i2c_op list" where
  "hdc_ops hum temp =
     [\<lparr>write_data = Some config_data, write_size = length config_data, reg_addr = HDC1080_REG_CONFIG,
       read_size = 0, post_delay = 150, op_cplt_callback = None, user_ctx = None\<rparr>,
      \<lparr>write_data = None, write_size = 0, reg_addr = HDC1080_REG_HUMID, read_size = 2, post_delay = 50,
       op_cplt_callback = Some hum_cplt_callback, user_ctx = hum\<rparr>,
      \<lparr>write_data = None, write_size = 0, reg_addr = HDC1080_REG_TEMP, read_size = 2, post_delay = 25,
       op_cplt_callback = Some temp_cplt_callback, user_ctx = temp\<rparr>]"

definition hdc1080_init :: "nat \<Rightarrow> u32 \<Rightarrow> (PeriodicEvent \<Rightarrow> 'q \<Rightarrow> 'q) \<Rightarrow> ptr \<Rightarrow> ptr \<Rightarrow>
    hdc1080 \<times> EventHandlerRegistry list \<times> 'q \<Rightarrow> hdc1080 \<times> EventHandlerRegistry list \<times> 'q" where
  "hdc1080_init h req_ctx request hum temp s =
     (case s of (hdc, reg, q) \<Rightarrow>
        (hdc\<lparr>hdc_req := (init_req 0 HDC1080_ADDR 1 None (hdc_req hdc))\<lparr>ops := Ops (hdc_ops hum temp), op_count := 1\<rparr>\<rparr>,
         snd (register_event_handler EVN_HDC1080_POLLING (Some h) reg),
         request (start_periodic_event EVN_HDC1080_POLLING req_ctx 1000 FOREVER) q))"

text \<open>
  \<open>hdc1080_polling_handler\<close>: its context is the address of \<open>req\<close>, so it is never null.
  \<open>req->ops++\<close> moves the pointer to the rest of the array.
\<close>

definition hdc1080_polling_handler :: "hdc1080 \<times> 'b i2c_state \<Rightarrow> (hdc1080 \<times> 'b i2c_state) option" where
  "hdc1080_polling_handler s =
     (case s of (hdc, i2c) \<Rightarrow>
        if ops (hdc_req hdc) = Null then Some (hdc, i2c)
        else do {
          hdc \<leftarrow>
            (if is_init hdc
             then (case ops (hdc_req hdc) of
                     Ops (_ # os) \<Rightarrow>
                       Some (hdc\<lparr>is_init := True, hdc_req := (hdc_req hdc)\<lparr>ops := Ops os, op_count := 2\<rparr>\<rparr>)
                   | _ \<Rightarrow> None)
             else Some hdc);
          Some (hdc, snd (i2c_send_async (Some (hdc_req hdc)) i2c))
        })"

section \<open>Converted values\<close>

lemma raw_value_16:
  assumes "raw_value rx = Some r"
  shows "unat r < 65536"
proof -
  obtain hi lo where r: "r = push_bit 8 (ucast (hi :: u8)) OR ucast (lo :: u8)"
    using assms by (auto simp: raw_value_def Option.bind_eq_Some_conv)
  have "r = take_bit 16 r"
    unfolding r by (rule bit_word_eqI) (auto simp: bit_simps dest: bit_imp_le_length)
  then have "unat r = take_bit 16 (unat r)" by (metis unsigned_take_bit_eq)
  then show ?thesis using take_bit_nat_less_exp [of 16 "unat r"] by simp
qed

lemma unat_scaled:
  assumes "unat (r :: u32) < 65536" "k \<le> 65535"
  shows "unat ((r * of_nat k) div 65536) = unat r * k div 65536"
proof -
  have "unat r * k \<le> 65535 * 65535" using assms by (intro mult_le_mono) auto
  then have lt: "unat r * k < 2 ^ 32" by simp
  have "unat (of_nat k :: u32) = k" using assms(2) by (simp add: unat_of_nat take_bit_nat_eq_self)
  then have "unat (r * of_nat k) = unat r * k" using lt by (simp add: unat_word_ariths)
  then show ?thesis by (simp add: unat_div_distrib)
qed

section \<open>Polls and turns of the I2C task\<close>

datatype hdc_event = Poll | Serve

fun hdc_step :: "'b i2c_driver \<Rightarrow> hdc_event \<Rightarrow> hdc1080 \<times> 'b i2c_state \<Rightarrow> (hdc1080 \<times> 'b i2c_state) option" where
  "hdc_step drv Poll s = hdc1080_polling_handler s"
| "hdc_step drv Serve (hdc, i2c) = map_option (Pair hdc) (i2c_task drv i2c)"

fun hdc_run :: "'b i2c_driver \<Rightarrow> hdc_event list \<Rightarrow> hdc1080 \<times> 'b i2c_state \<Rightarrow> (hdc1080 \<times> 'b i2c_state) option" where
  "hdc_run drv [] s = Some s"
| "hdc_run drv (e # es) s = do { s \<leftarrow> hdc_step drv e s; hdc_run drv es s }"

text \<open>Only the configuration is ever sent: its request has one operation and no callback.\<close>

definition config_only :: "mem \<Rightarrow> hdc1080 \<times> 'b i2c_state \<Rightarrow> bool" where
  "config_only m s \<longleftrightarrow>
     (case s of (hdc, i2c) \<Rightarrow>
        \<not> is_init hdc \<and> (\<exists>os. ops (hdc_req hdc) = Ops (hd (hdc_ops None None) # os)) \<and>
        op_count (hdc_req hdc) = 1 \<and> tr_cplt_callback (hdc_req hdc) = None \<and>
        (\<forall>req\<in>set (i2c_queue i2c). req = hdc_req hdc) \<and> i2c_ok (\<lambda>m'. m' = m) i2c)"

lemma config_req_ok:
  "ops req = Ops (hd (hdc_ops None None) # os) \<Longrightarrow> op_count req = 1 \<Longrightarrow> tr_cplt_callback req = None \<Longrightarrow>
     req_ok I req"
  by (simp add: req_ok_def op_ok_def cb_ok_def eff_callback_def hdc_ops_def)

lemma hdc_step_config_only:
  assumes "config_only m s"
  shows "\<exists>s'. hdc_step drv e s = Some s' \<and> config_only m s'"
proof -
  obtain hdc i2c where s: "s = (hdc, i2c)" by (cases s)
  note inv = assms [unfolded config_only_def s prod.case]
  show ?thesis
  proof (cases e)
    case Poll
    then show ?thesis
      using inv by (auto simp: s hdc1080_polling_handler_def config_only_def i2c_send_async_def i2c_ok_def)
  next
    case Serve
    have "req_ok (\<lambda>m'. m' = m) (hdc_req hdc)" using inv config_req_ok by auto
    then have "\<forall>req\<in>set (i2c_queue i2c). req_ok (\<lambda>m'. m' = m) req" using inv by auto
    from i2c_task_safe [OF this] inv obtain i' where
      "i2c_task drv i2c = Some i'" "i2c_ok (\<lambda>m'. m' = m) i'" "i2c_queue i' = tl (i2c_queue i2c)"
      by blast
    then show ?thesis
      using inv Serve by (cases "i2c_queue i2c") (auto simp: s config_only_def)
  qed
qed

lemma hdc_run_config_only:
  "config_only m s \<Longrightarrow> \<exists>s'. hdc_run drv es s = Some s' \<and> config_only m s'"
proof (induction es arbitrary: s)
  case (Cons e es)
  obtain s1 where "hdc_step drv e s = Some s1" "config_only m s1"
    using hdc_step_config_only [OF Cons.prems] by blast
  with Cons.IH show ?case by auto
qed simp

section \<open>The properties\<close>

text \<open>A raw value gives a humidity of 0 to 999 (tenths of a percent) and a temperature of
  -400 to 1249 (tenths of a degree): the 32-bit products do not overflow, and the
  subtraction wraps to the negative value.\<close>

lemma hdc_values_in_range:
  assumes "raw_value rx = Some r"
  shows "unat (humidity_of_raw r) = unat r * 1000 div 65536 \<and> unat (humidity_of_raw r) < 1000 \<and>
         sint (temperature_of_raw r) = int (unat r * 1650 div 65536) - 400 \<and>
         sint (temperature_of_raw r) < 1250"
proof -
  have r: "unat r < 65536" using raw_value_16 [OF assms] .
  have h: "unat (humidity_of_raw r) = unat r * 1000 div 65536"
    using unat_scaled [OF r, of 1000] by (simp add: humidity_of_raw_def)
  let ?t = "(r * 1650) div 65536"
  have t: "unat ?t = unat r * 1650 div 65536" using unat_scaled [OF r, of 1650] by simp
  have small: "unat r * 1650 div 65536 < 1650" using r by (simp add: div_less_iff_less_mult)
  have "uint ?t = int (unat r * 1650 div 65536)" using t by (metis uint_nat)
  then have "sint ?t = int (unat r * 1650 div 65536)"
    using small by (simp add: sint_uint signed_take_bit_int_eq_self)
  then have "sint (temperature_of_raw r) = int (unat r * 1650 div 65536) - 400"
    using small by (simp add: temperature_of_raw_def sint_word_ariths signed_take_bit_int_eq_self)
  then show ?thesis using h small r by (auto simp: div_less_iff_less_mult)
qed

lemma hdc_values_in_range_witness:
  "unat (humidity_of_raw 0xFFFF) < 1000 \<and> sint (temperature_of_raw 0xFFFF) < 1250"
proof -
  have "raw_value [0xFF, 0xFF] = Some 0xFFFF" by (simp add: raw_value_def)
  from hdc_values_in_range [OF this] show ?thesis by simp
qed

text \<open>C28: After \<open>hdc1080_init\<close>, no sequence of polling events and turns of the I2C task ever
  changes an object: humidity and temperature are never measured, whatever the bus does.\<close>

theorem hdc_never_measures:
  assumes "\<not> is_init hdc" "i2c_queue i2c = []" "length (i2c_buf i2c) = I2C_BUF_SIZE"
    and "hdc1080_init h c request hum temp (hdc, reg, q) = (hdc', reg', q')"
  shows "\<exists>hdc'' i2c'. hdc_run drv es (hdc', i2c) = Some (hdc'', i2c') \<and> objs i2c' = objs i2c"
proof -
  have "config_only (objs i2c) (hdc', i2c)"
    using assms by (auto simp: config_only_def hdc1080_init_def init_req_def hdc_ops_def i2c_ok_def)
  from hdc_run_config_only [OF this, of drv es] show ?thesis
    by (auto simp: config_only_def i2c_ok_def)
qed

theorem hdc_never_measures_witness:
  "\<exists>hdc'' i2c'. hdc_run broken_driver [Poll, Serve, Poll, Poll, Serve]
     (fst (hdc1080_init 7 0 (#) (Some 0) (Some 1) (\<lparr>hdc_req = read_two_req, is_init = False\<rparr>, [], [])), idle_i2c) =
       Some (hdc'', i2c') \<and> objs i2c' = objs idle_i2c"
  by (rule hdc_never_measures [where hdc = "\<lparr>hdc_req = read_two_req, is_init = False\<rparr>" and reg = "[]" and q = "[]"
        and h = 7 and c = 0 and request = "(#)" and hum = "Some 0" and temp = "Some 1"])
    (simp_all add: hdc1080_init_def idle_i2c_def)

end
