(* ===== verification/St25dv_Registers.thy ===== *)
theory St25dv_Registers
  imports Prelude
begin

text \<open>
  The registers of the NFC tag and their bits, \<open>components/ST25DV/include/st25dv_registers.h\<close>, in the order
  of the file.  The lemmas show that no two registers share an address and that the bits of one
  register are single bits that do not overlap.
\<close>

section \<open>Addresses and lengths\<close>

definition REG_GPO1 :: u16 where "REG_GPO1 = 0x0"
definition REG_GPO2 :: u16 where "REG_GPO2 = 0x0001"
definition REG_EH_MODE :: u16 where "REG_EH_MODE = 0x0002"
definition REG_RF_MNGMT :: u16 where "REG_RF_MNGMT = 0x0003"
definition REG_RFA1SS :: u16 where "REG_RFA1SS = 0x0004"
definition REG_ENDA1 :: u16 where "REG_ENDA1 = 0x0005"
definition REG_RFA2SS :: u16 where "REG_RFA2SS = 0x0006"
definition REG_ENDA2 :: u16 where "REG_ENDA2 = 0x0007"
definition REG_RFA3SS :: u16 where "REG_RFA3SS = 0x0008"
definition REG_ENDA3 :: u16 where "REG_ENDA3 = 0x0009"
definition REG_RFA4SS :: u16 where "REG_RFA4SS = 0x000a"
definition REG_I2CSS :: u16 where "REG_I2CSS = 0x000b"
definition REG_LOCK_CCFILE :: u16 where "REG_LOCK_CCFILE = 0x000c"
definition REG_FTM :: u16 where "REG_FTM = 0x000d"
definition REG_I2C_CFG :: u16 where "REG_I2C_CFG = 0x000e"
definition REG_LOCK_CFG :: u16 where "REG_LOCK_CFG = 0x000f"
definition REG_LOCK_DSFID :: u16 where "REG_LOCK_DSFID = 0x0010"
definition REG_LOCK_AFI :: u16 where "REG_LOCK_AFI = 0x0011"
definition REG_DSFID :: u16 where "REG_DSFID = 0x0012"
definition REG_AFI :: u16 where "REG_AFI = 0x0013"
definition REG_MEM_SIZE_BASE :: u16 where "REG_MEM_SIZE_BASE = 0x0014"
definition REG_BLOCK_SIZE :: u16 where "REG_BLOCK_SIZE = 0x0016"
definition REG_IC_REF :: u16 where "REG_IC_REF = 0x0017"
definition REG_UID_BASE :: u16 where "REG_UID_BASE = 0x0018"
definition REG_IC_REV :: u16 where "REG_IC_REV = 0x0020"
definition REG_I2C_PASSWD_BASE :: u16 where "REG_I2C_PASSWD_BASE = 0x0900"
definition LEN_MEM_SIZE :: nat where "LEN_MEM_SIZE = 0x02"
definition LEN_UID_SIZE :: nat where "LEN_UID_SIZE = 0x08"
definition LEN_I2C_PASSWD_SIZE :: nat where "LEN_I2C_PASSWD_SIZE = 0x08"
definition REG_GPO_CTRL_DYN :: u16 where "REG_GPO_CTRL_DYN = 0x2000"
definition REG_EH_CTRL_DYN :: u16 where "REG_EH_CTRL_DYN = 0x2002"
definition REG_RF_MNGT_DYN :: u16 where "REG_RF_MNGT_DYN = 0x2003"
definition REG_I2C_SSO_DYN :: u16 where "REG_I2C_SSO_DYN = 0x2004"
definition REG_IT_STS_DYN :: u16 where "REG_IT_STS_DYN = 0x2005"
definition REG_MB_CTRL_DYN :: u16 where "REG_MB_CTRL_DYN = 0x2006"
definition REG_MB_LEN_DYN :: u16 where "REG_MB_LEN_DYN = 0x2007"
definition MAILBOX_BASE :: u16 where "MAILBOX_BASE = 0x2008"
definition LEN_MAILBOX :: nat where "LEN_MAILBOX = 0xff"
definition EEPROM_SIZE :: nat where "EEPROM_SIZE = 0x2000"

section \<open>Bits\<close>

definition BIT_FTM_MB_MODE :: u8 where "BIT_FTM_MB_MODE = 1"
definition BIT_MB_CTRL_DYN_MB_EN :: u8 where "BIT_MB_CTRL_DYN_MB_EN = 1"
definition BIT_MB_CTRL_DYN_HOST_PUT_MSG :: u8 where "BIT_MB_CTRL_DYN_HOST_PUT_MSG = push_bit 1 1"
definition BIT_MB_CTRL_DYN_RF_PUT_MSG :: u8 where "BIT_MB_CTRL_DYN_RF_PUT_MSG = push_bit 2 1"
definition BIT_MB_CTRL_DYN_HOST_MISS_MSG :: u8 where "BIT_MB_CTRL_DYN_HOST_MISS_MSG = push_bit 4 1"
definition BIT_MB_CTRL_DYN_RF_MISS_MSG :: u8 where "BIT_MB_CTRL_DYN_RF_MISS_MSG = push_bit 5 1"
definition BIT_MB_CTRL_DYN_HOST_CURRENT_MSG :: u8 where "BIT_MB_CTRL_DYN_HOST_CURRENT_MSG = push_bit 6 1"
definition BIT_MB_CTRL_DYN_RF_CURRENT_MSG :: u8 where "BIT_MB_CTRL_DYN_RF_CURRENT_MSG = push_bit 7 1"
definition BIT_RF_MNGT_RF_DISABLE :: u8 where "BIT_RF_MNGT_RF_DISABLE = 1"
definition BIT_RF_MNGT_RF_SLEEP :: u8 where "BIT_RF_MNGT_RF_SLEEP = push_bit 1 1"
definition BIT_RF_MNGT_DYN_RF_DISABLE :: u8 where "BIT_RF_MNGT_DYN_RF_DISABLE = 1"
definition BIT_RF_MNGT_DYN_RF_SLEEP :: u8 where "BIT_RF_MNGT_DYN_RF_SLEEP = push_bit 1 1"
definition BIT_RF_MNGT_DYN_RF_OFF :: u8 where "BIT_RF_MNGT_DYN_RF_OFF = push_bit 2 1"
definition BIT_GPO1_GPO_EN :: u8 where "BIT_GPO1_GPO_EN = 1"
definition BIT_GPO1_RF_USER_EN :: u8 where "BIT_GPO1_RF_USER_EN = push_bit 1 1"
definition BIT_GPO1_RF_ACTIVITY_EN :: u8 where "BIT_GPO1_RF_ACTIVITY_EN = push_bit 2 1"
definition BIT_GPO1_RF_INTERRUPT_EN :: u8 where "BIT_GPO1_RF_INTERRUPT_EN = push_bit 3 1"
definition BIT_GPO1_FIELD_CHANGE_EN :: u8 where "BIT_GPO1_FIELD_CHANGE_EN = push_bit 4 1"
definition BIT_GPO1_RF_PUT_MSG_EN :: u8 where "BIT_GPO1_RF_PUT_MSG_EN = push_bit 5 1"
definition BIT_GPO1_RF_GET_MSG_EN :: u8 where "BIT_GPO1_RF_GET_MSG_EN = push_bit 6 1"
definition BIT_GPO1_RF_WRITE_EN :: u8 where "BIT_GPO1_RF_WRITE_EN = push_bit 7 1"
definition BIT_GPO2_I2C_WRITE_EN :: u8 where "BIT_GPO2_I2C_WRITE_EN = 1"
definition BIT_GPO2_I2C_RF_OFF_EN :: u8 where "BIT_GPO2_I2C_RF_OFF_EN = push_bit 1 1"
definition BIT_GPO_CTRL_DYN_GPO_EN :: u8 where "BIT_GPO_CTRL_DYN_GPO_EN = 1"
definition BIT_IT_STS_DYN_RF_USER :: u8 where "BIT_IT_STS_DYN_RF_USER = 1"
definition BIT_IT_STS_DYN_RF_ACTIVITY :: u8 where "BIT_IT_STS_DYN_RF_ACTIVITY = push_bit 1 1"
definition BIT_IT_STS_DYN_RF_INTERRUPT :: u8 where "BIT_IT_STS_DYN_RF_INTERRUPT = push_bit 2 1"
definition BIT_IT_STS_DYN_FIELD_FALLING :: u8 where "BIT_IT_STS_DYN_FIELD_FALLING = push_bit 3 1"
definition BIT_IT_STS_DYN_FIELD_RISING :: u8 where "BIT_IT_STS_DYN_FIELD_RISING = push_bit 4 1"
definition BIT_IT_STS_DYN_RF_PUT_MSG :: u8 where "BIT_IT_STS_DYN_RF_PUT_MSG = push_bit 5 1"
definition BIT_IT_STS_DYN_RF_GET_MSG :: u8 where "BIT_IT_STS_DYN_RF_GET_MSG = push_bit 6 1"
definition BIT_IT_STS_DYN_RF_WRITE :: u8 where "BIT_IT_STS_DYN_RF_WRITE = push_bit 7 1"
definition BIT_EH_MODE_EH_MODE :: u8 where "BIT_EH_MODE_EH_MODE = 1"
definition BIT_EH_CTRL_DYN_EH_EN :: u8 where "BIT_EH_CTRL_DYN_EH_EN = 1"
definition BIT_EH_CTRL_DYN_EH_ON :: u8 where "BIT_EH_CTRL_DYN_EH_ON = push_bit 1 1"
definition BIT_EH_CTRL_DYN_FIELD_ON :: u8 where "BIT_EH_CTRL_DYN_FIELD_ON = push_bit 2 1"
definition BIT_EH_CTRL_DYN_VCC_ON :: u8 where "BIT_EH_CTRL_DYN_VCC_ON = push_bit 3 1"
definition BIT_LOCK_CCFILE_LCKBCK0 :: u8 where "BIT_LOCK_CCFILE_LCKBCK0 = 1"
definition BIT_LOCK_CCFILE_LCKBCK1 :: u8 where "BIT_LOCK_CCFILE_LCKBCK1 = push_bit 1 1"
definition BIT_LOCK_CFG_LCK_CFG :: u8 where "BIT_LOCK_CFG_LCK_CFG = 1"
definition BIT_I2C_SSO_DYN_I2C_SSO :: u8 where "BIT_I2C_SSO_DYN_I2C_SSO = 1"
definition BIT_LOCK_DSFID_LOCK_DSFID :: u8 where "BIT_LOCK_DSFID_LOCK_DSFID = 1"
definition BIT_LOCK_AFI_LOCK_AFI :: u8 where "BIT_LOCK_AFI_LOCK_AFI = 1"
definition BIT_I2CSS_MEM1_WRITE :: u8 where "BIT_I2CSS_MEM1_WRITE = 1"
definition BIT_I2CSS_MEM1_READ :: u8 where "BIT_I2CSS_MEM1_READ = push_bit 1 1"
definition BIT_I2CSS_MEM2_WRITE :: u8 where "BIT_I2CSS_MEM2_WRITE = push_bit 2 1"
definition BIT_I2CSS_MEM2_READ :: u8 where "BIT_I2CSS_MEM2_READ = push_bit 3 1"
definition BIT_I2CSS_MEM3_WRITE :: u8 where "BIT_I2CSS_MEM3_WRITE = push_bit 4 1"
definition BIT_I2CSS_MEM3_READ :: u8 where "BIT_I2CSS_MEM3_READ = push_bit 5 1"
definition BIT_I2CSS_MEM4_WRITE :: u8 where "BIT_I2CSS_MEM4_WRITE = push_bit 6 1"
definition BIT_I2CSS_MEM4_READ :: u8 where "BIT_I2CSS_MEM4_READ = push_bit 7 1"

lemmas register_defs =
  REG_GPO1_def REG_GPO2_def REG_EH_MODE_def REG_RF_MNGMT_def REG_RFA1SS_def REG_ENDA1_def
  REG_RFA2SS_def REG_ENDA2_def REG_RFA3SS_def REG_ENDA3_def REG_RFA4SS_def REG_I2CSS_def
  REG_LOCK_CCFILE_def REG_FTM_def REG_I2C_CFG_def REG_LOCK_CFG_def REG_LOCK_DSFID_def
  REG_LOCK_AFI_def REG_DSFID_def REG_AFI_def REG_MEM_SIZE_BASE_def REG_BLOCK_SIZE_def
  REG_IC_REF_def REG_UID_BASE_def REG_IC_REV_def REG_I2C_PASSWD_BASE_def REG_GPO_CTRL_DYN_def
  REG_EH_CTRL_DYN_def REG_RF_MNGT_DYN_def REG_I2C_SSO_DYN_def REG_IT_STS_DYN_def
  REG_MB_CTRL_DYN_def REG_MB_LEN_DYN_def MAILBOX_BASE_def

lemmas register_bit_defs =
  BIT_FTM_MB_MODE_def BIT_MB_CTRL_DYN_MB_EN_def BIT_MB_CTRL_DYN_HOST_PUT_MSG_def
  BIT_MB_CTRL_DYN_RF_PUT_MSG_def BIT_MB_CTRL_DYN_HOST_MISS_MSG_def
  BIT_MB_CTRL_DYN_RF_MISS_MSG_def BIT_MB_CTRL_DYN_HOST_CURRENT_MSG_def
  BIT_MB_CTRL_DYN_RF_CURRENT_MSG_def BIT_RF_MNGT_RF_DISABLE_def BIT_RF_MNGT_RF_SLEEP_def
  BIT_RF_MNGT_DYN_RF_DISABLE_def BIT_RF_MNGT_DYN_RF_SLEEP_def BIT_RF_MNGT_DYN_RF_OFF_def
  BIT_GPO1_GPO_EN_def BIT_GPO1_RF_USER_EN_def BIT_GPO1_RF_ACTIVITY_EN_def
  BIT_GPO1_RF_INTERRUPT_EN_def BIT_GPO1_FIELD_CHANGE_EN_def BIT_GPO1_RF_PUT_MSG_EN_def
  BIT_GPO1_RF_GET_MSG_EN_def BIT_GPO1_RF_WRITE_EN_def BIT_GPO2_I2C_WRITE_EN_def
  BIT_GPO2_I2C_RF_OFF_EN_def BIT_GPO_CTRL_DYN_GPO_EN_def BIT_IT_STS_DYN_RF_USER_def
  BIT_IT_STS_DYN_RF_ACTIVITY_def BIT_IT_STS_DYN_RF_INTERRUPT_def BIT_IT_STS_DYN_FIELD_FALLING_def
  BIT_IT_STS_DYN_FIELD_RISING_def BIT_IT_STS_DYN_RF_PUT_MSG_def BIT_IT_STS_DYN_RF_GET_MSG_def
  BIT_IT_STS_DYN_RF_WRITE_def BIT_EH_MODE_EH_MODE_def BIT_EH_CTRL_DYN_EH_EN_def
  BIT_EH_CTRL_DYN_EH_ON_def BIT_EH_CTRL_DYN_FIELD_ON_def BIT_EH_CTRL_DYN_VCC_ON_def
  BIT_LOCK_CCFILE_LCKBCK0_def BIT_LOCK_CCFILE_LCKBCK1_def BIT_LOCK_CFG_LCK_CFG_def
  BIT_I2C_SSO_DYN_I2C_SSO_def BIT_LOCK_DSFID_LOCK_DSFID_def BIT_LOCK_AFI_LOCK_AFI_def
  BIT_I2CSS_MEM1_WRITE_def BIT_I2CSS_MEM1_READ_def BIT_I2CSS_MEM2_WRITE_def
  BIT_I2CSS_MEM2_READ_def BIT_I2CSS_MEM3_WRITE_def BIT_I2CSS_MEM3_READ_def
  BIT_I2CSS_MEM4_WRITE_def BIT_I2CSS_MEM4_READ_def

section \<open>Laws\<close>

lemma registers_distinct:
  "distinct
     [REG_GPO1, REG_GPO2, REG_EH_MODE, REG_RF_MNGMT, REG_RFA1SS, REG_ENDA1, REG_RFA2SS,
      REG_ENDA2, REG_RFA3SS, REG_ENDA3, REG_RFA4SS, REG_I2CSS, REG_LOCK_CCFILE, REG_FTM,
      REG_I2C_CFG, REG_LOCK_CFG, REG_LOCK_DSFID, REG_LOCK_AFI, REG_DSFID, REG_AFI,
      REG_MEM_SIZE_BASE, REG_BLOCK_SIZE, REG_IC_REF, REG_UID_BASE, REG_IC_REV,
      REG_I2C_PASSWD_BASE, REG_GPO_CTRL_DYN, REG_EH_CTRL_DYN, REG_RF_MNGT_DYN, REG_I2C_SSO_DYN,
      REG_IT_STS_DYN, REG_MB_CTRL_DYN, REG_MB_LEN_DYN, MAILBOX_BASE]"
  by (simp add: register_defs)

text \<open>Bits of one register: each is a single bit, and no two are the same.\<close>

definition bit_field :: "u8 list \<Rightarrow> bool" where
  "bit_field bs \<longleftrightarrow> (\<exists>ks. bs = map (\<lambda>k. push_bit k 1) ks \<and> distinct ks \<and> (\<forall>k \<in> set ks. k < 8))"

lemma bit_fieldI:
  "bs = map (\<lambda>k. push_bit k 1) ks \<Longrightarrow> distinct ks \<Longrightarrow> list_all (\<lambda>k. k < 8) ks \<Longrightarrow> bit_field bs"
  by (auto simp: bit_field_def list_all_iff)

lemma bit_field_disjoint:
  assumes "bit_field bs" "i < length bs" "j < length bs" "i \<noteq> j"
  shows "bs ! i AND bs ! j = 0"
proof -
  obtain ks where ks: "bs = map (\<lambda>k. push_bit k 1) ks" "distinct ks" using assms(1) by (auto simp: bit_field_def)
  then have "ks ! i \<noteq> ks ! j" using assms(2-) by (simp add: nth_eq_iff_index_eq)
  then show ?thesis using ks(1) assms(2,3) by (auto simp: bit_eq_iff bit_simps)
qed

lemma mb_ctrl_dyn_bits:
  "bit_field [BIT_MB_CTRL_DYN_MB_EN, BIT_MB_CTRL_DYN_HOST_PUT_MSG, BIT_MB_CTRL_DYN_RF_PUT_MSG,
     BIT_MB_CTRL_DYN_HOST_MISS_MSG, BIT_MB_CTRL_DYN_RF_MISS_MSG,
     BIT_MB_CTRL_DYN_HOST_CURRENT_MSG, BIT_MB_CTRL_DYN_RF_CURRENT_MSG]"
  by (rule bit_fieldI [where ks = "[0, 1, 2, 4, 5, 6, 7]"]) (simp_all add: register_bit_defs)

lemma rf_mngt_rf_bits:
  "bit_field [BIT_RF_MNGT_RF_DISABLE, BIT_RF_MNGT_RF_SLEEP]"
  by (rule bit_fieldI [where ks = "[0, 1]"]) (simp_all add: register_bit_defs)

lemma rf_mngt_dyn_rf_bits:
  "bit_field [BIT_RF_MNGT_DYN_RF_DISABLE, BIT_RF_MNGT_DYN_RF_SLEEP, BIT_RF_MNGT_DYN_RF_OFF]"
  by (rule bit_fieldI [where ks = "[0, 1, 2]"]) (simp_all add: register_bit_defs)

lemma gpo1_bits:
  "bit_field [BIT_GPO1_GPO_EN, BIT_GPO1_RF_USER_EN, BIT_GPO1_RF_ACTIVITY_EN, BIT_GPO1_RF_INTERRUPT_EN,
     BIT_GPO1_FIELD_CHANGE_EN, BIT_GPO1_RF_PUT_MSG_EN, BIT_GPO1_RF_GET_MSG_EN,
     BIT_GPO1_RF_WRITE_EN]"
  by (rule bit_fieldI [where ks = "[0, 1, 2, 3, 4, 5, 6, 7]"]) (simp_all add: register_bit_defs)

lemma gpo2_i2c_bits:
  "bit_field [BIT_GPO2_I2C_WRITE_EN, BIT_GPO2_I2C_RF_OFF_EN]"
  by (rule bit_fieldI [where ks = "[0, 1]"]) (simp_all add: register_bit_defs)

lemma it_sts_dyn_bits:
  "bit_field [BIT_IT_STS_DYN_RF_USER, BIT_IT_STS_DYN_RF_ACTIVITY, BIT_IT_STS_DYN_RF_INTERRUPT,
     BIT_IT_STS_DYN_FIELD_FALLING, BIT_IT_STS_DYN_FIELD_RISING, BIT_IT_STS_DYN_RF_PUT_MSG,
     BIT_IT_STS_DYN_RF_GET_MSG, BIT_IT_STS_DYN_RF_WRITE]"
  by (rule bit_fieldI [where ks = "[0, 1, 2, 3, 4, 5, 6, 7]"]) (simp_all add: register_bit_defs)

lemma eh_ctrl_dyn_bits:
  "bit_field [BIT_EH_CTRL_DYN_EH_EN, BIT_EH_CTRL_DYN_EH_ON, BIT_EH_CTRL_DYN_FIELD_ON,
     BIT_EH_CTRL_DYN_VCC_ON]"
  by (rule bit_fieldI [where ks = "[0, 1, 2, 3]"]) (simp_all add: register_bit_defs)

lemma lock_ccfile_lckbck_bits:
  "bit_field [BIT_LOCK_CCFILE_LCKBCK0, BIT_LOCK_CCFILE_LCKBCK1]"
  by (rule bit_fieldI [where ks = "[0, 1]"]) (simp_all add: register_bit_defs)

lemma i2css_mem_bits:
  "bit_field [BIT_I2CSS_MEM1_WRITE, BIT_I2CSS_MEM1_READ, BIT_I2CSS_MEM2_WRITE, BIT_I2CSS_MEM2_READ,
     BIT_I2CSS_MEM3_WRITE, BIT_I2CSS_MEM3_READ, BIT_I2CSS_MEM4_WRITE, BIT_I2CSS_MEM4_READ]"
  by (rule bit_fieldI [where ks = "[0, 1, 2, 3, 4, 5, 6, 7]"]) (simp_all add: register_bit_defs)

end
