(* ===== verification/St25dv.thy ===== *)
theory St25dv
  imports St25dv_Registers I2c_Async
begin

text \<open>
  The NFC tag on the I2C bus, \<open>components/ST25DV/st25dv.c\<close>: reads and writes of its memory as
  synchronous I2C requests of one operation.  \<open>eeprom_bus\<close> is what an ideal chip promises: a list of
  commands that addresses it reads or writes its cells, at once and without failing.  The lemmas turn it into laws of the
  file's functions.
\<close>

section \<open>Addresses\<close>

definition ST25DV_USER_ADDRESS :: u8 where "ST25DV_USER_ADDRESS = 0x53"
definition ST25DV_SYSTEM_ADDRESS :: u8 where "ST25DV_SYSTEM_ADDRESS = 0x57"

section \<open>Operations\<close>

text \<open>
  The state of the I2C task and the file's static \<open>req\<close>.  While a read is under way the
  caller's buffer is object 0 of the memory.  \<open>n\<close> is how many requests the task serves while a
  call waits.
\<close>

record 'b st25_state =
  st_i2c :: "'b i2c_state"
  st_req :: i2c_request

definition st25dv_init_bus :: "int \<Rightarrow> 'b st25_state \<Rightarrow> 'b st25_state" where
  "st25dv_init_bus prt s = s\<lparr>st_req := init_req prt 0 2 (Some copy_callback) (st_req s)\<rparr>"

text \<open>
  When the function returns, its local operation is gone: \<open>req.ops\<close> dangles, and so does the
  copy of \<open>req\<close> that a request timed out on leaves at the end of the queue.
\<close>

definition leave_scope :: "esp_err \<Rightarrow> 'b i2c_state \<Rightarrow> 'b i2c_state" where
  "leave_scope e i =
     (if e = ESP_ERR_TIMEOUT \<and> i2c_queue i \<noteq> []
      then i\<lparr>i2c_queue := butlast (i2c_queue i) @ [(last (i2c_queue i))\<lparr>ops := Dangling\<rparr>]\<rparr>
      else i)"

definition st25dv_request ::
  "'b i2c_driver \<Rightarrow> nat \<Rightarrow> u8 \<Rightarrow> i2c_op \<Rightarrow> 'b st25_state \<Rightarrow> (esp_err \<times> 'b st25_state) option" where
  "st25dv_request drv n st25_address op s =
     (let req = req_set_oper (Ops [op]) 1 ((st_req s)\<lparr>device_addr := st25_address\<rparr>) in
      do {
        (e, i) \<leftarrow> i2c_send_sync drv n (Some req) (st_i2c s);
        Some (e, s\<lparr>st_i2c := leave_scope e i, st_req := req\<lparr>ops := Dangling\<rparr>\<rparr>)
      })"

definition st25dv_write :: "'b i2c_driver \<Rightarrow> nat \<Rightarrow> u8 \<Rightarrow> u16 \<Rightarrow> u8 list option \<Rightarrow> nat \<Rightarrow>
    'b st25_state \<Rightarrow> (esp_err \<times> 'b st25_state) option" where
  "st25dv_write drv n st25_address reg data sz s =
     st25dv_request drv n st25_address
       \<lparr>write_data = data, write_size = sz, reg_addr = reg, read_size = 0, post_delay = 0,
        op_cplt_callback = None, user_ctx = None\<rparr> s"

text \<open>A read: \<open>data\<close> is the caller's buffer, the result has its new contents.\<close>

definition st25dv_read :: "'b i2c_driver \<Rightarrow> nat \<Rightarrow> u8 \<Rightarrow> u16 \<Rightarrow> u8 list option \<Rightarrow> nat \<Rightarrow>
    'b st25_state \<Rightarrow> (esp_err \<times> u8 list option \<times> 'b st25_state) option" where
  "st25dv_read drv n st25_address reg data sz s =
     (let old = objs (st_i2c s);
          s = s\<lparr>st_i2c := (st_i2c s)\<lparr>objs := old(0 := data)\<rparr>\<rparr> in
      do {
        (e, s) \<leftarrow> st25dv_request drv n st25_address
          \<lparr>write_data = None, write_size = 0, reg_addr = reg, read_size = sz, post_delay = 0,
           op_cplt_callback = None, user_ctx = (if data = None then None else Some 0)\<rparr> s;
        (let new = objs (st_i2c s) in
         Some (e, new 0, s\<lparr>st_i2c := (st_i2c s)\<lparr>objs := new(0 := old 0)\<rparr>\<rparr>))
      })"

definition st25dv_write_byte :: "'b i2c_driver \<Rightarrow> nat \<Rightarrow> u8 \<Rightarrow> u16 \<Rightarrow> u8 \<Rightarrow> 'b st25_state \<Rightarrow>
    (esp_err \<times> 'b st25_state) option" where
  "st25dv_write_byte drv n st25_address address byte s =
     st25dv_write drv n st25_address address (Some [byte]) 1 s"

definition st25dv_read_byte :: "'b i2c_driver \<Rightarrow> nat \<Rightarrow> u8 \<Rightarrow> u16 \<Rightarrow> u8 \<Rightarrow> 'b st25_state \<Rightarrow>
    (esp_err \<times> u8 \<times> 'b st25_state) option" where
  "st25dv_read_byte drv n st25_address address byte s =
     do {
       (e, buf, s) \<leftarrow> st25dv_read drv n st25_address address (Some [byte]) 1 s;
       Some (e, hd (the buf), s)
     }"

definition st25dv_write_bit :: "'b i2c_driver \<Rightarrow> nat \<Rightarrow> u8 \<Rightarrow> u16 \<Rightarrow> u8 \<Rightarrow> bool \<Rightarrow> 'b st25_state \<Rightarrow>
    (esp_err \<times> 'b st25_state) option" where
  "st25dv_write_bit drv n st25_address address bit_mask b s =
     do {
       (ret, byte, s) \<leftarrow> st25dv_read_byte drv n st25_address address 0 s;
       if ret \<noteq> ESP_OK then Some (ret, s)
       else st25dv_write_byte drv n st25_address address
              (if b then byte OR bit_mask else byte AND NOT bit_mask) s
     }"

definition st25dv_read_bit :: "'b i2c_driver \<Rightarrow> nat \<Rightarrow> u8 \<Rightarrow> u16 \<Rightarrow> u8 \<Rightarrow> bool \<Rightarrow> 'b st25_state \<Rightarrow>
    (esp_err \<times> bool \<times> 'b st25_state) option" where
  "st25dv_read_bit drv n st25_address address bit_mask b s =
     do {
       (ret, byte, s) \<leftarrow> st25dv_read_byte drv n st25_address address 0 s;
       if ret \<noteq> ESP_OK then Some (ret, b, s)
       else Some (ESP_OK, byte AND bit_mask \<noteq> 0, s)
     }"

definition st25dv_open_session :: "'b i2c_driver \<Rightarrow> nat \<Rightarrow> u8 \<Rightarrow> u64 \<Rightarrow> 'b st25_state \<Rightarrow>
    (esp_err \<times> 'b st25_state) option" where
  "st25dv_open_session drv n st25_address password s =
     (let buffer = le_bytes 8 password @ [0x09] @ le_bytes 8 password in
      st25dv_write drv n st25_address REG_I2C_PASSWD_BASE (Some buffer) 17 s)"

definition st25dv_is_session_opened :: "'b i2c_driver \<Rightarrow> nat \<Rightarrow> u8 \<Rightarrow> bool \<Rightarrow> 'b st25_state \<Rightarrow>
    (esp_err \<times> bool \<times> 'b st25_state) option" where
  "st25dv_is_session_opened drv n st25_address b s =
     st25dv_read_bit drv n st25_address REG_I2C_SSO_DYN BIT_I2C_SSO_DYN_I2C_SSO b s"

section \<open>The chip\<close>

type_synonym cells = "u8 \<Rightarrow> nat \<Rightarrow> u8"

definition put_cells :: "u8 \<Rightarrow> nat \<Rightarrow> u8 list \<Rightarrow> cells \<Rightarrow> cells" where
  "put_cells dev a bs c =
     (\<lambda>d i. if d = dev \<and> a \<le> i \<and> i < a + length bs then bs ! (i - a) else c d i)"

definition get_cells :: "u8 \<Rightarrow> nat \<Rightarrow> nat \<Rightarrow> cells \<Rightarrow> u8 list" where
  "get_cells dev a n c = map (c dev) [a..<a + n]"

definition write_link :: "u8 \<Rightarrow> u16 \<Rightarrow> u8 list \<Rightarrow> i2c_cmd list" where
  "write_link dev a bs = [CMD_START, CMD_WRITE_BYTE (push_bit 1 dev OR I2C_MASTER_WRITE),
     CMD_WRITE_BYTE (hi8 a), CMD_WRITE_BYTE (lo8 a), CMD_WRITE bs, CMD_STOP]"

definition read_link :: "u8 \<Rightarrow> u16 \<Rightarrow> nat \<Rightarrow> i2c_cmd list" where
  "read_link dev a n = [CMD_START, CMD_WRITE_BYTE (push_bit 1 dev OR I2C_MASTER_WRITE),
     CMD_WRITE_BYTE (hi8 a), CMD_WRITE_BYTE (lo8 a), CMD_START,
     CMD_WRITE_BYTE (push_bit 1 dev OR I2C_MASTER_READ), CMD_READ n, CMD_STOP]"

text \<open>The state between calls: the queue is empty and \<open>req\<close> was set up.\<close>

definition ready :: "'b st25_state \<Rightarrow> bool" where
  "ready s \<longleftrightarrow> i2c_queue (st_i2c s) = [] \<and> length (i2c_buf (st_i2c s)) = I2C_BUF_SIZE \<and>
     reg_addr_16b (st_req s) \<and> tr_cplt_callback (st_req s) = Some copy_callback"

text \<open>
  An ideal chip: every address of seven bits has a cell for every number, a write takes no time and
  a transfer never fails.  A real tag does not answer while it writes, for about 5 ms for each four
  bytes; the code waits 100 ms between the writes of \<open>st25dv_ndef.c\<close> for that and ignores the results.
  Time, and with it these waits, is not in the model.
\<close>

locale eeprom_bus =
  fixes drv :: "'b i2c_driver" and cells :: "'b \<Rightarrow> cells"
  assumes create: "link_create drv"
    and add: "link_add drv l c = ESP_OK"
    and write_begin: "dev < 128 \<Longrightarrow> bs \<noteq> [] \<Longrightarrow>
      \<exists>rx b'. cmd_begin drv p (write_link dev a bs) b = (ESP_OK, rx, b') \<and>
        cells b' = put_cells dev (unat a) bs (cells b)"
    and read_begin: "dev < 128 \<Longrightarrow> 0 < n \<Longrightarrow>
      \<exists>b'. cmd_begin drv p (read_link dev a n) b = (ESP_OK, get_cells dev (unat a) n (cells b), b') \<and>
        cells b' = cells b"
begin

lemma link_all: "link_cmds drv l cs = (ESP_OK, l @ cs)"
  by (induction cs arbitrary: l) (simp_all add: add)

abbreviation view :: "'b st25_state \<Rightarrow> cells" where
  "view s \<equiv> cells (bus (st_i2c s))"

text \<open>A request that is served at once.\<close>

lemma tasks_idle: "i2c_queue s = [] \<Longrightarrow> i2c_tasks n drv s = Some s"
  by (induction n) (simp_all add: i2c_task_def)

lemma send_sync_served:
  assumes "i2c_queue s = []" "ops req = Ops [op]" "op_count req = 1"
    and "i2c_run drv req [op] 1 0 ESP_OK
           (s\<lparr>evn_group := device_clear_bits (BIT_I2C_OPER_CPLT OR BIT_I2C_OPER_ERR) (evn_group s), i2c_queue := []\<rparr>) = Some s1"
    and "i2c_queue s1 = []"
  shows "i2c_send_sync drv (Suc n) (Some req) s =
           Some (ESP_OK, s1\<lparr>evn_group := device_set_bits BIT_I2C_OPER_CPLT (evn_group s1)\<rparr>)"
  using assms tasks_idle cplt_seen
  by (simp add: i2c_send_sync_def i2c_send_async_def I2C_QUEUE_LEN_def Let_def i2c_task_def)

lemma run_one:
  assumes "read_size op \<le> I2C_BUF_SIZE" "write_size op \<noteq> 0 \<longrightarrow> write_data op \<noteq> None"
    and "i2c_transfer drv req op ESP_OK s = Some (ESP_OK, s1)"
    and "notification_callback ESP_OK req op s1 = Some s2"
  shows "i2c_run drv req [op] 1 0 ESP_OK s = Some s2"
proof -
  have valid: "\<not> (read_size op > I2C_BUF_SIZE \<or> (write_size op \<noteq> 0 \<and> write_data op = None))"
    using assms(1,2) by auto
  have "i2c_run drv req [op] (Suc 0) 0 ESP_OK s = Some s2"
    by (subst i2c_run.simps(3), subst if_not_P [OF valid]) (simp add: assms(3,4))
  then show ?thesis by simp
qed

lemma write_law:
  assumes "ready s" "dev < 128" "sz \<le> length d" "0 < sz"
  shows "\<exists>s'. st25dv_write drv (Suc n) dev a (Some d) sz s = Some (ESP_OK, s') \<and> ready s' \<and>
           view s' = put_cells dev (unat a) (take sz d) (view s) \<and> objs (st_i2c s') = objs (st_i2c s)"
proof -
  let ?op = "\<lparr>write_data = Some d, write_size = sz, reg_addr = a, read_size = 0, post_delay = 0,
     op_cplt_callback = None, user_ctx = None\<rparr> :: i2c_op"
  let ?req = "req_set_oper (Ops [?op]) 1 ((st_req s)\<lparr>device_addr := dev\<rparr>)"
  let ?i = "(st_i2c s)\<lparr>evn_group := device_clear_bits (BIT_I2C_OPER_CPLT OR BIT_I2C_OPER_ERR)
     (evn_group (st_i2c s)), i2c_queue := []\<rparr>"
  have r: "i2c_queue (st_i2c s) = []" "length (i2c_buf (st_i2c s)) = I2C_BUF_SIZE"
      "reg_addr_16b (st_req s)" "tr_cplt_callback (st_req s) = Some copy_callback"
    using assms(1) by (simp_all add: ready_def)
  have "take sz d \<noteq> []" using assms(3,4) by auto
  from write_begin [OF assms(2) this, of "i2c_port (st_req s)" a "bus (st_i2c s)"]
  obtain rx b where b: "cmd_begin drv (i2c_port (st_req s)) (write_link dev a (take sz d)) (bus (st_i2c s)) = (ESP_OK, rx, b)"
      "cells b = put_cells dev (unat a) (take sz d) (view s)"
    by blast
  have t: "i2c_transfer drv ?req ?op ESP_OK ?i = Some (ESP_OK, ?i\<lparr>bus := b\<rparr>)"
    using b(1) assms(3,4) r(3)
    by (simp add: i2c_transfer_def device_i2c_master_write_to_device_def create add req_set_oper_def
        reg_cmds_def write_link_def)
  have c: "notification_callback ESP_OK ?req ?op (?i\<lparr>bus := b\<rparr>) = Some (?i\<lparr>bus := b\<rparr>)"
    using r(4) by (simp add: notification_callback_def copy_callback_def req_set_oper_def)
  have run: "i2c_run drv ?req [?op] 1 0 ESP_OK ?i = Some (?i\<lparr>bus := b\<rparr>)"
    by (rule run_one [OF _ _ t c]) simp_all
  have "i2c_send_sync drv (Suc n) (Some ?req) (st_i2c s) =
      Some (ESP_OK, ?i\<lparr>bus := b, evn_group := device_set_bits BIT_I2C_OPER_CPLT (evn_group ?i)\<rparr>)"
    using send_sync_served [OF r(1) _ _ run] by (simp add: req_set_oper_def)
  then show ?thesis
    using r b(2)
    by (simp add: st25dv_write_def st25dv_request_def Let_def ready_def leave_scope_def req_set_oper_def)
qed

lemma read_law:
  assumes "ready s" "dev < 128" "sz \<le> length buf" "sz \<le> I2C_BUF_SIZE"
  shows "\<exists>s'. st25dv_read drv (Suc n) dev a (Some buf) sz s =
             Some (ESP_OK, Some (get_cells dev (unat a) sz (view s) @ drop sz buf), s') \<and> ready s' \<and>
           view s' = view s \<and> objs (st_i2c s') = objs (st_i2c s)"
proof -
  let ?op = "\<lparr>write_data = None, write_size = 0, reg_addr = a, read_size = sz, post_delay = 0,
     op_cplt_callback = None, user_ctx = Some 0\<rparr> :: i2c_op"
  let ?req = "req_set_oper (Ops [?op]) 1 ((st_req s)\<lparr>device_addr := dev\<rparr>)"
  let ?i = "(st_i2c s)\<lparr>objs := (objs (st_i2c s))(0 \<mapsto> buf),
     evn_group := device_clear_bits (BIT_I2C_OPER_CPLT OR BIT_I2C_OPER_ERR) (evn_group (st_i2c s)), i2c_queue := []\<rparr>"
  let ?rx = "get_cells dev (unat a) sz (view s)"
  have r: "i2c_queue (st_i2c s) = []" "length (i2c_buf (st_i2c s)) = I2C_BUF_SIZE"
      "reg_addr_16b (st_req s)" "tr_cplt_callback (st_req s) = Some copy_callback"
    using assms(1) by (simp_all add: ready_def)
  have len: "length ?rx = sz" by (simp add: get_cells_def)
  have "\<exists>b f. cells b = view s \<and> length f = I2C_BUF_SIZE \<and> take sz f = ?rx \<and>
      i2c_transfer drv ?req ?op ESP_OK ?i = Some (ESP_OK, ?i\<lparr>i2c_buf := f, bus := b\<rparr>)"
  proof (cases "sz = 0")
    case True
    then show ?thesis
      using r(2) by (intro exI [of _ "bus (st_i2c s)"] exI [of _ "i2c_buf (st_i2c s)"])
        (simp add: i2c_transfer_def get_cells_def)
  next
    case False
    then obtain b where b: "cmd_begin drv (i2c_port (st_req s)) (read_link dev a sz) (bus (st_i2c s)) = (ESP_OK, ?rx, b)"
        "cells b = view s"
      using read_begin [OF assms(2), of sz "i2c_port (st_req s)" a "bus (st_i2c s)"] by auto
    then show ?thesis
      using False r(2,3) assms(4) len
      by (intro exI [of _ b] exI [of _ "?rx @ drop sz (i2c_buf (st_i2c s))"])
        (simp add: i2c_transfer_def device_i2c_master_read_from_device_def create add req_set_oper_def
          reg_cmds_def read_link_def)
  qed
  then obtain b f where b: "cells b = view s" and f: "length f = I2C_BUF_SIZE" "take sz f = ?rx"
      and t: "i2c_transfer drv ?req ?op ESP_OK ?i = Some (ESP_OK, ?i\<lparr>i2c_buf := f, bus := b\<rparr>)"
    by blast
  let ?m = "(objs (st_i2c s))(0 \<mapsto> ?rx @ drop sz buf)"
  have c: "notification_callback ESP_OK ?req ?op (?i\<lparr>i2c_buf := f, bus := b\<rparr>) =
      Some (?i\<lparr>i2c_buf := f, bus := b, objs := ?m\<rparr>)"
    using r(4) f assms(3,4) len
    by (simp add: notification_callback_def copy_callback_def req_set_oper_def mem_write_def)
  have run: "i2c_run drv ?req [?op] 1 0 ESP_OK ?i = Some (?i\<lparr>i2c_buf := f, bus := b, objs := ?m\<rparr>)"
    by (rule run_one [OF _ _ t c]) (simp_all add: assms(4))
  have "i2c_send_sync drv (Suc n) (Some ?req) ((st_i2c s)\<lparr>objs := (objs (st_i2c s))(0 \<mapsto> buf)\<rparr>) =
      Some (ESP_OK, ?i\<lparr>i2c_buf := f, bus := b, objs := ?m,
        evn_group := device_set_bits BIT_I2C_OPER_CPLT (evn_group ?i)\<rparr>)"
    using send_sync_served [of "(st_i2c s)\<lparr>objs := (objs (st_i2c s))(0 \<mapsto> buf)\<rparr>" ?req ?op] r(1) run
    by (simp add: req_set_oper_def)
  then show ?thesis
    using r b f
    by (simp add: st25dv_read_def st25dv_request_def Let_def ready_def leave_scope_def req_set_oper_def)
qed

lemma write_byte_law:
  assumes "ready s" "dev < 128"
  shows "\<exists>s'. st25dv_write_byte drv (Suc n) dev a x s = Some (ESP_OK, s') \<and> ready s' \<and>
           view s' = put_cells dev (unat a) [x] (view s) \<and> objs (st_i2c s') = objs (st_i2c s)"
  using write_law [OF assms, of 1 "[x]" n a] by (simp add: st25dv_write_byte_def)

lemma read_byte_law:
  assumes "ready s" "dev < 128"
  shows "\<exists>s'. st25dv_read_byte drv (Suc n) dev a x s = Some (ESP_OK, view s dev (unat a), s') \<and> ready s' \<and>
           view s' = view s \<and> objs (st_i2c s') = objs (st_i2c s)"
  using read_law [OF assms, of 1 "[x]" n a] by (auto simp: st25dv_read_byte_def get_cells_def I2C_BUF_SIZE_def)

lemma write_bit_law:
  assumes "ready s" "dev < 128"
  shows "\<exists>s'. st25dv_write_bit drv (Suc n) dev a msk v s = Some (ESP_OK, s') \<and> ready s' \<and>
           view s' = put_cells dev (unat a)
             [if v then view s dev (unat a) OR msk else view s dev (unat a) AND NOT msk] (view s)"
proof -
  obtain s1 where r: "st25dv_read_byte drv (Suc n) dev a 0 s = Some (ESP_OK, view s dev (unat a), s1)"
      "ready s1" "view s1 = view s"
    using read_byte_law [OF assms] by blast
  show ?thesis
    using write_byte_law [OF r(2) assms(2), of n a "if v then view s dev (unat a) OR msk else view s dev (unat a) AND NOT msk"]
      r(1,3) by (auto simp: st25dv_write_bit_def)
qed

lemma init_ready:
  assumes "i2c_queue (st_i2c s) = []" "length (i2c_buf (st_i2c s)) = I2C_BUF_SIZE"
  shows "ready (st25dv_init_bus p s)"
  using assms by (simp add: ready_def st25dv_init_bus_def init_req_def)

end

section \<open>An ideal chip\<close>

text \<open>
  A chip that keeps its cells and follows the commands: the first byte after a start is the
  device address, the next two are the cell.  It shows that the promises can be met.
\<close>

fun chip_cmds :: "i2c_cmd list \<Rightarrow> nat \<Rightarrow> u8 \<Rightarrow> u16 \<Rightarrow> cells \<Rightarrow> u8 list \<times> cells" where
  "chip_cmds [] ph dev a c = ([], c)"
| "chip_cmds (CMD_START # cs) ph dev a c = chip_cmds cs 0 dev a c"
| "chip_cmds (CMD_WRITE_BYTE x # cs) ph dev a c =
     (if ph = 0 then chip_cmds cs 1 (drop_bit 1 x) a c
      else if ph = 1 then chip_cmds cs 2 dev (u16_of x 0) c
      else chip_cmds cs 3 dev (u16_of (hi8 a) x) c)"
| "chip_cmds (CMD_WRITE bs # cs) ph dev a c = chip_cmds cs ph dev a (put_cells dev (unat a) bs c)"
| "chip_cmds (CMD_READ n # cs) ph dev a c =
     (case chip_cmds cs ph dev a c of (rx, c') \<Rightarrow> (get_cells dev (unat a) n c @ rx, c'))"
| "chip_cmds (CMD_STOP # cs) ph dev a c = chip_cmds cs ph dev a c"

definition chip_driver :: "cells i2c_driver" where
  "chip_driver = \<lparr>link_create = True, link_add = (\<lambda>_ _. ESP_OK),
     cmd_begin = (\<lambda>_ link c. case chip_cmds link 0 0 0 c of (rx, c') \<Rightarrow> (ESP_OK, rx, c'))\<rparr>"

lemma seven_bit_address:
  assumes "(dev::u8) < 128"
  shows "drop_bit 1 (push_bit 1 dev OR I2C_MASTER_WRITE) = dev"
    and "drop_bit 1 (push_bit 1 dev OR I2C_MASTER_READ) = dev"
proof -
  have top: "\<not> bit dev 7"
  proof -
    have "unat dev div 2 ^ 7 = 0" using assms by (simp add: word_less_nat_alt)
    then have "\<not> bit (unat dev) 7" by (simp add: bit_iff_odd)
    then show ?thesis by (simp add: bit_unsigned_iff)
  qed
  have "bit dev i \<Longrightarrow> i < 7" for i
    using top bit_imp_le_length [of dev i] by (cases "i = 7") auto
  then show "drop_bit 1 (push_bit 1 dev OR I2C_MASTER_WRITE) = dev"
      "drop_bit 1 (push_bit 1 dev OR I2C_MASTER_READ) = dev"
    by (auto intro!: bit_word_eqI simp: bit_simps mult.commute [of dev 2] bit_double_iff I2C_MASTER_WRITE_def I2C_MASTER_READ_def)
qed

interpretation chip: eeprom_bus chip_driver "\<lambda>c. c"
  by unfold_locales
    (simp_all add: chip_driver_def write_link_def read_link_def seven_bit_address [simplified])

end
