(* ===== verification/St25dv_Ndef.thy ===== *)
theory St25dv_Ndef
  imports St25dv
begin

text \<open>
  NDEF records on the tag, \<open>components/ST25DV/st25dv_ndef.c\<close>.  A message is a TLV (type 3, its
  length in one or three bytes, the records, a terminator); the first record written starts
  it, later ones update its length.  Strings are C strings, null pointers are \<open>None\<close>;
  \<open>undef\<close> is the content of uninitialised local bytes.  The lemmas give the exact bytes on the
  tag after a sequence of writes, and show that reading finds them.
\<close>

section \<open>Constants\<close>

definition RECORD_BUF_SIZE :: nat where "RECORD_BUF_SIZE = 256"
definition ST25DV_TYPE5_NDEF_MESSAGE :: u8 where "ST25DV_TYPE5_NDEF_MESSAGE = 0x03"
definition ST25DV_TYPE5_TERMINATOR_TLV :: u8 where "ST25DV_TYPE5_TERMINATOR_TLV = 0xFE"
definition CCFILE_LENGTH :: nat where "CCFILE_LENGTH = 8"
definition NDEF_ST25DV_MB :: u8 where "NDEF_ST25DV_MB = 128"
definition NDEF_ST25DV_ME :: u8 where "NDEF_ST25DV_ME = 64"
definition NDEF_ST25DV_SR :: u8 where "NDEF_ST25DV_SR = 16"
definition NDEF_ST25DV_IL :: u8 where "NDEF_ST25DV_IL = 8"
definition NDEF_ST25DV_PT :: u8 where "NDEF_ST25DV_PT = 0x07"
definition NDEF_ST25DV_TNF_MIME :: u8 where "NDEF_ST25DV_TNF_MIME = 0x02"
definition NDEF_ST25DV_TNF_EXTERNAL :: u8 where "NDEF_ST25DV_TNF_EXTERNAL = 0x04"

lemmas ndef_flags = NDEF_ST25DV_MB_def NDEF_ST25DV_ME_def NDEF_ST25DV_SR_def NDEF_ST25DV_IL_def
  NDEF_ST25DV_PT_def

text \<open>The strings \<open>android.com:pkg\<close> and \<open>application/json\<close> with their terminators.\<close>

definition NDEF_APP_LAUNCHER_TYPE :: "u8 list" where
  "NDEF_APP_LAUNCHER_TYPE =
     [0x61, 0x6E, 0x64, 0x72, 0x6F, 0x69, 0x64, 0x2E, 0x63, 0x6F, 0x6D, 0x3A, 0x70, 0x6B, 0x67, 0]"

definition NDEF_JSON_TYPE :: "u8 list" where
  "NDEF_JSON_TYPE =
     [0x61, 0x70, 0x70, 0x6C, 0x69, 0x63, 0x61, 0x74, 0x69, 0x6F, 0x6E, 0x2F, 0x6A, 0x73, 0x6F, 0x6E, 0]"

definition header_bit :: "u8 \<Rightarrow> u8 \<Rightarrow> bool" where
  "header_bit header b \<longleftrightarrow> header AND b = b"

record st25dv_config =
  user_address :: u8
  system_address :: u8

record std25dv_ndef_record =
  tnf :: u8
  rec_type :: "u8 list option"
  payload :: "u8 list option"

section \<open>Writing\<close>

definition st25dv_ndef_write_ccfile ::
  "'b i2c_driver \<Rightarrow> nat \<Rightarrow> u64 \<Rightarrow> 'b st25_state \<Rightarrow> (esp_err \<times> 'b st25_state) option" where
  "st25dv_ndef_write_ccfile drv n ccfile s =
     st25dv_write drv n ST25DV_USER_ADDRESS 0 (Some (le_bytes 8 ccfile)) 8 s"

text \<open>
  The bytes put into the static \<open>record_data\<close>: the TLV header of a first record and the
  record.  \<open>type_size\<close> and \<open>payload_size\<close> have the widths of the C variables.
\<close>

definition record_length :: "u8 \<Rightarrow> u16 \<Rightarrow> u16" where
  "record_length type_size payload_size =
     of_nat (1 + 1 + (if payload_size > 0xFF then 4 else 1) + 1 + unat type_size + unat payload_size)"

definition tlv_header :: "u16 \<Rightarrow> u8 list" where
  "tlv_header len =
     ST25DV_TYPE5_NDEF_MESSAGE # (if len > 0xFE then [0xFF, hi8 len, lo8 len] else [lo8 len])"

definition record_bytes :: "bool \<Rightarrow> bool \<Rightarrow> u8 \<Rightarrow> u8 \<Rightarrow> u16 \<Rightarrow> u8 list \<Rightarrow> u8 list \<Rightarrow> u8 list" where
  "record_bytes mb me t type_size payload_size ty pl =
     [(if mb then NDEF_ST25DV_MB else 0) OR (if me then NDEF_ST25DV_ME else 0) OR
        (if payload_size > 0xFF then 0 else NDEF_ST25DV_SR) OR NDEF_ST25DV_IL OR t,
      type_size] @
     (if payload_size > 0xFF then [0, 0, hi8 payload_size, lo8 payload_size] else [lo8 payload_size]) @
     [0] @ take (unat type_size) ty @ take (unat payload_size) pl"

text \<open>
  The update of the length of a message when a record is added to it: the record's address
  after it.  Results of the reads and writes are ignored, as in the code.
\<close>

definition update_length :: "'b i2c_driver \<Rightarrow> nat \<Rightarrow> u8 \<Rightarrow> u8 \<Rightarrow> u16 \<Rightarrow> u8 \<Rightarrow> 'b st25_state \<Rightarrow>
    (u8 \<times> 'b st25_state) option" where
  "update_length drv n undef dev rec_len record_address s =
     do {
       (_, l, s) \<leftarrow> st25dv_read drv n dev (of_nat (CCFILE_LENGTH + 1)) (Some (replicate 3 undef)) 3 s;
       (let l_value = the l in
        if l_value ! 0 = 0xFF
        then (let total_length = u16_of (l_value ! 1) (l_value ! 2) + rec_len in
          do {
            (_, s) \<leftarrow> st25dv_write drv n dev (of_nat (CCFILE_LENGTH + 1))
                        (Some [0xFF, hi8 total_length, lo8 total_length]) 3 s;
            Some (record_address, s)
          })
        else (let old_length = (ucast (l_value ! 0) :: u16); total_length = old_length + rec_len in
          if total_length > 0xFE
          then do {
            (_, content, s) \<leftarrow> st25dv_read drv n dev (of_nat (CCFILE_LENGTH + 2))
                                 (Some (replicate RECORD_BUF_SIZE undef)) (unat old_length) s;
            (_, s) \<leftarrow> st25dv_write drv n dev (of_nat (CCFILE_LENGTH + 1))
                        (Some [0xFF, hi8 total_length, lo8 total_length]) 3 s;
            (_, s) \<leftarrow> st25dv_write drv n dev (of_nat (CCFILE_LENGTH + 4)) content (unat old_length) s;
            Some (record_address + 2, s)
          }
          else do {
            (_, s) \<leftarrow> st25dv_write_byte drv n dev (of_nat (CCFILE_LENGTH + 1)) (lo8 total_length) s;
            Some (record_address, s)
          }))
     }"

text \<open>
  \<open>st25dv_ndef_write_content\<close>: the result, \<open>*address\<close> and the state.  More than 256 bytes would
  be written past \<open>record_data\<close>.
\<close>

definition st25dv_ndef_write_content :: "'b i2c_driver \<Rightarrow> nat \<Rightarrow> u8 \<Rightarrow> st25dv_config \<Rightarrow> u16 \<Rightarrow> bool \<Rightarrow> bool \<Rightarrow>
    std25dv_ndef_record \<Rightarrow> 'b st25_state \<Rightarrow> (esp_err \<times> u16 \<times> 'b st25_state) option" where
  "st25dv_ndef_write_content drv n undef st25dv address mb me record s =
     do {
       ty \<leftarrow> rec_type record;
       type_len \<leftarrow> strlen ty;
       pl \<leftarrow> payload record;
       payload_len \<leftarrow> strlen pl;
       (let type_size = (of_nat type_len :: u8); payload_size = (of_nat payload_len :: u16);
            rec_len = record_length type_size payload_size;
            data = (if mb then tlv_header rec_len else []) @
                   record_bytes mb me (tnf record) type_size payload_size ty pl;
            record_address = (if unat address > CCFILE_LENGTH then lo8 address else of_nat CCFILE_LENGTH)
        in
        if length data > RECORD_BUF_SIZE then None
        else do {
          (record_address, s) \<leftarrow>
            (if mb then Some (record_address, s)
             else update_length drv n undef (user_address st25dv) rec_len record_address s);
          (_, s) \<leftarrow> st25dv_write drv n (user_address st25dv) (ucast record_address) (Some data) (length data) s;
          (let end_address = of_nat (unat record_address + length data) in
           do {
             (_, s) \<leftarrow>
               (if me then st25dv_write_byte drv n (user_address st25dv) end_address ST25DV_TYPE5_TERMINATOR_TLV s
                else Some (ESP_OK, s));
             Some (ESP_OK, end_address, s)
           })
        })
     }"

definition st25dv_ndef_write_app_launcher_record :: "'b i2c_driver \<Rightarrow> nat \<Rightarrow> u8 \<Rightarrow> st25dv_config \<Rightarrow> u16 \<Rightarrow>
    bool \<Rightarrow> bool \<Rightarrow> u8 list option \<Rightarrow> 'b st25_state \<Rightarrow> (esp_err \<times> u16 \<times> 'b st25_state) option" where
  "st25dv_ndef_write_app_launcher_record drv n undef st25dv address mb me app_package s =
     do {
       (_, address, s) \<leftarrow> st25dv_ndef_write_content drv n undef st25dv address mb me
         \<lparr>tnf = NDEF_ST25DV_TNF_EXTERNAL, rec_type = Some NDEF_APP_LAUNCHER_TYPE, payload = app_package\<rparr> s;
       Some (ESP_OK, address, s)
     }"

text \<open>\<open>json\<close> is what \<open>cJSON_PrintUnformatted\<close> returns.\<close>

definition st25dv_ndef_write_json_record :: "'b i2c_driver \<Rightarrow> nat \<Rightarrow> u8 \<Rightarrow> st25dv_config \<Rightarrow> u16 \<Rightarrow>
    bool \<Rightarrow> bool \<Rightarrow> u8 list option \<Rightarrow> 'b st25_state \<Rightarrow> (esp_err \<times> u16 \<times> 'b st25_state) option" where
  "st25dv_ndef_write_json_record drv n undef st25dv address mb me json s =
     do {
       (_, address, s) \<leftarrow> st25dv_ndef_write_content drv n undef st25dv address mb me
         \<lparr>tnf = NDEF_ST25DV_TNF_MIME, rec_type = Some NDEF_JSON_TYPE, payload = json\<rparr> s;
       Some (ESP_OK, address, s)
     }"

section \<open>Reading\<close>

text \<open>
  \<open>ESP_ERROR_CHECK\<close> aborts on an error: \<open>None\<close>.  A read of \<open>k\<close> bytes into uninitialised bytes.
\<close>

definition read_checked :: "'b i2c_driver \<Rightarrow> nat \<Rightarrow> u8 \<Rightarrow> u8 \<Rightarrow> u16 \<Rightarrow> nat \<Rightarrow> 'b st25_state \<Rightarrow>
    (u8 list \<times> 'b st25_state) option" where
  "read_checked drv n undef dev address k s =
     do {
       (e, buf, s) \<leftarrow> st25dv_read drv n dev address (Some (replicate k undef)) k s;
       if e = ESP_OK then Some (the buf, s) else None
     }"

text \<open>
  The header of a record: its flags, the length of its type, the length of its payload, and
  the address of its type.
\<close>

definition read_header :: "'b i2c_driver \<Rightarrow> nat \<Rightarrow> u8 \<Rightarrow> u8 \<Rightarrow> u16 \<Rightarrow> 'b st25_state \<Rightarrow>
    (u8 \<times> u8 \<times> u16 \<times> u16 \<times> 'b st25_state) option" where
  "read_header drv n undef dev address s =
     do {
       (v, s) \<leftarrow> read_checked drv n undef dev address 1 s;
       (let address = address + 1; v_value = v ! 0 in
        do {
          (tl, s) \<leftarrow> read_checked drv n undef dev address 1 s;
          (let address = address + 1 in
           do {
             (payload_length, address, s) \<leftarrow>
               (if header_bit v_value NDEF_ST25DV_SR
                then do {
                  (d, s) \<leftarrow> read_checked drv n undef dev address 1 s;
                  Some (ucast (d ! 0), address + 1, s)
                }
                else do {
                  (d, s) \<leftarrow> read_checked drv n undef dev address 4 s;
                  Some (u16_of (d ! 2) (d ! 3), address + 4, s)
                });
             (let address = (if header_bit v_value NDEF_ST25DV_IL then address + 1 else address) in
              Some (v_value, tl ! 0, payload_length, address, s))
           })
        })
     }"

text \<open>
  The type and the payload of the record found, each in a new object with a terminator.  \<open>malloc k\<close>
  says whether there is memory for \<open>k\<close> bytes; the code writes to the result in any case, which for the
  null pointer is undefined: \<open>None\<close>.
\<close>

definition read_body :: "(nat \<Rightarrow> bool) \<Rightarrow> 'b i2c_driver \<Rightarrow> nat \<Rightarrow> u8 \<Rightarrow> u8 \<Rightarrow> u8 \<Rightarrow> u8 \<Rightarrow> u16 \<Rightarrow> u16 \<Rightarrow> 'b st25_state \<Rightarrow>
    (std25dv_ndef_record \<times> 'b st25_state) option" where
  "read_body malloc drv n undef dev payload_type type_length payload_length address s =
     (if \<not> malloc (unat type_length + 1) then None
      else do {
        (ty, s) \<leftarrow> read_checked drv n undef dev address (unat type_length) s;
        (if \<not> malloc (unat payload_length + 1) then None
         else do {
           (pl, s) \<leftarrow> read_checked drv n undef dev (address + ucast type_length) (unat payload_length) s;
           Some (\<lparr>tnf = payload_type, rec_type = Some (ty @ [0]), payload = Some (pl @ [0])\<rparr>, s)
         })
      })"

text \<open>
  The loop of \<open>st25dv_ndef_read\<close>; \<open>fuel\<close> bounds its turns, since its address may wrap around.
\<close>

fun ndef_read_loop :: "nat \<Rightarrow> (nat \<Rightarrow> bool) \<Rightarrow> 'b i2c_driver \<Rightarrow> nat \<Rightarrow> u8 \<Rightarrow> u8 \<Rightarrow> u8 \<Rightarrow> u16 \<Rightarrow> u8 \<Rightarrow> u16 \<Rightarrow>
    std25dv_ndef_record \<Rightarrow> u8 \<Rightarrow> 'b st25_state \<Rightarrow> (esp_err \<times> std25dv_ndef_record \<times> u8 \<times> 'b st25_state) option" where
  "ndef_read_loop 0 malloc drv n undef dev enda1 l_value record_num address out cnt s = None"
| "ndef_read_loop (Suc fuel) malloc drv n undef dev enda1 l_value record_num address out cnt s =
     (if unat address < unat enda1 \<or> unat address < CCFILE_LENGTH + unat l_value + 3
      then do {
        (v_value, type_length, payload_length, address, s) \<leftarrow> read_header drv n undef dev address s;
        (let cnt = cnt + 1 in
         do {
           (out, s) \<leftarrow>
             (if cnt = record_num
              then read_body malloc drv n undef dev (v_value AND NDEF_ST25DV_PT) type_length payload_length address s
              else Some (out, s));
           (let address = address + ucast type_length + payload_length in
            do {
              (e, s) \<leftarrow> read_checked drv n undef dev address 1 s;
              if e ! 0 = ST25DV_TYPE5_TERMINATOR_TLV then Some (ESP_OK, out, cnt, s)
              else ndef_read_loop fuel malloc drv n undef dev enda1 l_value record_num address out cnt s
            })
         })
      }
      else Some (ESP_OK, out, cnt, s))"

definition st25dv_ndef_read :: "nat \<Rightarrow> (nat \<Rightarrow> bool) \<Rightarrow> 'b i2c_driver \<Rightarrow> nat \<Rightarrow> u8 \<Rightarrow> st25dv_config \<Rightarrow> u8 \<Rightarrow> std25dv_ndef_record \<Rightarrow>
    'b st25_state \<Rightarrow> (esp_err \<times> std25dv_ndef_record \<times> u8 \<times> 'b st25_state) option" where
  "st25dv_ndef_read fuel malloc drv n undef st25dv record_num out s =
     do {
       (_, enda1, s) \<leftarrow> st25dv_read_byte drv n (system_address st25dv) REG_ENDA1 0 s;
       (tlv, s) \<leftarrow> read_checked drv n undef (user_address st25dv) (of_nat CCFILE_LENGTH) 4 s;
       if tlv ! 0 \<noteq> ST25DV_TYPE5_NDEF_MESSAGE then Some (ESP_FAIL, out, 0, s)
       else if tlv ! 1 = 0xFF
       then ndef_read_loop fuel malloc drv n undef (user_address st25dv) (enda1 * 32 + 31)
              (u16_of (tlv ! 2) (tlv ! 3)) record_num (of_nat (CCFILE_LENGTH + 4)) out 0 s
       else ndef_read_loop fuel malloc drv n undef (user_address st25dv) (enda1 * 32 + 31)
              (ucast (tlv ! 1)) record_num (of_nat (CCFILE_LENGTH + 2)) out 0 s
     }"

section \<open>Records as bytes\<close>

text \<open>
  A record as a value: its type name format, type and payload.  \<open>c_record\<close> is the C record
  with its two strings, \<open>enc_record\<close> its bytes in a message.
\<close>

type_synonym ndef_note = "u8 \<times> u8 list \<times> u8 list"

fun note_ok :: "ndef_note \<Rightarrow> bool" where
  "note_ok (t, ty, pl) \<longleftrightarrow>
     t AND NDEF_ST25DV_PT = t \<and> length ty < 256 \<and> length pl < 256 \<and> 0 \<notin> set ty \<and> 0 \<notin> set pl"

fun c_record :: "ndef_note \<Rightarrow> std25dv_ndef_record" where
  "c_record (t, ty, pl) = \<lparr>tnf = t, rec_type = Some (ty @ [0]), payload = Some (pl @ [0])\<rparr>"

definition note_flags :: "bool \<Rightarrow> bool \<Rightarrow> u8 \<Rightarrow> u8" where
  "note_flags mb me t = (if mb then NDEF_ST25DV_MB else 0) OR (if me then NDEF_ST25DV_ME else 0) OR
     NDEF_ST25DV_SR OR NDEF_ST25DV_IL OR t"

fun enc_record :: "bool \<Rightarrow> bool \<Rightarrow> ndef_note \<Rightarrow> u8 list" where
  "enc_record mb me (t, ty, pl) =
     [note_flags mb me t, of_nat (length ty), of_nat (length pl), 0] @ ty @ pl"

fun note_size :: "ndef_note \<Rightarrow> nat" where
  "note_size (t, ty, pl) = 4 + length ty + length pl"

lemma length_enc_record [simp]: "length (enc_record mb me r) = note_size r"
  by (cases r) simp

lemma flags_bits:
  "header_bit (note_flags mb me t) NDEF_ST25DV_SR"
  "header_bit (note_flags mb me t) NDEF_ST25DV_IL"
  unfolding header_bit_def note_flags_def by (rule bit_word_eqI, auto simp: bit_simps)+

lemma flags_tnf: "t AND NDEF_ST25DV_PT = t \<Longrightarrow> note_flags mb me t AND NDEF_ST25DV_PT = t"
  by (simp add: note_flags_def bit.conj_disj_distrib2) (simp add: ndef_flags)

lemma flags_not_terminator:
  assumes "t AND NDEF_ST25DV_PT = t"
  shows "note_flags mb me t \<noteq> ST25DV_TYPE5_TERMINATOR_TLV"
proof -
  have "t AND 32 = (t AND NDEF_ST25DV_PT) AND 32" using assms by simp
  also have "\<dots> = 0" by (simp add: ndef_flags and.assoc)
  finally have "note_flags mb me t AND 32 = 0"
    by (simp add: note_flags_def bit.conj_disj_distrib2) (simp add: ndef_flags)
  then show ?thesis by (auto simp: ST25DV_TYPE5_TERMINATOR_TLV_def)
qed

lemma strlen_string [simp]: "0 \<notin> set s \<Longrightarrow> strlen (s @ [0]) = Some (length s)"
  by (simp add: strlen_def takeWhile_append)

lemma u8_small: "k < 256 \<Longrightarrow> unat (of_nat k :: u8) = k"
  by (simp add: unat_of_nat take_bit_nat_eq_self)

lemma u16_small: "k < 65536 \<Longrightarrow> unat (of_nat k :: u16) = k"
  by (simp add: unat_of_nat take_bit_nat_eq_self)

lemma lo8_of_nat: "lo8 (of_nat k) = of_nat k"
  unfolding lo8_def by (rule bit_word_eqI) (auto simp: bit_simps)

lemma ucast_of_nat_u8: "k < 256 \<Longrightarrow> (ucast (of_nat k :: u8) :: u16) = of_nat k"
  by (rule word_unat_eq_iff [THEN iffD2])
    (simp add: unsigned_ucast_eq unsigned_of_nat take_bit_nat_eq_self)

lemma tlv_short: "k \<le> 254 \<Longrightarrow> tlv_header (of_nat k) = [ST25DV_TYPE5_NDEF_MESSAGE, of_nat k]"
  using u16_small [of k] by (simp add: tlv_header_def word_less_nat_alt lo8_of_nat)

text \<open>The data \<open>st25dv_ndef_write_content\<close> writes for a short record.\<close>

lemma short_record:
  assumes "note_ok (t, ty, pl)"
  shows "record_bytes mb me t (of_nat (length ty)) (of_nat (length pl)) (ty @ [0]) (pl @ [0]) =
           enc_record mb me (t, ty, pl)"
    and "record_length (of_nat (length ty)) (of_nat (length pl)) = of_nat (note_size (t, ty, pl))"
proof -
  have l: "length ty < 256" "length pl < 256" using assms by auto
  then have "\<not> (of_nat (length pl) :: u16) > 0xFF"
    by (simp add: word_less_nat_alt u16_small not_less)
  then show "record_bytes mb me t (of_nat (length ty)) (of_nat (length pl)) (ty @ [0]) (pl @ [0]) =
           enc_record mb me (t, ty, pl)"
    and "record_length (of_nat (length ty)) (of_nat (length pl)) = of_nat (note_size (t, ty, pl))"
    using l by (simp_all add: record_bytes_def record_length_def note_flags_def u8_small u16_small lo8_of_nat ac_simps)
qed

section \<open>A message on the tag\<close>

text \<open>The cells hold a message of the records \<open>st\<close> with a one-byte length.\<close>

definition msg_at :: "u8 \<Rightarrow> u8 list \<Rightarrow> cells \<Rightarrow> bool" where
  "msg_at dev st c \<longleftrightarrow> c dev 8 = ST25DV_TYPE5_NDEF_MESSAGE \<and> c dev 9 = of_nat (length st) \<and>
     get_cells dev 10 (length st) c = st"

lemma get_cells_iff: "get_cells dev a (length bs) c = bs \<longleftrightarrow> (\<forall>i<length bs. c dev (a + i) = bs ! i)"
  unfolding get_cells_def by (subst list_eq_iff_nth_eq) simp

lemma get_cells_append:
  "get_cells dev a (m + n) c = get_cells dev a m c @ get_cells dev (a + m) n c"
  using upt_add_eq_append [of a "a + m" n] by (simp add: get_cells_def add.assoc)

lemma get_put [simp]: "get_cells dev a (length bs) (put_cells dev a bs c) = bs"
  by (auto simp: get_cells_iff put_cells_def)

lemma get_put_other:
  "a + k \<le> b \<or> b + length bs \<le> a \<Longrightarrow> get_cells dev a k (put_cells dev b bs c) = get_cells dev a k c"
  by (auto simp: get_cells_def put_cells_def)

lemma put_other: "a < b \<or> b + length bs \<le> a \<Longrightarrow> put_cells dev b bs c dev a = c dev a"
  by (auto simp: put_cells_def)

lemma length_get_cells [simp]: "length (get_cells dev a n c) = n"
  by (simp add: get_cells_def)

lemma msg_at_first:
  assumes "length st < 256"
  shows "msg_at dev st (put_cells dev 8 (ST25DV_TYPE5_NDEF_MESSAGE # of_nat (length st) # st) c)"
  using assms by (auto simp: msg_at_def get_cells_iff put_cells_def nth_Cons')

lemma msg_at_add:
  assumes "msg_at dev st c"
  shows "msg_at dev (st @ bs)
           (put_cells dev (10 + length st) bs (put_cells dev 9 [of_nat (length st + length bs)] c))"
proof -
  let ?c = "put_cells dev (10 + length st) bs (put_cells dev 9 [of_nat (length st + length bs)] c)"
  have "get_cells dev 10 (length (st @ bs)) ?c = st @ bs"
    using assms by (simp add: get_cells_append get_put_other msg_at_def del: One_nat_def)
  then show ?thesis using assms by (simp add: msg_at_def put_other) (simp add: put_cells_def)
qed

lemma msg_at_beyond:
  "msg_at dev st c \<Longrightarrow> 10 + length st \<le> a \<Longrightarrow> msg_at dev st (put_cells dev a bs c)"
  by (simp add: msg_at_def get_put_other put_other)

lemma put_cells_same: "put_cells dev a [x] c dev a = x"
  by (simp add: put_cells_def)

context eeprom_bus begin

text \<open>The terminator after the last record.\<close>

lemma terminator_law:
  assumes "ready s" "dev < 128" "msg_at dev st (view s)" "10 + length st < 65536"
  shows "\<exists>e s'. (if me then st25dv_write_byte drv (Suc n) dev (of_nat (10 + length st)) ST25DV_TYPE5_TERMINATOR_TLV s
                 else Some (ESP_OK, s)) = Some (e, s') \<and> ready s' \<and> msg_at dev st (view s') \<and>
           (me \<longrightarrow> view s' dev (10 + length st) = ST25DV_TYPE5_TERMINATOR_TLV)"
proof (cases me)
  case True
  have a: "unat (of_nat (10 + length st) :: u16) = 10 + length st" using assms(4) by (rule u16_small)
  from write_byte_law [OF assms(1,2), of n "of_nat (10 + length st)" ST25DV_TYPE5_TERMINATOR_TLV] a
  show ?thesis using True msg_at_beyond [OF assms(3), of "10 + length st"] put_cells_same by fastforce
qed (use assms in auto)

lemma write_first:
  assumes "ready s" "user_address cfg = dev" "dev < 128" "note_ok r" "note_size r \<le> 254"
  shows "\<exists>s'. st25dv_ndef_write_content drv (Suc n) undef cfg 8 True me (c_record r) s =
             Some (ESP_OK, of_nat (10 + note_size r), s') \<and> ready s' \<and>
           msg_at dev (enc_record True me r) (view s') \<and>
           (me \<longrightarrow> view s' dev (10 + note_size r) = ST25DV_TYPE5_TERMINATOR_TLV)"
proof -
  obtain t ty pl where r: "r = (t, ty, pl)" by (cases r) auto
  let ?st = "enc_record True me r"
  let ?data = "ST25DV_TYPE5_NDEF_MESSAGE # of_nat (length ?st) # ?st"
  note short = short_record [OF assms(4) [unfolded r]]
  have len: "note_size (t, ty, pl) \<le> 254" using assms(5) r by simp
  have hdr: "tlv_header (of_nat (note_size (t, ty, pl))) = [ST25DV_TYPE5_NDEF_MESSAGE, of_nat (note_size (t, ty, pl))]"
    using tlv_short [OF len] .
  have nz: "0 \<notin> set ty" "0 \<notin> set pl" using assms(4) r by auto
  have lt: "length ?data \<le> RECORD_BUF_SIZE" "length ?st = note_size (t, ty, pl)"
    using len by (simp_all add: RECORD_BUF_SIZE_def r)
  from write_law [OF assms(1,3), of "length ?data" ?data n 8] obtain s1 where
    w: "st25dv_write drv (Suc n) dev 8 (Some ?data) (length ?data) s = Some (ESP_OK, s1)" "ready s1"
      "view s1 = put_cells dev 8 ?data (view s)"
    by auto
  have m1: "msg_at dev ?st (view s1)"
    using msg_at_first [of ?st dev "view s"] len w(3) by (simp add: r del: enc_record.simps)
  have small: "10 + length ?st < 65536" using len lt(2) by simp
  from terminator_law [OF w(2) assms(3) m1 small, of me n] obtain e s2 where
    tm: "(if me then st25dv_write_byte drv (Suc n) dev (of_nat (10 + length ?st)) ST25DV_TYPE5_TERMINATOR_TLV s1
          else Some (ESP_OK, s1)) = Some (e, s2)" "ready s2" "msg_at dev ?st (view s2)"
      "me \<longrightarrow> view s2 dev (10 + length ?st) = ST25DV_TYPE5_TERMINATOR_TLV"
    by blast
  have "st25dv_ndef_write_content drv (Suc n) undef cfg 8 True me (c_record r) s =
      Some (ESP_OK, of_nat (10 + length ?st), s2)"
    using w(1) tm(1) lt hdr nz assms(2)
    by (cases me)
      (simp_all add: st25dv_ndef_write_content_def r short CCFILE_LENGTH_def Let_def del: enc_record.simps)
  then show ?thesis using tm lt(2) by (auto simp: r)
qed

end

context eeprom_bus begin

lemma update_length_law:
  assumes "ready s" "dev < 128" "msg_at dev st (view s)" "length st + k \<le> 254"
  shows "\<exists>s'. update_length drv (Suc n) undef dev (of_nat k) ra s = Some (ra, s') \<and> ready s' \<and>
           view s' = put_cells dev 9 [of_nat (length st + k)] (view s)"
proof -
  from read_law [OF assms(1,2), of 3 "replicate 3 undef" n 9] obtain s1 where
    rd: "st25dv_read drv (Suc n) dev 9 (Some (replicate 3 undef)) 3 s =
           Some (ESP_OK, Some (get_cells dev 9 3 (view s)), s1)" "ready s1" "view s1 = view s"
    by (auto simp: I2C_BUF_SIZE_def)
  from write_byte_law [OF rd(2) assms(2), of n 9 "of_nat (length st + k)"] obtain s2 where
    wr: "st25dv_write_byte drv (Suc n) dev 9 (of_nat (length st + k)) s1 = Some (ESP_OK, s2)" "ready s2"
      "view s2 = put_cells dev 9 [of_nat (length st + k)] (view s1)"
    by auto
  have l0: "get_cells dev 9 3 (view s) ! 0 = of_nat (length st)"
    using assms(3) by (simp add: get_cells_def msg_at_def)
  have small: "length st < 256" "unat (of_nat (length st + k) :: u16) = length st + k"
    using assms(4) u16_small [of "length st + k"] by simp_all
  have ff: "(of_nat (length st) :: u8) \<noteq> 0xFF"
  proof
    assume "(of_nat (length st) :: u8) = 0xFF"
    then have "unat (of_nat (length st) :: u8) = unat (0xFF :: u8)" by simp
    then show False using assms(4) u8_small [OF small(1)] by simp
  qed
  have total: "ucast (of_nat (length st) :: u8) + of_nat k = (of_nat (length st + k) :: u16)"
    using ucast_of_nat_u8 [OF small(1)] by simp
  have le: "\<not> (of_nat (length st + k) :: u16) > 0xFE"
    using small(2) assms(4) by (simp add: word_less_nat_alt del: of_nat_add)
  have addr: "(of_nat (CCFILE_LENGTH + 1) :: u16) = 9" by (simp add: CCFILE_LENGTH_def)
  show ?thesis
    using wr(2,3) rd(3) unfolding update_length_def addr rd(1) Let_def
    by (simp add: l0 ff total le lo8_of_nat wr(1) del: of_nat_add)
qed

lemma write_next:
  assumes "ready s" "user_address cfg = dev" "dev < 128" "note_ok r" "msg_at dev st (view s)"
    and "10 + length st \<le> 255" "length st + note_size r \<le> 254"
  shows "\<exists>s'. st25dv_ndef_write_content drv (Suc n) undef cfg (of_nat (10 + length st)) False me (c_record r) s =
             Some (ESP_OK, of_nat (10 + length st + note_size r), s') \<and> ready s' \<and>
           msg_at dev (st @ enc_record False me r) (view s') \<and>
           (me \<longrightarrow> view s' dev (10 + length st + note_size r) = ST25DV_TYPE5_TERMINATOR_TLV)"
proof -
  obtain t ty pl where r: "r = (t, ty, pl)" by (cases r) auto
  let ?bs = "enc_record False me r"
  note short = short_record [OF assms(4) [unfolded r]]
  have nz: "0 \<notin> set ty" "0 \<notin> set pl" using assms(4) r by auto
  have bs: "length ?bs = note_size r" "0 < length ?bs" "length ?bs \<le> RECORD_BUF_SIZE"
    using assms(7) by (simp_all add: RECORD_BUF_SIZE_def r)
  have a: "unat (of_nat (10 + length st) :: u16) = 10 + length st" "lo8 (of_nat (10 + length st)) = of_nat (10 + length st)"
      "unat (of_nat (10 + length st) :: u8) = 10 + length st"
      "(ucast (of_nat (10 + length st) :: u8) :: u16) = of_nat (10 + length st)"
    using assms(6) u16_small [of "10 + length st"] u8_small [of "10 + length st"] lo8_of_nat [of "10 + length st"]
      ucast_of_nat_u8 [of "10 + length st"] by linarith+
  from update_length_law [OF assms(1,3,5,7), of n undef "of_nat (10 + length st)"] obtain s1 where
    up: "update_length drv (Suc n) undef dev (of_nat (note_size r)) (of_nat (10 + length st)) s =
           Some (of_nat (10 + length st), s1)" "ready s1"
      "view s1 = put_cells dev 9 [of_nat (length st + note_size r)] (view s)"
    by auto
  from write_law [OF up(2) assms(3) order_refl bs(2), of n "of_nat (10 + length st)"] obtain s2 where
    w: "st25dv_write drv (Suc n) dev (of_nat (10 + length st)) (Some ?bs) (length ?bs) s1 = Some (ESP_OK, s2)" "ready s2"
      "view s2 = put_cells dev (10 + length st) ?bs (view s1)"
    unfolding a(1) by auto
  have m: "msg_at dev (st @ ?bs) (view s2)"
    using msg_at_add [OF assms(5), of ?bs] w(3) up(3) bs(1) by simp
  have small: "10 + length (st @ ?bs) < 65536" using assms(7) bs(1) by simp
  from terminator_law [OF w(2) assms(3) m small, of me n] obtain e s3 where
    tm: "(if me then st25dv_write_byte drv (Suc n) dev (of_nat (10 + length (st @ ?bs))) ST25DV_TYPE5_TERMINATOR_TLV s2
          else Some (ESP_OK, s2)) = Some (e, s3)" "ready s3" "msg_at dev (st @ ?bs) (view s3)"
      "me \<longrightarrow> view s3 dev (10 + length (st @ ?bs)) = ST25DV_TYPE5_TERMINATOR_TLV"
    by blast
  have "st25dv_ndef_write_content drv (Suc n) undef cfg (of_nat (10 + length st)) False me (c_record r) s =
      Some (ESP_OK, of_nat (10 + length st + length ?bs), s3)"
    using up(1) w(1) tm(1) bs nz assms(2) a
    by (cases me)
      (simp_all add: st25dv_ndef_write_content_def r short CCFILE_LENGTH_def Let_def add.assoc
        del: enc_record.simps note_size.simps of_nat_add of_nat_numeral)
  then show ?thesis using tm bs(1) by (auto simp: add.assoc)
qed

end

text \<open>The bytes of a record at cell \<open>a\<close>.\<close>

definition record_at :: "u8 \<Rightarrow> nat \<Rightarrow> bool \<Rightarrow> bool \<Rightarrow> ndef_note \<Rightarrow> cells \<Rightarrow> bool" where
  "record_at dev a mb me r c \<longleftrightarrow> get_cells dev a (note_size r) c = enc_record mb me r"

lemma record_atD:
  assumes "record_at dev a mb me (t, ty, pl) c"
  shows "c dev a = note_flags mb me t" "c dev (a + 1) = of_nat (length ty)"
    "c dev (a + 2) = of_nat (length pl)" "get_cells dev (a + 4) (length ty) c = ty"
    "get_cells dev (a + 4 + length ty) (length pl) c = pl"
proof -
  have eq: "get_cells dev a (4 + length ty + length pl) c =
      [note_flags mb me t, of_nat (length ty), of_nat (length pl), 0] @ ty @ pl"
    using assms by (simp add: record_at_def)
  let ?H = "[note_flags mb me t, of_nat (length ty), of_nat (length pl), 0]"
  let ?A = "get_cells dev a 4 c"
  let ?B = "get_cells dev (a + 4) (length ty) c" and ?C = "get_cells dev (a + 4 + length ty) (length pl) c"
  have "?A @ ?B @ ?C = ?H @ ty @ pl" using eq by (simp add: get_cells_append add.assoc)
  then have "?A = ?H" "?B @ ?C = ty @ pl"
    using append_eq_append_conv [of ?A ?H "?B @ ?C" "ty @ pl"] by simp_all
  then have "?A = ?H" "?B = ty" "?C = pl" by simp_all
  then show "c dev a = note_flags mb me t" "c dev (a + 1) = of_nat (length ty)"
    "c dev (a + 2) = of_nat (length pl)" "get_cells dev (a + 4) (length ty) c = ty"
    "get_cells dev (a + 4 + length ty) (length pl) c = pl"
    by (simp_all add: get_cells_def numeral_eq_Suc upt_rec)
qed

context eeprom_bus begin

lemma read_checked_law:
  assumes "ready s" "dev < 128" "k \<le> I2C_BUF_SIZE" "a < 65536"
  shows "\<exists>s'. read_checked drv (Suc n) undef dev (of_nat a) k s = Some (get_cells dev a k (view s), s') \<and>
           ready s' \<and> view s' = view s"
  using read_law [OF assms(1,2) _ assms(3), of "replicate k undef" n "of_nat a"] u16_small [OF assms(4)]
  by (auto simp: read_checked_def)

lemma read_header_law:
  assumes "ready s" "dev < 128" "record_at dev a mb me (t, ty, pl) (view s)" "length pl < 256" "a + 4 < 65536"
  shows "\<exists>s'. read_header drv (Suc n) undef dev (of_nat a) s =
             Some (note_flags mb me t, of_nat (length ty), of_nat (length pl), of_nat (a + 4), s') \<and>
           ready s' \<and> view s' = view s"
proof -
  note cell = record_atD [OF assms(3)]
  have one: "get_cells dev i (Suc 0) c = [c dev i]" for i c by (simp add: get_cells_def)
  have sz: "Suc 0 \<le> I2C_BUF_SIZE" by (simp add: I2C_BUF_SIZE_def)
  obtain s1 where 1: "read_checked drv (Suc n) undef dev (of_nat a) (Suc 0) s = Some ([note_flags mb me t], s1)"
      "ready s1" "view s1 = view s"
    using read_checked_law [OF assms(1,2) sz, of a n undef] assms(5) cell(1) by (auto simp: one)
  obtain s2 where 2: "read_checked drv (Suc n) undef dev (of_nat (Suc a)) (Suc 0) s1 = Some ([of_nat (length ty)], s2)"
      "ready s2" "view s2 = view s"
    using read_checked_law [OF 1(2) assms(2) sz, of "Suc a" n undef] assms(5) cell(2) 1(3) by (auto simp: one)
  obtain s3 where 3: "read_checked drv (Suc n) undef dev (of_nat (Suc (Suc a))) (Suc 0) s2 = Some ([of_nat (length pl)], s3)"
      "ready s3" "view s3 = view s"
    using read_checked_law [OF 2(2) assms(2) sz, of "Suc (Suc a)" n undef] assms(5) cell(3) 2(3) by (auto simp: one)
  have addr: "(of_nat a + 1 :: u16) = of_nat (Suc a)" "(of_nat (Suc a) + 1 :: u16) = of_nat (Suc (Suc a))"
      "(of_nat (Suc (Suc a)) + 1 + 1 :: u16) = of_nat (a + 4)"
    by simp_all
  show ?thesis
    using 3(2,3) unfolding read_header_def Let_def addr One_nat_def
    by (simp add: 1(1) 2(1) 3(1) addr flags_bits ucast_of_nat_u8 [OF assms(4)] del: of_nat_add of_nat_Suc of_nat_numeral)
qed

lemma read_body_law:
  assumes "ready s" "dev < 128" "record_at dev a mb me (t, ty, pl) (view s)"
    and "length ty < 256" "length pl < 256" "a + 4 + length ty < 65536" "\<forall>k \<le> 256. malloc k"
  shows "\<exists>s'. read_body malloc drv (Suc n) undef dev t (of_nat (length ty)) (of_nat (length pl)) (of_nat (a + 4)) s =
             Some (c_record (t, ty, pl), s') \<and> ready s' \<and> view s' = view s"
proof -
  note cell = record_atD [OF assms(3)]
  have sz: "length ty \<le> I2C_BUF_SIZE" "length pl \<le> I2C_BUF_SIZE"
    using assms(4,5) by (simp_all add: I2C_BUF_SIZE_def)
  obtain s1 where 1: "read_checked drv (Suc n) undef dev (of_nat (a + 4)) (length ty) s = Some (ty, s1)"
      "ready s1" "view s1 = view s"
    using read_checked_law [OF assms(1,2) sz(1), of "a + 4" n undef] assms(6) cell(4) by auto
  obtain s2 where 2: "read_checked drv (Suc n) undef dev (of_nat (a + 4 + length ty)) (length pl) s1 = Some (pl, s2)"
      "ready s2" "view s2 = view s"
    using read_checked_law [OF 1(2) assms(2) sz(2), of "a + 4 + length ty" n undef] assms(6) cell(5) 1(3) by auto
  have addr: "of_nat (a + 4) + ucast (of_nat (length ty) :: u8) = (of_nat (a + 4 + length ty) :: u16)"
    using ucast_of_nat_u8 [OF assms(4)] by simp
  show ?thesis
    using 2(2,3) unfolding read_body_def addr u8_small [OF assms(4)]
    using u16_small [of "length pl"] assms(4,5,7) by (simp add: 1(1) 2(1) del: of_nat_add)
qed

end

section \<open>Sequences of records\<close>

fun stream :: "bool \<Rightarrow> ndef_note list \<Rightarrow> u8 list" where
  "stream mb [] = []"
| "stream mb (r # rs) = enc_record mb (rs = []) r @ stream False rs"

text \<open>
  A client's writes, as in the unit test: the first record starts the message, the last one
  ends it, and \<open>*address\<close> is passed on.
\<close>

fun write_records :: "'b i2c_driver \<Rightarrow> nat \<Rightarrow> u8 \<Rightarrow> st25dv_config \<Rightarrow> u16 \<Rightarrow> bool \<Rightarrow> ndef_note list \<Rightarrow>
    'b st25_state \<Rightarrow> 'b st25_state option" where
  "write_records drv n undef cfg address mb [] s = Some s"
| "write_records drv n undef cfg address mb (r # rs) s =
     do {
       (_, address, s) \<leftarrow> st25dv_ndef_write_content drv n undef cfg address mb (rs = []) (c_record r) s;
       write_records drv n undef cfg address False rs s
     }"

lemma length_stream [simp]: "length (stream mb rs) = sum_list (map note_size rs)"
  by (induction rs arbitrary: mb) simp_all

lemma record_not_terminator:
  "note_ok r \<Longrightarrow> record_at dev a mb me r c \<Longrightarrow> c dev a \<noteq> ST25DV_TYPE5_TERMINATOR_TLV"
  using record_atD(1) flags_not_terminator by (cases r) fastforce

text \<open>The cells from \<open>a\<close> on hold the records of \<open>rs\<close> and a terminator.\<close>

definition stream_at :: "u8 \<Rightarrow> nat \<Rightarrow> bool \<Rightarrow> ndef_note list \<Rightarrow> cells \<Rightarrow> bool" where
  "stream_at dev a mb rs c \<longleftrightarrow> get_cells dev a (length (stream mb rs)) c = stream mb rs \<and>
     c dev (a + length (stream mb rs)) = ST25DV_TYPE5_TERMINATOR_TLV"

lemma stream_at_Cons:
  assumes "stream_at dev a mb (r # rs) c"
  shows "record_at dev a mb (rs = []) r c" "stream_at dev (a + note_size r) False rs c"
proof -
  have "get_cells dev a (note_size r) c @ get_cells dev (a + note_size r) (length (stream False rs)) c =
      enc_record mb (rs = []) r @ stream False rs"
    using assms by (simp add: stream_at_def get_cells_append del: enc_record.simps)
  then have "get_cells dev a (note_size r) c = enc_record mb (rs = []) r"
      "get_cells dev (a + note_size r) (length (stream False rs)) c = stream False rs"
    by (simp_all add: append_eq_append_conv del: enc_record.simps)
  then show "record_at dev a mb (rs = []) r c" "stream_at dev (a + note_size r) False rs c"
    using assms by (simp_all add: record_at_def stream_at_def add.assoc)
qed

context eeprom_bus begin

lemma read_loop_law:
  "rs \<noteq> [] \<Longrightarrow> \<forall>r\<in>set rs. note_ok r \<Longrightarrow> ready s \<Longrightarrow> dev < 128 \<Longrightarrow> stream_at dev a mb rs (view s) \<Longrightarrow>
   a + sum_list (map note_size rs) \<le> CCFILE_LENGTH + unat l_value + 3 \<Longrightarrow>
   a + sum_list (map note_size rs) < 65000 \<Longrightarrow> cn + length rs < 256 \<Longrightarrow> k < 256 \<Longrightarrow> length rs \<le> fuel \<Longrightarrow> \<forall>k \<le> 256. malloc k \<Longrightarrow>
     \<exists>s'. ndef_read_loop fuel malloc drv (Suc n) undef dev enda1 l_value (of_nat k) (of_nat a) out (of_nat cn) s =
            Some (ESP_OK, if cn < k \<and> k \<le> cn + length rs then c_record (rs ! (k - cn - 1)) else out,
                  of_nat (cn + length rs), s') \<and> ready s' \<and> view s' = view s"
proof (induction rs arbitrary: a mb cn out s fuel)
  case Nil
  then show ?case by simp
next
  case (Cons r rs)
  obtain t ty pl where r: "r = (t, ty, pl)" by (cases r) auto
  obtain f where f: "fuel = Suc f" "length rs \<le> f" using Cons.prems(10) by (cases fuel) auto
  have ok: "t AND NDEF_ST25DV_PT = t" "length ty < 256" "length pl < 256" using Cons.prems(2) r by auto
  let ?sz = "note_size r"
  have sz: "?sz = 4 + length ty + length pl" by (simp add: r)
  note at = stream_at_Cons [OF Cons.prems(5)]
  have bound: "a + ?sz + sum_list (map note_size rs) < 65000" using Cons.prems(7) by simp
  have in_loop: "unat (of_nat a :: u16) < CCFILE_LENGTH + unat l_value + 3"
    using Cons.prems(6) bound sz u16_small [of a] by simp
  obtain s1 where h: "read_header drv (Suc n) undef dev (of_nat a) s =
        Some (note_flags mb (rs = []) t, of_nat (length ty), of_nat (length pl), of_nat (a + 4), s1)"
      "ready s1" "view s1 = view s"
    using read_header_law [OF Cons.prems(3,4) at(1) [unfolded r] ok(3)] bound sz by auto
  have cnt: "(of_nat cn + 1 :: u8) = of_nat k \<longleftrightarrow> k = cn + 1"
  proof -
    have "unat (of_nat (cn + 1) :: u8) = cn + 1" "unat (of_nat k :: u8) = k"
      by (rule u8_small, use Cons.prems(8,9) in simp)+
    then show ?thesis by (metis Suc_eq_plus1 add.commute of_nat_Suc)
  qed
  let ?out = "if k = cn + 1 then c_record r else out"
  have body: "\<exists>s2. read_body malloc drv (Suc n) undef dev t (of_nat (length ty)) (of_nat (length pl)) (of_nat (a + 4)) s1 =
      Some (c_record r, s2) \<and> ready s2 \<and> view s2 = view s"
    using read_body_law [OF h(2) Cons.prems(4), of a mb "rs = []" t ty pl malloc n undef] at(1) h(3) bound sz ok Cons.prems(11)
    unfolding r by (simp del: of_nat_add)
  have "\<exists>s2. (if (of_nat cn + 1 :: u8) = of_nat k
        then read_body malloc drv (Suc n) undef dev (note_flags mb (rs = []) t AND NDEF_ST25DV_PT) (of_nat (length ty))
               (of_nat (length pl)) (of_nat (a + 4)) s1
        else Some (out, s1)) = Some (?out, s2) \<and> ready s2 \<and> view s2 = view s"
    using body h(2,3) unfolding cnt flags_tnf [OF ok(1)] by (cases "k = cn + 1") (simp_all del: of_nat_add)
  then obtain s2 where b: "(if (of_nat cn + 1 :: u8) = of_nat k
        then read_body malloc drv (Suc n) undef dev (note_flags mb (rs = []) t AND NDEF_ST25DV_PT) (of_nat (length ty))
               (of_nat (length pl)) (of_nat (a + 4)) s1
        else Some (out, s1)) = Some (?out, s2)" "ready s2" "view s2 = view s"
    by blast
  have addr: "of_nat (a + 4) + ucast (of_nat (length ty) :: u8) + of_nat (length pl) = (of_nat (a + ?sz) :: u16)"
    using ucast_of_nat_u8 [OF ok(2)] by (simp add: sz add.assoc)
  have one: "Suc 0 \<le> I2C_BUF_SIZE" by (simp add: I2C_BUF_SIZE_def)
  obtain s3 where e: "read_checked drv (Suc n) undef dev (of_nat (a + ?sz)) 1 s2 = Some ([view s dev (a + ?sz)], s3)"
      "ready s3" "view s3 = view s"
    using read_checked_law [OF b(2) Cons.prems(4) one, of "a + ?sz" n undef] bound b(3)
    by (auto simp: get_cells_def)
  have step: "ndef_read_loop fuel malloc drv (Suc n) undef dev enda1 l_value (of_nat k) (of_nat a) out (of_nat cn) s =
      (if view s dev (a + ?sz) = ST25DV_TYPE5_TERMINATOR_TLV then Some (ESP_OK, ?out, of_nat cn + 1, s3)
       else ndef_read_loop f malloc drv (Suc n) undef dev enda1 l_value (of_nat k) (of_nat (a + ?sz)) ?out (of_nat cn + 1) s3)"
    unfolding f(1) ndef_read_loop.simps if_P [OF disjI2 [OF in_loop]] h(1) Let_def
    by (simp only: bind.simps prod.case b(1) addr e(1) nth_Cons_0)
  show ?case
  proof (cases "rs = []")
    case True
    then have "view s dev (a + ?sz) = ST25DV_TYPE5_TERMINATOR_TLV"
      using at(2) by (simp add: stream_at_def)
    with step e True show ?thesis by (auto simp: add.commute)
  next
    case False
    then obtain r2 rs2 where rs: "rs = r2 # rs2" by (cases rs) auto
    have "view s dev (a + ?sz) \<noteq> ST25DV_TYPE5_TERMINATOR_TLV"
      using record_not_terminator [of r2] stream_at_Cons(1) [OF at(2) [unfolded rs]] Cons.prems(2) rs by auto
    with step have step': "ndef_read_loop fuel malloc drv (Suc n) undef dev enda1 l_value (of_nat k) (of_nat a) out (of_nat cn) s =
        ndef_read_loop f malloc drv (Suc n) undef dev enda1 l_value (of_nat k) (of_nat (a + ?sz)) ?out (of_nat (Suc cn)) s3"
      by (simp add: add.commute)
    have "\<exists>s'. ndef_read_loop f malloc drv (Suc n) undef dev enda1 l_value (of_nat k) (of_nat (a + ?sz)) ?out (of_nat (Suc cn)) s3 =
        Some (ESP_OK, if Suc cn < k \<and> k \<le> Suc cn + length rs then c_record (rs ! (k - Suc cn - 1)) else ?out,
              of_nat (Suc cn + length rs), s') \<and> ready s' \<and> view s' = view s3"
      using Cons.prems f(2) e(2,3) at(2) False bound by (intro Cons.IH [where mb = False]) auto
    then show ?thesis using e(3) unfolding step' by (auto simp: nth_Cons')
  qed
qed

end

context eeprom_bus begin

lemma write_more:
  "rs \<noteq> [] \<Longrightarrow> \<forall>r\<in>set rs. note_ok r \<Longrightarrow> ready s \<Longrightarrow> user_address cfg < 128 \<Longrightarrow>
   msg_at (user_address cfg) st (view s) \<Longrightarrow> length st + sum_list (map note_size rs) \<le> 245 \<Longrightarrow>
     \<exists>s'. write_records drv (Suc n) undef cfg (of_nat (10 + length st)) False rs s = Some s' \<and> ready s' \<and>
       msg_at (user_address cfg) (st @ stream False rs) (view s') \<and>
       view s' (user_address cfg) (10 + length (st @ stream False rs)) = ST25DV_TYPE5_TERMINATOR_TLV"
proof (induction rs arbitrary: st s)
  case Nil
  then show ?case by simp
next
  case (Cons r rs)
  let ?bs = "enc_record False (rs = []) r"
  have bounds: "10 + length st \<le> 255" "length st + note_size r \<le> 254" using Cons.prems(6) by simp_all
  obtain s1 where w: "st25dv_ndef_write_content drv (Suc n) undef cfg (of_nat (10 + length st)) False (rs = [])
        (c_record r) s = Some (ESP_OK, of_nat (10 + length (st @ ?bs)), s1)" "ready s1"
      "msg_at (user_address cfg) (st @ ?bs) (view s1)"
      "rs = [] \<longrightarrow> view s1 (user_address cfg) (10 + length (st @ ?bs)) = ST25DV_TYPE5_TERMINATOR_TLV"
    using write_next [OF Cons.prems(3) refl Cons.prems(4) _ Cons.prems(5) bounds, of n undef "rs = []"] Cons.prems(2)
    by (auto simp: add.assoc simp del: enc_record.simps)
  show ?case
  proof (cases "rs = []")
    case True
    then show ?thesis using w by simp
  next
    case False
    have "length (st @ ?bs) + sum_list (map note_size rs) \<le> 245" using Cons.prems(6) by simp
    from Cons.IH [OF False _ w(2) Cons.prems(4) w(3) this] Cons.prems(2) w(1) show ?thesis
      by (auto simp del: enc_record.simps of_nat_add of_nat_numeral)
  qed
qed

lemma write_message:
  assumes "rs \<noteq> []" "\<forall>r\<in>set rs. note_ok r" "ready s" "user_address cfg < 128"
    and "sum_list (map note_size rs) \<le> 245"
  shows "\<exists>s'. write_records drv (Suc n) undef cfg 8 True rs s = Some s' \<and> ready s' \<and>
           msg_at (user_address cfg) (stream True rs) (view s') \<and>
           view s' (user_address cfg) (10 + length (stream True rs)) = ST25DV_TYPE5_TERMINATOR_TLV"
proof -
  obtain r rs' where rs: "rs = r # rs'" using assms(1) by (cases rs) auto
  have r: "note_ok r" "note_size r \<le> 254" using assms(2,5) rs by auto
  let ?bs = "enc_record True (rs' = []) r"
  obtain s1 where w: "st25dv_ndef_write_content drv (Suc n) undef cfg 8 True (rs' = []) (c_record r) s =
        Some (ESP_OK, of_nat (10 + length ?bs), s1)" "ready s1" "msg_at (user_address cfg) ?bs (view s1)"
      "rs' = [] \<longrightarrow> view s1 (user_address cfg) (10 + length ?bs) = ST25DV_TYPE5_TERMINATOR_TLV"
    using write_first [OF assms(3) refl assms(4) r, of n undef "rs' = []"] by (auto simp del: enc_record.simps)
  show ?thesis
  proof (cases "rs' = []")
    case True
    then show ?thesis using w by (simp add: rs del: enc_record.simps)
  next
    case False
    have "length ?bs + sum_list (map note_size rs') \<le> 245" using assms(5) rs by simp
    from write_more [OF False _ w(2) assms(4) w(3) this, of n undef] assms(2) rs w(1) show ?thesis
      by (auto simp del: enc_record.simps of_nat_add of_nat_numeral)
  qed
qed

lemma count_sizes: "4 * length rs \<le> sum_list (map note_size rs)"
proof (induction rs)
  case (Cons r rs)
  then show ?case by (cases r) simp
qed simp

lemma read_message:
  assumes "rs \<noteq> []" "\<forall>r\<in>set rs. note_ok r" "ready s" "user_address cfg < 128" "system_address cfg < 128"
    and "sum_list (map note_size rs) \<le> 245" "k < length rs"
    and "msg_at (user_address cfg) (stream True rs) (view s)"
    and "view s (user_address cfg) (10 + length (stream True rs)) = ST25DV_TYPE5_TERMINATOR_TLV" "\<forall>k \<le> 256. malloc k"
  shows "\<exists>s'. st25dv_ndef_read (length rs) malloc drv (Suc n) undef cfg (of_nat (Suc k)) out s =
           Some (ESP_OK, c_record (rs ! k), of_nat (length rs), s')"
proof -
  let ?dev = "user_address cfg" and ?L = "length (stream True rs)"
  have few: "length rs < 256" using count_sizes [of rs] assms(6) by simp
  have L: "?L \<le> 245" using assms(6) by simp
  obtain x s1 where e: "st25dv_read_byte drv (Suc n) (system_address cfg) REG_ENDA1 0 s = Some (ESP_OK, x, s1)"
      "ready s1" "view s1 = view s"
    using read_byte_law [OF assms(3,5)] by blast
  have four: "4 \<le> I2C_BUF_SIZE" by (simp add: I2C_BUF_SIZE_def)
  obtain s2 where t: "read_checked drv (Suc n) undef ?dev (of_nat 8) 4 s1 = Some (get_cells ?dev 8 4 (view s), s2)"
      "ready s2" "view s2 = view s"
    using read_checked_law [OF e(2) assms(4) four, of 8 n undef] e(3) by auto
  have tlv: "get_cells ?dev 8 4 (view s) ! 0 = ST25DV_TYPE5_NDEF_MESSAGE"
      "get_cells ?dev 8 4 (view s) ! Suc 0 = of_nat ?L"
    using assms(8) by (simp_all add: get_cells_def msg_at_def)
  have small: "?L < 256" using L by simp
  have ff: "(of_nat ?L :: u8) \<noteq> 0xFF"
  proof
    assume "(of_nat ?L :: u8) = 0xFF"
    then have "unat (of_nat ?L :: u8) = unat (0xFF :: u8)" by (rule arg_cong)
    then show False using L unfolding u8_small [OF small] by simp
  qed
  have at: "stream_at ?dev 10 True rs (view s2)"
    using assms(8,9) t(3) by (simp add: stream_at_def msg_at_def)
  have lv: "unat (ucast (of_nat ?L :: u8) :: u16) = ?L"
    using ucast_of_nat_u8 [OF small] u16_small [of ?L] L by simp
  have "\<exists>s'. ndef_read_loop (length rs) malloc drv (Suc n) undef ?dev (x * 32 + 31) (ucast (of_nat ?L :: u8))
      (of_nat (Suc k)) (of_nat 10) out (of_nat 0) s2 =
        Some (ESP_OK, if 0 < Suc k \<and> Suc k \<le> 0 + length rs then c_record (rs ! (Suc k - 0 - 1)) else out,
              of_nat (0 + length rs), s') \<and> ready s' \<and> view s' = view s2"
    using assms(1,2,4,6,7,10) t(2) at few lv
    by (intro read_loop_law [where mb = True]) (simp_all add: CCFILE_LENGTH_def)
  then obtain s' where "ndef_read_loop (length rs) malloc drv (Suc n) undef ?dev (x * 32 + 31) (ucast (of_nat ?L :: u8))
      (of_nat (Suc k)) 10 out 0 s2 = Some (ESP_OK, c_record (rs ! k), of_nat (length rs), s')"
    using assms(7) by auto
  moreover have "(of_nat CCFILE_LENGTH :: u16) = of_nat 8" "(of_nat (CCFILE_LENGTH + 2) :: u16) = 10"
    by (simp_all add: CCFILE_LENGTH_def)
  ultimately show ?thesis
    using ff unfolding st25dv_ndef_read_def e(1) by (simp add: t(1) tlv del: of_nat_Suc of_nat_numeral)
qed

end

section \<open>The properties\<close>

text \<open>C22: On any bus that behaves like an ideal memory chip (no time for a write, no failing transfer),
  reading back record \<open>k\<close> after writing a sequence of records (short strings, at most 245 bytes
  together), with memory for its strings, gives its type name format, its type and its payload, and
  the number of records.\<close>

theorem ndef_roundtrip:
  assumes "eeprom_bus drv cells" "ready s" "user_address cfg < 128" "system_address cfg < 128"
    and "\<forall>r\<in>set rs. note_ok r" "sum_list (map note_size rs) \<le> 245" "k < length rs" "\<forall>m \<le> 256. malloc m"
  shows "\<exists>s1 s2. write_records drv (Suc n) undef cfg 8 True rs s = Some s1 \<and>
           st25dv_ndef_read (length rs) malloc drv (Suc n) undef cfg (of_nat (Suc k)) out s1 =
             Some (ESP_OK, c_record (rs ! k), of_nat (length rs), s2)"
proof -
  have ne: "rs \<noteq> []" using assms(7) by auto
  from eeprom_bus.write_message [OF assms(1) ne assms(5,2,3,6)]
  obtain s1 where w: "write_records drv (Suc n) undef cfg 8 True rs s = Some s1" "ready s1"
      "msg_at (user_address cfg) (stream True rs) (cells (bus (st_i2c s1)))"
      "cells (bus (st_i2c s1)) (user_address cfg) (10 + length (stream True rs)) = ST25DV_TYPE5_TERMINATOR_TLV"
    by blast
  from eeprom_bus.read_message [OF assms(1) ne assms(5) w(2) assms(3,4,6,7) w(3,4) assms(8)] w(1)
  show ?thesis by blast
qed

text \<open>The ideal chip, with the two records of the unit test.\<close>

definition blank_tag :: "cells st25_state" where
  "blank_tag = st25dv_init_bus 0
     \<lparr>st_i2c = \<lparr>bus = (\<lambda>_ _. 0), i2c_buf = replicate I2C_BUF_SIZE 0, objs = Map.empty, evn_group = 0, i2c_queue = []\<rparr>,
      st_req = \<lparr>i2c_port = 0, device_addr = 0, op_count = 0, reg_addr_16b = False, tr_cplt_callback = None,
                req_res = ESP_OK, ops = Null\<rparr>\<rparr>"

definition tag_config :: st25dv_config where
  "tag_config = \<lparr>user_address = ST25DV_USER_ADDRESS, system_address = ST25DV_SYSTEM_ADDRESS\<rparr>"

definition test_records :: "ndef_note list" where
  "test_records = [(4, butlast NDEF_APP_LAUNCHER_TYPE, [0x63, 0x6F, 0x6D]), (2, butlast NDEF_JSON_TYPE, [0x7B, 0x7D])]"

lemma blank_tag_ready: "ready blank_tag"
  unfolding blank_tag_def by (rule chip.init_ready) simp_all

theorem ndef_roundtrip_witness:
  "\<exists>s1 s2. write_records chip_driver (Suc 0) 0xAA tag_config 8 True test_records blank_tag = Some s1 \<and>
     st25dv_ndef_read (length test_records) (\<lambda>_. True) chip_driver (Suc 0) 0xAA tag_config (of_nat (Suc 1))
       \<lparr>tnf = 0, rec_type = None, payload = None\<rparr> s1 =
       Some (ESP_OK, c_record (test_records ! 1), of_nat (length test_records), s2)"
  by (rule ndef_roundtrip [OF chip.eeprom_bus_axioms blank_tag_ready])
    (simp_all add: tag_config_def ST25DV_USER_ADDRESS_def ST25DV_SYSTEM_ADDRESS_def test_records_def
      NDEF_APP_LAUNCHER_TYPE_def NDEF_JSON_TYPE_def NDEF_ST25DV_PT_def)

lemma strlen_le_length: "strlen s = Some k \<Longrightarrow> k \<le> length s"
  by (auto simp: strlen_def length_takeWhile_le split: if_splits)

lemma first_record_size:
  assumes "i \<le> length ty" "i < 256" "j \<le> length pl" "j < 65000"
  shows "length (tlv_header (record_length (of_nat i) (of_nat j)) @
           record_bytes True me t (of_nat i) (of_nat j) ty pl) \<le> RECORD_BUF_SIZE \<longleftrightarrow> i + j \<le> 250"
proof -
  have i: "unat (of_nat i :: u8) = i" and j: "unat (of_nat j :: u16) = j"
    using assms by (simp_all add: u8_small u16_small)
  have long: "(of_nat j :: u16) > 0xFF \<longleftrightarrow> j > 255" by (simp add: word_less_nat_alt j)
  let ?k = "1 + 1 + (if j > 255 then 4 else 1) + 1 + i + j"
  have "unat (of_nat ?k :: u16) = ?k" using assms(2,4) by (intro u16_small) auto
  then have tlv: "(of_nat ?k :: u16) > 0xFE \<longleftrightarrow> ?k > 254" by (simp add: word_less_nat_alt del: of_nat_add of_nat_Suc)
  have "record_length (of_nat i) (of_nat j) = of_nat ?k"
    unfolding record_length_def long i j ..
  then have "length (tlv_header (record_length (of_nat i) (of_nat j))) = (if ?k > 254 then 4 else 2)"
    using tlv by (simp add: tlv_header_def del: of_nat_add of_nat_Suc)
  moreover have "length (record_bytes True me t (of_nat i) (of_nat j) ty pl) =
      (if j > 255 then 7 else 4) + i + j"
    using assms(1,3) by (simp add: record_bytes_def i j long)
  ultimately show ?thesis by (auto simp: RECORD_BUF_SIZE_def)
qed

text \<open>The first record of a message is written without running past the static buffer of
  256 bytes exactly when its type and payload have at most 250 bytes together, so the forms for
  a longer message or payload can never be written.\<close>

lemma ndef_first_record_fits:
  assumes "eeprom_bus drv cells" "ready s" "user_address cfg < 128"
    and "rec_type r = Some ty" "strlen ty = Some i" "i < 256"
    and "payload r = Some pl" "strlen pl = Some j" "j < 65000"
  shows "(\<exists>x. st25dv_ndef_write_content drv (Suc n) undef cfg 8 True me r s = Some x) \<longleftrightarrow> i + j \<le> 250"
proof -
  let ?d = "tlv_header (record_length (of_nat i) (of_nat j)) @ record_bytes True me (tnf r) (of_nat i) (of_nat j) ty pl"
  have len: "i \<le> length ty" "j \<le> length pl" using assms(5,8) strlen_le_length by auto
  have eq: "st25dv_ndef_write_content drv (Suc n) undef cfg 8 True me r s =
      (if length ?d > RECORD_BUF_SIZE then None
       else do {
         (_, s) \<leftarrow> st25dv_write drv (Suc n) (user_address cfg) 8 (Some ?d) (length ?d) s;
         (_, s) \<leftarrow> (if me then st25dv_write_byte drv (Suc n) (user_address cfg) (of_nat (8 + length ?d))
                     ST25DV_TYPE5_TERMINATOR_TLV s else Some (ESP_OK, s));
         Some (ESP_OK, of_nat (8 + length ?d), s)
       })"
    by (cases me) (simp_all add: st25dv_ndef_write_content_def assms(4,5,7,8) CCFILE_LENGTH_def Let_def)
  have pos: "0 < length ?d" by (simp add: tlv_header_def)
  obtain s1 where w: "st25dv_write drv (Suc n) (user_address cfg) 8 (Some ?d) (length ?d) s = Some (ESP_OK, s1)" "ready s1"
    using eeprom_bus.write_law [OF assms(1-3) order_refl pos, of n 8] by blast
  obtain s2 where "st25dv_write_byte drv (Suc n) (user_address cfg) (of_nat (8 + length ?d))
      ST25DV_TYPE5_TERMINATOR_TLV s1 = Some (ESP_OK, s2)"
    using eeprom_bus.write_byte_law [OF assms(1) w(2) assms(3)] by blast
  with w(1) have "(\<exists>x. st25dv_ndef_write_content drv (Suc n) undef cfg 8 True me r s = Some x) \<longleftrightarrow>
      length ?d \<le> RECORD_BUF_SIZE"
    unfolding eq by (cases me) auto
  then show ?thesis using first_record_size [OF len(1) assms(6) len(2) assms(9)] by simp
qed

lemma ndef_first_record_fits_witness:
  "(\<exists>x. st25dv_ndef_write_content chip_driver (Suc 0) 0 tag_config 8 True True
      \<lparr>tnf = 4, rec_type = Some [0x61, 0], payload = Some (replicate 250 0x62 @ [0])\<rparr> blank_tag = Some x) \<longleftrightarrow>
    1 + 250 \<le> (250 :: nat)"
  by (rule ndef_first_record_fits [OF chip.eeprom_bus_axioms blank_tag_ready, where ty = "[0x61, 0]" and pl = "replicate 250 0x62 @ [0]"])
    (simp_all add: tag_config_def ST25DV_USER_ADDRESS_def strlen_def takeWhile_append)

text \<open>Without memory for the strings of the record it looks for the reader has no result.\<close>

lemma read_without_memory: "read_body (\<lambda>_. False) drv n undef dev payload_type type_length payload_length address s = None"
  by (simp add: read_body_def)

section \<open>Deleting a record\<close>

text \<open>
  \<open>st25dv_ndef_delete_records\<close>: \<open>live\<close> are the blocks \<open>malloc\<close> gave out and that were not freed, the
  record is the pair of its pointers.  Freeing the null pointer does nothing; freeing a block that
  is not live is undefined.
\<close>

definition free_block :: "ptr \<Rightarrow> nat set \<Rightarrow> nat set option" where
  "free_block p live =
     (case p of None \<Rightarrow> Some live | Some b \<Rightarrow> if b \<in> live then Some (live - {b}) else None)"

definition st25dv_ndef_delete_records :: "ptr \<times> ptr \<Rightarrow> nat set \<Rightarrow> (esp_err \<times> nat set) option" where
  "st25dv_ndef_delete_records rec live =
     do {
       live \<leftarrow> free_block (fst rec) live;
       live \<leftarrow> free_block (snd rec) live;
       Some (ESP_OK, live)
     }"

text \<open>The two strings of a record are freed and nothing else; the pointers stay, so a second call is undefined.\<close>

lemma delete_frees_record:
  "t \<noteq> p \<Longrightarrow> {t, p} \<subseteq> live \<Longrightarrow>
   st25dv_ndef_delete_records (Some t, Some p) live = Some (ESP_OK, live - {t, p})"
  by (auto simp: st25dv_ndef_delete_records_def free_block_def)

lemma delete_twice:
  "st25dv_ndef_delete_records (Some t, p) live = Some (e, live') \<Longrightarrow>
   st25dv_ndef_delete_records (Some t, p) live' = None"
  by (auto simp: st25dv_ndef_delete_records_def free_block_def split: option.splits if_splits)

end
