(* ===== verification/Dns_Server.thy ===== *)
theory Dns_Server
  imports Device
begin

text \<open>
  The DNS server of the set-up access point, the response handler of
  \<open>components/device_network/dns_server.c\<close>.  A buffer is the list of its bytes; a read or write
  outside it is \<open>None\<close>.  The hostname is the list of its characters without the terminator.
  The lemmas show that for a buffer of 512 bytes the handler makes no such access, which
  queries it answers, and what the answer is.
\<close>

definition UDP_SEND_BUF_SIZE :: nat where "UDP_SEND_BUF_SIZE = 512"
definition UDP_RECV_BUF_SIZE :: nat where "UDP_RECV_BUF_SIZE = 512"

definition DNS_HEADER_SIZE :: nat where "DNS_HEADER_SIZE = 12"
definition DNS_ANSWER_SIZE :: nat where "DNS_ANSWER_SIZE = 14"

text \<open>\<open>device.local\<close>\<close>

definition DEF_LOCAL_HOSTNAME :: "u8 list" where
  "DEF_LOCAL_HOSTNAME = [0x64, 0x65, 0x76, 0x69, 0x63, 0x65, 0x2E, 0x6C, 0x6F, 0x63, 0x61, 0x6C]"

definition tolower :: "u8 \<Rightarrow> u8" where
  "tolower c = (if 0x41 \<le> c \<and> c \<le> 0x5A then c + 32 else c)"

section \<open>Matching the name\<close>

text \<open>
  The inner loop over the \<open>k\<close> remaining bytes of a label: \<open>Some None\<close> is a mismatch, otherwise
  the rest of the hostname.
\<close>

fun match_label :: "nat \<Rightarrow> nat \<Rightarrow> u8 list \<Rightarrow> u8 list \<Rightarrow> u8 list option option" where
  "match_label 0 off packet h = Some (Some h)"
| "match_label (Suc k) off packet [] = Some None"
| "match_label (Suc k) off packet (c # h) =
     do {
       b \<leftarrow> byte_at packet off;
       if tolower b \<noteq> tolower c then Some None else match_label k (Suc off) packet h
     }"

definition skip_dot :: "u8 list \<Rightarrow> u8 list" where
  "skip_dot h = (if h \<noteq> [] \<and> hd h = 0x2E then tl h else h)"

function match_labels :: "u8 list \<Rightarrow> nat \<Rightarrow> nat \<Rightarrow> u8 list \<Rightarrow> bool option" where
  "match_labels packet len offset h =
     (if offset < len \<and> h \<noteq> [] \<and> byte_at packet offset \<noteq> None \<and> byte_at packet offset \<noteq> Some 0
      then (let label_len = unat (the (byte_at packet offset)) in
            if offset + 1 + label_len > len then Some False
            else
              (case match_label label_len (offset + 1) packet h of
                 None \<Rightarrow> None
               | Some None \<Rightarrow> Some False
               | Some (Some h') \<Rightarrow> match_labels packet len (offset + 1 + label_len) (skip_dot h')))
      else do { b \<leftarrow> byte_at packet offset; Some (b = 0 \<and> h = []) })"
  by pat_completeness auto
termination
  by (relation "measure (\<lambda>(packet, len, offset, h). len - offset)") auto

declare match_labels.simps [simp del]

definition dns_hostname_match :: "u8 list \<Rightarrow> nat \<Rightarrow> u8 list \<Rightarrow> bool option" where
  "dns_hostname_match packet len host =
     (if len < DNS_HEADER_SIZE then Some False
      else match_labels packet len DNS_HEADER_SIZE host)"

section \<open>The answer\<close>

text \<open>
  The loop over the labels of the question: \<open>Some None\<close> is the early \<open>return -1\<close>, otherwise the
  offset of the terminator.  The byte is read before its offset is compared.
\<close>

function skip_name :: "u8 list \<Rightarrow> nat \<Rightarrow> nat option option" where
  "skip_name query offset =
     (case byte_at query offset of
        None \<Rightarrow> None
      | Some b \<Rightarrow>
          if b \<noteq> 0 \<and> offset < UDP_SEND_BUF_SIZE
          then (if offset + unat b \<ge> UDP_SEND_BUF_SIZE then Some None
                else skip_name query (offset + unat b + 1))
          else Some (Some offset))"
  by pat_completeness auto
termination
  by (relation "measure (\<lambda>(query, offset). UDP_SEND_BUF_SIZE - offset)") auto

declare skip_name.simps [simp del]

text \<open>The answer in network order: a pointer to the name, type A, class IN, 120 s, 4 bytes.\<close>

definition dns_answer :: "ipv4_t \<Rightarrow> u8 list" where
  "dns_answer host_ip = [0xC0, 0x0C, 0, 1, 0, 1, 0, 0, 0, 120, 0, 4] @ ipv4_bytes host_ip"

text \<open>\<open>dns_response_handler\<close>: the returned length and the response buffer.\<close>

definition dns_response_handler ::
  "u8 list option \<Rightarrow> nat \<Rightarrow> u8 list option \<Rightarrow> ipv4_t \<Rightarrow> (int \<times> u8 list option) option" where
  "dns_response_handler query query_len response host_ip =
     (if query = None \<or> response = None \<or> query_len = 0 \<or> host_ip = 0 then Some (-1, response)
      else do {
        m \<leftarrow> dns_hostname_match (the query) query_len DEF_LOCAL_HOSTNAME;
        if \<not> m then Some (-1, response)
        else do {
          buf \<leftarrow> put_bytes 0 (replicate UDP_SEND_BUF_SIZE 0) (the response);
          hdr \<leftarrow> get_bytes 0 DNS_HEADER_SIZE (the query);
          buf \<leftarrow> put_bytes 0 hdr buf;
          buf \<leftarrow> put_bytes 6 [0, 1] buf;
          r \<leftarrow> skip_name (the query) DNS_HEADER_SIZE;
          (case r of
             None \<Rightarrow> Some (-1, Some buf)
           | Some offset \<Rightarrow>
               (let offset = offset + 5 in
                if offset \<ge> UDP_SEND_BUF_SIZE then Some (-1, Some buf)
                else do {
                  question \<leftarrow> get_bytes DNS_HEADER_SIZE (offset - DNS_HEADER_SIZE) (the query);
                  buf \<leftarrow> put_bytes DNS_HEADER_SIZE question buf;
                  if offset + 2 + DNS_ANSWER_SIZE > UDP_SEND_BUF_SIZE then Some (-1, Some buf)
                  else do {
                    buf \<leftarrow> put_bytes offset (dns_answer host_ip) buf;
                    Some (int (offset + 2 + DNS_ANSWER_SIZE), Some buf)
                  }
                }))
        }
      })"

section \<open>A match bounds the name\<close>

text \<open>
  A matching name has at least one character of the hostname per label, so it ends within
  twice the length of the hostname.
\<close>

lemma match_label_safe:
  "off + k \<le> length packet \<Longrightarrow> \<exists>r. match_label k off packet h = Some r"
  by (induction k off packet h rule: match_label.induct) auto

lemma match_label_rest:
  "match_label k off packet h = Some (Some h') \<Longrightarrow> length h = k + length h'"
  by (induction k off packet h rule: match_label.induct)
    (auto simp: Option.bind_eq_Some_conv split: if_splits)

lemma skip_dot_le: "length (skip_dot h) \<le> length h"
  by (simp add: skip_dot_def)

lemma match_labels_safe:
  "len < length packet \<or> len = length packet \<and> 2 * length h + offset < len \<Longrightarrow> offset \<le> len \<Longrightarrow>
     \<exists>r. match_labels packet len offset h = Some r"
proof (induction packet len offset h rule: match_labels.induct)
  case (1 packet len offset h)
  have off: "offset < length packet" using "1.prems" by auto
  show ?case
  proof (cases "offset < len \<and> h \<noteq> [] \<and> byte_at packet offset \<noteq> Some 0")
    case False
    then show ?thesis using off by (subst match_labels.simps) auto
  next
    case True
    then have c: "offset < len \<and> h \<noteq> [] \<and> byte_at packet offset \<noteq> None \<and> byte_at packet offset \<noteq> Some 0"
      using off by simp
    let ?k = "unat (the (byte_at packet offset))"
    have pos: "0 < ?k" using True off by (simp add: unat_gt_0)
    show ?thesis
    proof (cases "offset + 1 + ?k > len")
      case True
      then show ?thesis
        by (subst match_labels.simps, subst if_P [OF c]) (auto intro: exI [of _ False])
    next
      case fits: False
      have "len \<le> length packet" using "1.prems"(1) by auto
      with fits have "offset + 1 + ?k \<le> length packet" by linarith
      then obtain r where r: "match_label ?k (offset + 1) packet h = Some r"
        using match_label_safe by blast
      show ?thesis
      proof (cases r)
        case None
        then show ?thesis using r fits by (subst match_labels.simps, subst if_P [OF c]) (auto simp: Let_def intro: exI [of _ False])
      next
        case (Some h')
        have hlen: "length h = ?k + length h'" using match_label_rest r Some by blast
        have "2 * length (skip_dot h') + (offset + 1 + ?k) \<le> 2 * length h + offset"
          using hlen pos skip_dot_le [of h'] by linarith
        then have "len < length packet \<or>
            len = length packet \<and> 2 * length (skip_dot h') + (offset + 1 + ?k) < len"
          using "1.prems"(1) by linarith
        from "1.IH" [OF c refl fits _ _ this] r Some fits show ?thesis
          by (subst match_labels.simps, subst if_P [OF c]) (simp add: Let_def)
      qed
    qed
  qed
qed

text \<open>A match is found again by \<open>skip_name\<close>.\<close>

lemma match_labels_skip:
  "match_labels packet len offset h = Some True \<Longrightarrow> offset \<le> len \<Longrightarrow> offset + 2 * length h < UDP_SEND_BUF_SIZE \<Longrightarrow>
     \<exists>t. skip_name packet offset = Some (Some t) \<and> offset \<le> t \<and> t \<le> offset + 2 * length h \<and> t < length packet"
proof (induction packet len offset h rule: match_labels.induct)
  case (1 packet len offset h)
  show ?case
  proof (cases "offset < len \<and> h \<noteq> [] \<and> byte_at packet offset \<noteq> None \<and> byte_at packet offset \<noteq> Some 0")
    case False
    with "1.prems"(1) have "byte_at packet offset = Some 0"
      by (subst (asm) match_labels.simps, subst (asm) if_not_P [OF False]) (auto simp: Option.bind_eq_Some_conv)
    then show ?thesis by (subst skip_name.simps) (auto simp: byte_at_def split: if_splits)
  next
    case True
    then obtain b where b: "byte_at packet offset = Some b" "b \<noteq> 0" by auto
    have fits: "\<not> offset + 1 + unat b > len"
      using "1.prems"(1) b by (subst (asm) match_labels.simps, subst (asm) if_P [OF True]) (auto split: if_splits)
    then obtain h' where h': "match_label (unat b) (offset + 1) packet h = Some (Some h')"
        "match_labels packet len (offset + 1 + unat b) (skip_dot h') = Some True"
      using "1.prems"(1) b
      by (subst (asm) match_labels.simps, subst (asm) if_P [OF True]) (auto simp: Let_def split: option.splits)
    have pos: "0 < unat b" using b(2) by (simp add: unat_gt_0)
    have len: "length h = unat b + length h'" using match_label_rest h'(1) by blast
    then have bound: "offset + 1 + unat b + 2 * length (skip_dot h') \<le> offset + 2 * length h"
      using skip_dot_le [of h'] pos by auto
    then have "offset + 1 + unat b + 2 * length (skip_dot h') < UDP_SEND_BUF_SIZE" using "1.prems"(3) by simp
    from "1.IH" [OF True refl, unfolded b(1) option.sel, OF fits h'(1) refl h'(2) _ this] fits obtain t where
      t: "skip_name packet (offset + 1 + unat b) = Some (Some t)" "offset + 1 + unat b \<le> t"
        "t \<le> offset + 1 + unat b + 2 * length (skip_dot h')" "t < length packet"
      by auto
    have "offset < UDP_SEND_BUF_SIZE" "\<not> offset + unat b \<ge> UDP_SEND_BUF_SIZE"
      using "1.prems"(3) len by auto
    then have "skip_name packet offset = Some (Some t)"
      using b t(1) by (subst skip_name.simps) (simp add: add.commute add.left_commute)
    then show ?thesis using t(2-4) bound by auto
  qed
qed

section \<open>The response\<close>

lemma length_dns_answer [simp]: "length (dns_answer a) = 16"
  by (simp add: dns_answer_def ipv4_bytes_def IPV4_SIZE_def)

text \<open>The response to a matching query whose name ends at \<open>t\<close>.\<close>

lemma response_bytes:
  assumes "length query = UDP_RECV_BUF_SIZE" "length response = UDP_SEND_BUF_SIZE"
    and "query_len \<noteq> 0" "host_ip \<noteq> 0" "dns_hostname_match query query_len DEF_LOCAL_HOSTNAME = Some True"
    and "skip_name query DNS_HEADER_SIZE = Some (Some t)" "DNS_HEADER_SIZE \<le> t" "t \<le> 400"
  shows "dns_response_handler (Some query) query_len (Some response) host_ip =
           Some (int (t + 21),
             Some (take 6 query @ [0, 1] @ take (t + 5 - 8) (drop 8 query) @ dns_answer host_ip @
                   replicate (UDP_SEND_BUF_SIZE - (t + 21)) 0))"
proof -
  let ?buf0 = "replicate UDP_SEND_BUF_SIZE (0::u8)"
  have b0: "put_bytes 0 ?buf0 response = Some ?buf0" using assms(2) by (simp add: put_bytes_def)
  have hdr: "get_bytes 0 DNS_HEADER_SIZE query = Some (take 12 query)"
    using assms(1) by (simp add: get_bytes_def DNS_HEADER_SIZE_def UDP_RECV_BUF_SIZE_def)
  let ?buf1 = "take 12 query @ replicate (UDP_SEND_BUF_SIZE - 12) 0"
  have b1: "put_bytes 0 (take 12 query) ?buf0 = Some ?buf1"
    using assms(1) by (simp add: put_bytes_def UDP_RECV_BUF_SIZE_def UDP_SEND_BUF_SIZE_def)
  let ?buf2 = "take 6 query @ [0, 1] @ take 4 (drop 8 query) @ replicate (UDP_SEND_BUF_SIZE - 12) 0"
  have b2: "put_bytes 6 [0, 1] ?buf1 = Some ?buf2"
    using assms(1) by (simp add: put_bytes_def UDP_RECV_BUF_SIZE_def UDP_SEND_BUF_SIZE_def drop_take)
  have q: "get_bytes DNS_HEADER_SIZE (t + 5 - DNS_HEADER_SIZE) query = Some (take (t + 5 - 12) (drop 12 query))"
    using assms(1,7,8) by (simp add: get_bytes_def DNS_HEADER_SIZE_def UDP_RECV_BUF_SIZE_def)
  let ?p = "take 6 query @ [0, 1] @ take 4 (drop 8 query)" and ?q = "take (t + 5 - 12) (drop 12 query)"
  have p: "length ?p = DNS_HEADER_SIZE" and pq: "length (?p @ ?q) = t + 5"
    using assms(1,7,8) by (simp_all add: UDP_RECV_BUF_SIZE_def DNS_HEADER_SIZE_def)
  have b3: "put_bytes DNS_HEADER_SIZE ?q ?buf2 = Some ((?p @ ?q) @ replicate (UDP_SEND_BUF_SIZE - (t + 5)) 0)"
    using put_bytes_append [OF p, of ?q "UDP_SEND_BUF_SIZE - 12"] assms(1,7,8) pq
    by (simp add: DNS_HEADER_SIZE_def UDP_RECV_BUF_SIZE_def UDP_SEND_BUF_SIZE_def)
  have b4: "put_bytes (t + 5) (dns_answer host_ip) ((?p @ ?q) @ replicate (UDP_SEND_BUF_SIZE - (t + 5)) 0) =
      Some ((?p @ ?q) @ dns_answer host_ip @ replicate (UDP_SEND_BUF_SIZE - (t + 21)) 0)"
    using put_bytes_append [OF pq, of "dns_answer host_ip" "UDP_SEND_BUF_SIZE - (t + 5)"] assms(8)
    by (simp add: UDP_SEND_BUF_SIZE_def)
  have join: "take 4 (drop 8 query) @ take (t + 5 - 12) (drop 12 query) = take (t + 5 - 8) (drop 8 query)"
    using assms(7) take_add [of 4 "t + 5 - 12" "drop 8 query"] by (simp add: DNS_HEADER_SIZE_def)
  have bounds: "\<not> t + 5 \<ge> UDP_SEND_BUF_SIZE" "\<not> t + 5 + 2 + DNS_ANSWER_SIZE > UDP_SEND_BUF_SIZE"
    using assms(8) by (simp_all add: UDP_SEND_BUF_SIZE_def DNS_ANSWER_SIZE_def)
  show ?thesis
    unfolding dns_response_handler_def option.sel assms(5)
    using assms(3,4,6) bounds b0 hdr b1 b2 q b3 b4 join
    by (simp add: Let_def DNS_ANSWER_SIZE_def)
qed

section \<open>The properties\<close>

lemma dns_handler_memory:
  assumes "length query = UDP_RECV_BUF_SIZE" "query_len \<le> UDP_RECV_BUF_SIZE"
    and "length response = UDP_SEND_BUF_SIZE"
  shows "\<exists>r buf. dns_response_handler (Some query) query_len (Some response) host_ip = Some (r, Some buf) \<and>
           length buf = UDP_SEND_BUF_SIZE \<and> (r = -1 \<or> 0 < r \<and> r \<le> int UDP_SEND_BUF_SIZE)"
proof (cases "query_len = 0 \<or> host_ip = 0")
  case True
  then show ?thesis using assms(3) by (auto simp: dns_response_handler_def)
next
  case False
  have host: "DNS_HEADER_SIZE + 2 * length DEF_LOCAL_HOSTNAME = 36"
    by (simp add: DNS_HEADER_SIZE_def DEF_LOCAL_HOSTNAME_def)
  obtain m where m: "dns_hostname_match query query_len DEF_LOCAL_HOSTNAME = Some m"
  proof (cases "query_len < DNS_HEADER_SIZE")
    case True
    then show thesis using that [of False] by (simp add: dns_hostname_match_def)
  next
    case long: False
    have "query_len < length query \<or>
        query_len = length query \<and> 2 * length DEF_LOCAL_HOSTNAME + DNS_HEADER_SIZE < query_len"
      using assms(1,2) host by (auto simp: UDP_RECV_BUF_SIZE_def)
    with match_labels_safe [OF this] long that show thesis by (auto simp: dns_hostname_match_def)
  qed
  show ?thesis
  proof (cases m)
    case True
    then have ml: "match_labels query query_len DNS_HEADER_SIZE DEF_LOCAL_HOSTNAME = Some True"
        and long: "DNS_HEADER_SIZE \<le> query_len"
      using m by (auto simp: dns_hostname_match_def split: if_splits)
    have "DNS_HEADER_SIZE + 2 * length DEF_LOCAL_HOSTNAME < UDP_SEND_BUF_SIZE"
      using host by (simp add: UDP_SEND_BUF_SIZE_def)
    from match_labels_skip [OF ml long this] host obtain t where
      t: "skip_name query DNS_HEADER_SIZE = Some (Some t)" "DNS_HEADER_SIZE \<le> t" "t \<le> 400"
      by auto
    from response_bytes [OF assms(1,3) _ _ _ t] m True False t(2,3) assms(1) show ?thesis
      by (auto simp: UDP_SEND_BUF_SIZE_def UDP_RECV_BUF_SIZE_def DNS_HEADER_SIZE_def)
  next
    case no: False
    then show ?thesis using m False assms(3) by (simp add: dns_response_handler_def)
  qed
qed

text \<open>For receive and send buffers of 512 bytes, any query bytes, any length up to 512 and
  any address, the handler makes no access outside a buffer; its result is -1 or the length
  of a response that fits the buffer.\<close>

lemma dns_handler_safe:
  assumes "length query = UDP_RECV_BUF_SIZE" "query_len \<le> UDP_RECV_BUF_SIZE"
    and "length response = UDP_SEND_BUF_SIZE"
  shows "\<exists>r buf. dns_response_handler (Some query) query_len (Some response) host_ip = Some (r, Some buf) \<and>
           length buf = UDP_SEND_BUF_SIZE \<and> (r = -1 \<or> 0 < r \<and> r \<le> int UDP_SEND_BUF_SIZE)"
  using assms by (rule dns_handler_memory)

lemma dns_handler_safe_witness:
  "\<exists>r buf. dns_response_handler (Some (replicate UDP_RECV_BUF_SIZE 1)) UDP_RECV_BUF_SIZE
     (Some (replicate UDP_SEND_BUF_SIZE 0)) 1 = Some (r, Some buf) \<and>
     length buf = UDP_SEND_BUF_SIZE \<and> (r = -1 \<or> 0 < r \<and> r \<le> int UDP_SEND_BUF_SIZE)"
  by (rule dns_handler_safe) simp_all

lemma match_label_equal:
  "off + k \<le> length packet \<Longrightarrow> k \<le> length h \<Longrightarrow>
   map tolower (take k (drop off packet)) = map tolower (take k h) \<Longrightarrow>
     match_label k off packet h = Some (Some (drop k h))"
proof (induction k off packet h rule: match_label.induct)
  case (3 k off packet c h)
  have "drop off packet = packet ! off # drop (Suc off) packet"
    using "3.prems"(1) by (simp add: Cons_nth_drop_Suc)
  with 3 show ?case by (simp add: byte_at_def)
qed simp_all

text \<open>One label of a name.\<close>

lemma match_labels_step:
  assumes "offset < len" "offset + 1 + k \<le> len" "len \<le> length packet" "0 < k" "k < 256"
    and "packet ! offset = of_nat k" "k \<le> length h"
    and "map tolower (take k (drop (offset + 1) packet)) = map tolower (take k h)"
  shows "match_labels packet len offset h = match_labels packet len (offset + 1 + k) (skip_dot (drop k h))"
proof -
  have k: "unat (of_nat k :: u8) = k" using assms(5) by (simp add: unat_of_nat take_bit_nat_eq_self)
  have "(of_nat k :: u8) \<noteq> 0" using k assms(4) by (metis not_gr_zero unat_eq_zero)
  moreover have "byte_at packet offset = Some (of_nat k)" using assms(1,3,6) by (simp add: byte_at_def)
  moreover have "h \<noteq> []" using assms(4,7) by auto
  moreover have "match_label k (offset + 1) packet h = Some (Some (drop k h))"
    using assms by (intro match_label_equal) simp_all
  ultimately show ?thesis
    using assms(1,2) k by (subst match_labels.simps) (simp add: Let_def)
qed

text \<open>C24: A query for \<open>device.local\<close>, in upper or lower case, is answered with its header, one
  answer counted, its question, and the address of the device.\<close>

theorem dns_answers_hostname:
  assumes "query = hdr @ [6] @ l1 @ [5] @ l2 @ [0] @ qtype @ rest" "length query = UDP_RECV_BUF_SIZE"
    and "length hdr = DNS_HEADER_SIZE" "length qtype = 4" "length l1 = 6" "length l2 = 5"
    and "map tolower (l1 @ [0x2E] @ l2) = DEF_LOCAL_HOSTNAME"
    and "30 \<le> query_len" "query_len \<le> UDP_RECV_BUF_SIZE" "host_ip \<noteq> 0" "length response = UDP_SEND_BUF_SIZE"
  shows "dns_response_handler (Some query) query_len (Some response) host_ip =
           Some (46, Some (take 6 hdr @ [0, 1] @ drop 8 hdr @ [6] @ l1 @ [5] @ l2 @ [0] @ qtype @
                           dns_answer host_ip @ replicate (UDP_SEND_BUF_SIZE - 46) 0))"
proof -
  have len: "query_len \<le> length query" "length hdr = 12"
    using assms(2,3,9) by (simp_all add: DNS_HEADER_SIZE_def)
  have l: "map tolower l1 = map tolower (take 6 DEF_LOCAL_HOSTNAME)" "map tolower l2 = map tolower (drop 7 DEF_LOCAL_HOSTNAME)"
    using arg_cong [OF assms(7), of "take 6"] arg_cong [OF assms(7), of "drop 7"] assms(5,6)
    by (simp_all add: DEF_LOCAL_HOSTNAME_def tolower_def)
  have at: "byte_at query 12 = Some 6" "byte_at query 19 = Some 5" "byte_at query 25 = Some 0"
    using assms(1,2,4-6) len by (simp_all add: byte_at_def nth_append UDP_RECV_BUF_SIZE_def)
  have nth: "query ! 12 = 6" "query ! 19 = 5" using assms(1,5,6) len by (simp_all add: nth_append)
  have part: "take 6 (drop 13 query) = l1" "take 5 (drop 20 query) = l2"
    using assms(1,5,6) len by simp_all
  have "match_labels query query_len 12 DEF_LOCAL_HOSTNAME = match_labels query query_len 19 (drop 7 DEF_LOCAL_HOSTNAME)"
    using match_labels_step [of 12 query_len 6 query DEF_LOCAL_HOSTNAME] l(1) part(1) nth(1) len(1) assms(8)
    by (simp add: DEF_LOCAL_HOSTNAME_def skip_dot_def)
  also have "\<dots> = match_labels query query_len 25 []"
    using match_labels_step [of 19 query_len 5 query "drop 7 DEF_LOCAL_HOSTNAME"] l(2) part(2) nth(2) len(1) assms(8)
    by (simp add: DEF_LOCAL_HOSTNAME_def skip_dot_def)
  also have "\<dots> = Some True" using at(3) by (subst match_labels.simps) simp
  finally have m: "dns_hostname_match query query_len DEF_LOCAL_HOSTNAME = Some True"
    using assms(8) by (simp add: dns_hostname_match_def DNS_HEADER_SIZE_def)
  have "skip_name query 25 = Some (Some 25)" using at(3) by (subst skip_name.simps) simp
  then have "skip_name query 19 = Some (Some 25)"
    using at(2) by (subst skip_name.simps) (simp add: UDP_SEND_BUF_SIZE_def)
  then have s: "skip_name query DNS_HEADER_SIZE = Some (Some 25)"
    using at(1) by (subst skip_name.simps) (simp add: UDP_SEND_BUF_SIZE_def DNS_HEADER_SIZE_def)
  have "take 22 (drop 8 query) = drop 8 hdr @ [6] @ l1 @ [5] @ l2 @ [0] @ qtype"
    using assms(1,4-6) len by simp
  then show ?thesis
    using response_bytes [OF assms(2,11) _ assms(10) m s] assms(1,8) len
    by (simp add: DNS_HEADER_SIZE_def)
qed

theorem dns_answers_hostname_witness:
  "\<exists>buf. dns_response_handler
     (Some (replicate 12 0 @ [6] @ [0x44, 0x45, 0x56, 0x49, 0x43, 0x45] @ [5] @ [0x6C, 0x6F, 0x63, 0x61, 0x6C] @
            [0] @ [0, 1, 0, 1] @ replicate (UDP_RECV_BUF_SIZE - 30) 0)) 30
     (Some (replicate UDP_SEND_BUF_SIZE 0)) 0x0100A8C0 = Some (46, Some buf)"
  by (rule exI, rule dns_answers_hostname [OF refl])
    (simp_all add: DNS_HEADER_SIZE_def DEF_LOCAL_HOSTNAME_def tolower_def UDP_RECV_BUF_SIZE_def)

end
