(* ===== verification/Udp_Comm.thy ===== *)
theory Udp_Comm
  imports Dns_Server
begin

text \<open>
  The UDP server and client tasks and the servers built on them: \<open>udp_server.c\<close>, \<open>udp_client.c\<close>,
  \<open>ping_sever.c\<close>, \<open>bgcp_server.c\<close> and the start function of \<open>dns_server.c\<close> in
  \<open>components/device_network\<close>.  What lwIP and the rest of the system do in one round of a loop is a
  record of results; a run is a list of rounds.  The locale \<open>udp_handler\<close> is what a server asks
  of its handler; the echo and the DNS handlers provide it.
\<close>

section \<open>Configurations\<close>

text \<open>
  A response handler reads the query buffer and the length of the query, and returns its result
  and the response buffer.  The user context is a part of the handler.
\<close>

type_synonym response_handler = "u8 list \<Rightarrow> nat \<Rightarrow> u8 list \<Rightarrow> (int \<times> u8 list) option"

type_synonym request_handler = "u8 list \<Rightarrow> (int \<times> u8 list) option"

record serv_task_conf_t =
  bit_ctrl :: u32
  serv_conf :: serv_conf_t
  create_response_handler :: "response_handler option"
  bit_en :: u32

record client_task_conf_t =
  cl_bit_ctrl :: u32
  cl_serv_conf :: serv_conf_t
  create_request_handler :: "request_handler option"
  parse_response_handler :: "response_handler option"
  send_interval :: int

section \<open>The server\<close>

datatype 'a recv_result = Recv_again | Recv_failed | Received "u8 list" 'a

text \<open>
  One round: the status bits, the results of \<open>socket\<close>, \<open>bind\<close> and \<open>recvfrom\<close>.
\<close>

record 'a udp_round =
  round_bits :: u32
  open_res :: int
  bind_res :: int
  recv_res :: "'a recv_result"

text \<open>
  The task: its socket (negative for none), its buffers, and what it has done so far.
\<close>

record 'a udp_state =
  sock :: int
  query_buf :: "u8 list"
  response_buf :: "u8 list"
  sent :: "(u8 list \<times> 'a) list"
  opened :: "int list"
  closed :: "int list"

definition udp_socket_create :: "'a udp_round \<Rightarrow> 'a udp_state \<Rightarrow> int \<times> 'a udp_state" where
  "udp_socket_create rd st =
     (if open_res rd < 0 then (-1, st)
      else
        (let st = st\<lparr>opened := opened st @ [open_res rd]\<rparr> in
         if bind_res rd < 0 then (-1, st\<lparr>closed := closed st @ [open_res rd]\<rparr>)
         else (open_res rd, st)))"

definition udp_server_round :: "response_handler \<Rightarrow> 'a udp_round \<Rightarrow> 'a udp_state \<Rightarrow> 'a udp_state option" where
  "udp_server_round handler rd st =
     (let (so, st) = (if sock st < 0 then udp_socket_create rd st else (sock st, st));
          st = st\<lparr>sock := so\<rparr> in
      if so < 0 then Some st
      else
        (case recv_res rd of
           Recv_again \<Rightarrow> Some st
         | Recv_failed \<Rightarrow> Some (st\<lparr>closed := closed st @ [so], sock := -1\<rparr>)
         | Received bs client_addr \<Rightarrow>
             do {
               query \<leftarrow> put_bytes 0 bs (query_buf st);
               (resp_len, response) \<leftarrow> handler query (length bs) (response_buf st);
               let st = st\<lparr>query_buf := query, response_buf := response\<rparr>;
               (if resp_len > 0
                then do {
                  out \<leftarrow> get_bytes 0 (nat resp_len) response;
                  Some (st\<lparr>sent := sent st @ [(out, client_addr)]\<rparr>)
                }
                else Some st)
             }))"

text \<open>
  The loop: whether it has ended, and the state.  It ends, and closes its socket, in the first
  round that finds the control bit clear.
\<close>

fun udp_server_loop :: "u32 \<Rightarrow> response_handler \<Rightarrow> 'a udp_round list \<Rightarrow> 'a udp_state \<Rightarrow> (bool \<times> 'a udp_state) option" where
  "udp_server_loop ctrl handler [] st = Some (False, st)"
| "udp_server_loop ctrl handler (rd # rds) st =
     (if round_bits rd AND ctrl \<noteq> 0
      then do { st \<leftarrow> udp_server_round handler rd st; udp_server_loop ctrl handler rds st }
      else Some (True, if sock st \<ge> 0 then st\<lparr>closed := closed st @ [sock st]\<rparr> else st))"

text \<open>
  \<open>udp_server_task\<close>: \<open>q0\<close> and \<open>r0\<close> are what the stack held where the buffers are; without a
  handler the task deletes itself.
\<close>

definition udp_server_task ::
  "serv_task_conf_t option \<Rightarrow> u8 list \<Rightarrow> u8 list \<Rightarrow> 'a udp_round list \<Rightarrow> (bool \<times> 'a udp_state) option" where
  "udp_server_task pv q0 r0 rds =
     (let st = \<lparr>sock = -1, query_buf = q0, response_buf = r0, sent = [], opened = [], closed = []\<rparr> in
      case pv of
        None \<Rightarrow> Some (True, st)
      | Some conf \<Rightarrow>
          (case create_response_handler conf of
             None \<Rightarrow> Some (True, st)
           | Some handler \<Rightarrow> udp_server_loop (bit_ctrl conf) handler rds st))"

section \<open>The servers\<close>

text \<open>\<open>echo_response_handler\<close>\<close>

definition echo_response_handler :: response_handler where
  "echo_response_handler query query_len response =
     do {
       bs \<leftarrow> get_bytes 0 query_len query;
       response \<leftarrow> put_bytes 0 bs response;
       Some (int query_len, response)
     }"

text \<open>The handler of \<open>dns_server.c\<close> with its context.\<close>

definition dns_handler :: "ipv4_t \<Rightarrow> response_handler" where
  "dns_handler host_ip query query_len response =
     map_option (\<lambda>(r, buf). (r, the buf)) (dns_response_handler (Some query) query_len (Some response) host_ip)"

text \<open>
  The start functions, on the status bits.  \<open>alloc\<close> is the result of \<open>malloc\<close>, a configuration
  with whatever the memory held, and \<open>task_created\<close> the result of \<open>xTaskCreate\<close>.  The result
  is what the function returns, the configuration given to the task, and the bits.
\<close>

definition start_udp_server :: "(serv_task_conf_t \<Rightarrow> bool) \<Rightarrow> serv_task_conf_t \<Rightarrow> bool" where
  "start_udp_server task_created conf = task_created conf"

definition run_server ::
  "(serv_task_conf_t \<Rightarrow> bool) \<Rightarrow> u32 \<Rightarrow> serv_task_conf_t option \<Rightarrow> u32 \<Rightarrow> bool \<times> serv_task_conf_t option \<times> u32" where
  "run_server task_created ctrl conf bits =
     (case conf of
        Some conf \<Rightarrow>
          (let bits = device_set_bits ctrl bits in
           if start_udp_server task_created conf then (True, Some conf, bits)
           else (False, None, device_clear_bits ctrl bits))
      | None \<Rightarrow> (False, None, device_clear_bits ctrl bits))"

definition DNS_SERVER_PORT :: u16 where "DNS_SERVER_PORT = 53"
definition UDP_ECHO_PORT :: u16 where "UDP_ECHO_PORT = 7"

definition start_dns_server ::
  "(serv_task_conf_t \<Rightarrow> bool) \<Rightarrow> serv_task_conf_t option \<Rightarrow> ipv4_t \<Rightarrow> u32 \<Rightarrow> bool \<times> serv_task_conf_t option \<times> u32" where
  "start_dns_server task_created alloc host_ip bits =
     run_server task_created BIT_DNS_SERVER_RUN
       (map_option (\<lambda>c. c\<lparr>bit_ctrl := BIT_DNS_SERVER_RUN,
          serv_conf := (serv_conf c)\<lparr>port := DNS_SERVER_PORT, serv_ip := 0\<rparr>,
          create_response_handler := Some (dns_handler host_ip)\<rparr>) alloc) bits"

definition start_ping_server ::
  "(serv_task_conf_t \<Rightarrow> bool) \<Rightarrow> serv_task_conf_t option \<Rightarrow> u32 \<Rightarrow> bool \<times> serv_task_conf_t option \<times> u32" where
  "start_ping_server task_created alloc bits =
     run_server task_created BIT_ECHO_SERVER_RUN
       (map_option (\<lambda>c. c\<lparr>bit_ctrl := BIT_ECHO_SERVER_RUN,
          serv_conf := (serv_conf c)\<lparr>port := UDP_ECHO_PORT, serv_ip := 0\<rparr>,
          create_response_handler := Some echo_response_handler\<rparr>) alloc) bits"

text \<open>\<open>start_bgcp_server\<close> sets no handler.\<close>

definition start_bgcp_server ::
  "(serv_task_conf_t \<Rightarrow> bool) \<Rightarrow> serv_task_conf_t option \<Rightarrow> serv_conf_t \<Rightarrow> u32 \<Rightarrow> bool \<times> serv_task_conf_t option \<times> u32" where
  "start_bgcp_server task_created alloc sc bits =
     run_server task_created BIT_BGCP_SERVER_RUN
       (map_option (\<lambda>c. c\<lparr>bit_ctrl := BIT_BGCP_SERVER_RUN, serv_conf := sc\<rparr>) alloc) bits"

definition check_bgcp_header :: "u8 list \<Rightarrow> nat \<Rightarrow> bool" where
  "check_bgcp_header query query_len = False"

definition bgcp_response_handler :: response_handler where
  "bgcp_response_handler query query_len response = Some (int query_len, response)"

section \<open>The client\<close>

text \<open>
  The client's rounds add the results of \<open>sendto\<close>; the address a host name resolves to is \<open>resolved\<close>.
  The request is built in, and the response received into, \<open>rx_buffer\<close>.
\<close>

record 'a client_round = "'a udp_round" +
  send_res :: int

definition resolve_hostname_to_ip4 :: "(int \<times> u32 option) \<Rightarrow> u32 option" where
  "resolve_hostname_to_ip4 lookup = (case lookup of (err, res) \<Rightarrow> if err \<noteq> 0 \<or> res = None then None else res)"

definition udp_client_round ::
  "request_handler \<Rightarrow> response_handler \<Rightarrow> 'a \<Rightarrow> 'a client_round \<Rightarrow> 'a udp_state \<Rightarrow> 'a udp_state option" where
  "udp_client_round mk_request parse dest rd st =
     (let st = (if sock st < 0
                then (if open_res rd < 0 then st else st\<lparr>sock := open_res rd, opened := opened st @ [open_res rd]\<rparr>)
                else st) in
      if sock st < 0 then Some st
      else do {
        (req_len, rx) \<leftarrow> mk_request (query_buf st);
        let st = st\<lparr>query_buf := rx\<rparr>;
        (if req_len \<le> 0 then Some st
         else do {
           out \<leftarrow> get_bytes 0 (nat req_len) rx;
           (if send_res rd < 0 then Some st
            else
              (let st = st\<lparr>sent := sent st @ [(out, dest)]\<rparr> in
               case recv_res rd of
                 Received bs source_addr \<Rightarrow>
                   (if bs = [] then Some st
                    else do {
                      rx \<leftarrow> (if length bs \<le> UDP_RECV_BUF_SIZE - 1 then put_bytes 0 bs rx else None);
                      (len, tx) \<leftarrow> parse rx (length bs) (response_buf st);
                      let st = st\<lparr>query_buf := rx, response_buf := tx\<rparr>;
                      (if len > 0
                       then do {
                         out \<leftarrow> get_bytes 0 (nat len) tx;
                         Some (st\<lparr>sent := sent st @ [(out, source_addr)]\<rparr>)
                       }
                       else Some st)
                    })
               | _ \<Rightarrow> Some st))
         })
      })"

fun udp_client_loop ::
  "u32 \<Rightarrow> request_handler \<Rightarrow> response_handler \<Rightarrow> 'a \<Rightarrow> 'a client_round list \<Rightarrow> 'a udp_state \<Rightarrow> (bool \<times> 'a udp_state) option" where
  "udp_client_loop ctrl mk parse dest [] st = Some (False, st)"
| "udp_client_loop ctrl mk parse dest (rd # rds) st =
     (if round_bits rd AND ctrl \<noteq> 0
      then do { st \<leftarrow> udp_client_round mk parse dest rd st; udp_client_loop ctrl mk parse dest rds st }
      else Some (True, if sock st \<ge> 0 then st\<lparr>closed := closed st @ [sock st]\<rparr> else st))"

text \<open>\<open>udp_client_task\<close>, whose destinations are an address and a port.\<close>

definition udp_client_task ::
  "client_task_conf_t option \<Rightarrow> (ptr \<Rightarrow> int \<times> u32 option) \<Rightarrow> u8 list \<Rightarrow> u8 list \<Rightarrow> (u32 \<times> u16) client_round list \<Rightarrow>
     (bool \<times> (u32 \<times> u16) udp_state) option" where
  "udp_client_task pv getaddrinfo rx0 tx0 rds =
     (let st = \<lparr>sock = -1, query_buf = rx0, response_buf = tx0, sent = [], opened = [], closed = []\<rparr> in
      case pv of
        None \<Rightarrow> Some (True, st)
      | Some conf \<Rightarrow>
          (case (create_request_handler conf, parse_response_handler conf) of
             (Some mk, Some parse) \<Rightarrow>
               (if send_interval conf = 0 then Some (True, st)
                else
                  (let sc = cl_serv_conf conf;
                       addr = (if serv_ip sc \<noteq> 0 then Some (serv_ip sc)
                               else if hostname sc = None then None
                               else resolve_hostname_to_ip4 (getaddrinfo (hostname sc))) in
                   case addr of
                     None \<Rightarrow> Some (True, st)
                   | Some addr \<Rightarrow> udp_client_loop (cl_bit_ctrl conf) mk parse (addr, port sc) rds st))
           | _ \<Rightarrow> Some (True, st)))"

definition start_udp_client :: "(client_task_conf_t \<Rightarrow> bool) \<Rightarrow> client_task_conf_t option \<Rightarrow> bool" where
  "start_udp_client task_created conf =
     (case conf of
        None \<Rightarrow> False
      | Some c \<Rightarrow>
          if hostname (cl_serv_conf c) = None \<or> port (cl_serv_conf c) = 0 then False else task_created c)"

section \<open>Serving is safe\<close>

text \<open>
  What the server asks of a handler: on buffers of 512 bytes it makes no access outside them, and
  its result is at most 512.
\<close>

locale udp_handler =
  fixes handler :: response_handler
  assumes handler_safe:
    "length q = UDP_RECV_BUF_SIZE \<Longrightarrow> n \<le> UDP_RECV_BUF_SIZE \<Longrightarrow> length r = UDP_SEND_BUF_SIZE \<Longrightarrow>
       \<exists>k r'. handler q n r = Some (k, r') \<and> length r' = UDP_SEND_BUF_SIZE \<and> k \<le> int UDP_SEND_BUF_SIZE"

text \<open>\<open>recvfrom\<close> stores at most the bytes it was allowed to.\<close>

definition round_ok :: "('a, 'z) udp_round_scheme \<Rightarrow> bool" where
  "round_ok rd = (case recv_res rd of Received bs a \<Rightarrow> length bs \<le> UDP_RECV_BUF_SIZE | _ \<Rightarrow> True)"

definition udp_ok :: "'a udp_state \<Rightarrow> bool" where
  "udp_ok st \<longleftrightarrow>
     length (query_buf st) = UDP_RECV_BUF_SIZE \<and> length (response_buf st) = UDP_SEND_BUF_SIZE \<and>
     opened st = closed st @ (if sock st < 0 then [] else [sock st]) \<and>
     (\<forall>(m, a)\<in>set (sent st). 0 < length m \<and> length m \<le> UDP_SEND_BUF_SIZE)"

lemma put_bytes_front:
  "length bs \<le> length buf \<Longrightarrow> put_bytes 0 bs buf = Some (bs @ drop (length bs) buf)"
  by (simp add: put_bytes_def)

lemma socket_create_ok:
  "udp_ok st \<Longrightarrow> sock st < 0 \<Longrightarrow> udp_socket_create rd st = (so, st') \<Longrightarrow> udp_ok (st'\<lparr>sock := so\<rparr>)"
  by (auto simp: udp_socket_create_def udp_ok_def Let_def split: if_splits)

context udp_handler
begin

lemma round_keeps:
  assumes "udp_ok st" "round_ok rd"
  shows "\<exists>st'. udp_server_round handler rd st = Some st' \<and> udp_ok st'"
proof -
  obtain so st0 where s0: "(if sock st < 0 then udp_socket_create rd st else (sock st, st)) = (so, st0)"
    by (metis surj_pair)
  let ?st = "st0\<lparr>sock := so\<rparr>"
  have ok: "udp_ok ?st" using s0 assms(1) socket_create_ok by (auto split: if_splits)
  show ?thesis
  proof (cases "so < 0")
    case True
    then show ?thesis using s0 ok by (simp add: udp_server_round_def)
  next
    case False
    show ?thesis
    proof (cases "recv_res rd")
      case (Received bs a)
      have len: "length bs \<le> UDP_RECV_BUF_SIZE" using assms(2) Received by (simp add: round_ok_def)
      let ?q = "bs @ drop (length bs) (query_buf ?st)"
      have q: "put_bytes 0 bs (query_buf ?st) = Some ?q" "length ?q = UDP_RECV_BUF_SIZE"
        using ok len put_bytes_front by (auto simp: udp_ok_def)
      have "length (response_buf ?st) = UDP_SEND_BUF_SIZE" using ok by (simp add: udp_ok_def)
      from handler_safe [OF q(2) len this] obtain k r' where
        h: "handler ?q (length bs) (response_buf ?st) = Some (k, r')" "length r' = UDP_SEND_BUF_SIZE"
          "k \<le> int UDP_SEND_BUF_SIZE" by blast
      show ?thesis
      proof (cases "0 < k")
        case True
        then have "get_bytes 0 (nat k) r' = Some (take (nat k) r')" "r' \<noteq> []"
          using h(2,3) by (auto simp: get_bytes_def UDP_SEND_BUF_SIZE_def)
        then show ?thesis using s0 False Received q h True ok
          by (simp add: udp_server_round_def udp_ok_def min_def)
      next
        case no: False
        then show ?thesis using s0 False Received q h ok by (simp add: udp_server_round_def udp_ok_def)
      qed
    qed (use s0 False ok in \<open>auto simp: udp_server_round_def udp_ok_def\<close>)
  qed
qed

lemma loop_keeps:
  "udp_ok st \<Longrightarrow> \<forall>rd\<in>set rds. round_ok rd \<Longrightarrow>
     \<exists>done st'. udp_server_loop ctrl handler rds st = Some (done, st') \<and>
       (\<forall>(m, a)\<in>set (sent st'). 0 < length m \<and> length m \<le> UDP_SEND_BUF_SIZE) \<and> (done \<longrightarrow> closed st' = opened st')"
proof (induction rds arbitrary: st)
  case Nil
  then show ?case by (auto simp: udp_ok_def intro: exI [of _ False])
next
  case (Cons rd rds)
  show ?case
  proof (cases "round_bits rd AND ctrl \<noteq> 0")
    case True
    obtain st1 where "udp_server_round handler rd st = Some st1" "udp_ok st1"
      using round_keeps [of st rd] Cons.prems by auto
    then show ?thesis using Cons.IH [of st1] Cons.prems(2) True by simp
  next
    case False
    then show ?thesis using Cons.prems(1) by (auto simp: udp_ok_def)
  qed
qed

lemma task_safe:
  assumes "length q0 = UDP_RECV_BUF_SIZE" "length r0 = UDP_SEND_BUF_SIZE" "\<forall>rd\<in>set rds. round_ok rd"
    and "create_response_handler conf = Some handler"
  shows "\<exists>done st'. udp_server_task (Some conf) q0 r0 rds = Some (done, st') \<and>
       (\<forall>(m, a)\<in>set (sent st'). 0 < length m \<and> length m \<le> UDP_SEND_BUF_SIZE) \<and> (done \<longrightarrow> closed st' = opened st')"
  using assms loop_keeps [OF _ assms(3)] by (simp add: udp_server_task_def udp_ok_def)

end

interpretation echo: udp_handler echo_response_handler
  by unfold_locales
    (simp add: echo_response_handler_def get_bytes_def put_bytes_def UDP_RECV_BUF_SIZE_def UDP_SEND_BUF_SIZE_def)

lemma dns_handler_contract:
  assumes "length q = UDP_RECV_BUF_SIZE" "n \<le> UDP_RECV_BUF_SIZE" "length r = UDP_SEND_BUF_SIZE"
  shows "\<exists>k r'. dns_handler host_ip q n r = Some (k, r') \<and> length r' = UDP_SEND_BUF_SIZE \<and> k \<le> int UDP_SEND_BUF_SIZE"
  using dns_handler_memory [OF assms, of host_ip] by (auto simp: dns_handler_def)

interpretation dns: udp_handler "dns_handler host_ip" for host_ip
  by unfold_locales (rule dns_handler_contract)

section \<open>The properties\<close>

text \<open>An idle network.\<close>

definition working_round :: "'a recv_result \<Rightarrow> 'a udp_round" where
  "working_round r = \<lparr>round_bits = BIT_DNS_SERVER_RUN OR BIT_ECHO_SERVER_RUN, open_res = 3, bind_res = 0, recv_res = r\<rparr>"

definition blank_conf :: serv_task_conf_t where
  "blank_conf = \<lparr>bit_ctrl = 0, serv_conf = \<lparr>hostname = None, serv_ip = 0, port = 0\<rparr>,
     create_response_handler = None, bit_en = 0\<rparr>"

text \<open>C35: The DNS server started for any address accesses no byte outside its buffers, whatever
  datagrams it receives and whatever its sockets do; each datagram it sends has 1 to 512 bytes,
  and once it has been stopped every socket it opened is closed.\<close>

theorem dns_server_safe:
  assumes "start_dns_server task_created alloc host_ip bits = (True, Some conf, bits')"
    and "length q0 = UDP_RECV_BUF_SIZE" "length r0 = UDP_SEND_BUF_SIZE" "\<forall>rd\<in>set rds. round_ok rd"
  shows "\<exists>done st'. udp_server_task (Some conf) q0 r0 rds = Some (done, st') \<and>
           (\<forall>(m, a)\<in>set (sent st'). 0 < length m \<and> length m \<le> UDP_SEND_BUF_SIZE) \<and>
           (done \<longrightarrow> closed st' = opened st')"
proof -
  have "create_response_handler conf = Some (dns_handler host_ip)"
    using assms(1) by (auto simp: start_dns_server_def run_server_def Let_def split: option.splits if_splits)
  from dns.task_safe [OF assms(2-4) this] show ?thesis .
qed

theorem dns_server_safe_witness:
  "\<exists>conf bits' done st'. start_dns_server (\<lambda>_. True) (Some blank_conf) 5 0 = (True, Some conf, bits') \<and>
     udp_server_task (Some conf) (replicate UDP_RECV_BUF_SIZE 0) (replicate UDP_SEND_BUF_SIZE 0)
       [working_round (Received [1, 2, 3] ()), working_round Recv_failed] = Some (done, st') \<and>
     (\<forall>(m, a)\<in>set (sent st'). 0 < length m \<and> length m \<le> UDP_SEND_BUF_SIZE)"
proof -
  obtain conf bits' where c: "start_dns_server (\<lambda>_. True) (Some blank_conf) 5 0 = (True, Some conf, bits')"
    by (simp add: start_dns_server_def run_server_def start_udp_server_def)
  have r: "\<forall>rd\<in>set [working_round (Received [1, 2, 3] ()), working_round Recv_failed]. round_ok rd"
    by (simp add: working_round_def round_ok_def UDP_RECV_BUF_SIZE_def)
  from dns_server_safe [OF c _ _ r, of "replicate UDP_RECV_BUF_SIZE 0" "replicate UDP_SEND_BUF_SIZE 0"] c
  show ?thesis by auto
qed

lemma echo_loop:
  assumes "udp_ok st"
    and "\<forall>rd\<in>set rds. round_ok rd \<and> round_bits rd AND ctrl \<noteq> 0 \<and> 0 \<le> open_res rd \<and> 0 \<le> bind_res rd"
  shows "\<exists>st'. udp_server_loop ctrl echo_response_handler rds st = Some (False, st') \<and>
     sent st' = sent st @ concat (map (\<lambda>rd. case recv_res rd of Received bs a \<Rightarrow> if bs = [] then [] else [(bs, a)] | _ \<Rightarrow> []) rds)"
  using assms
proof (induction rds arbitrary: st)
  case Nil
  then show ?case by simp
next
  case (Cons rd rds)
  obtain st1 where st1: "udp_server_round echo_response_handler rd st = Some st1" "udp_ok st1"
    using echo.round_keeps [of st rd] Cons.prems by auto
  have "sent st1 = sent st @ (case recv_res rd of Received bs a \<Rightarrow> if bs = [] then [] else [(bs, a)] | _ \<Rightarrow> [])"
  proof -
    obtain so st0 where s0: "(if sock st < 0 then udp_socket_create rd st else (sock st, st)) = (so, st0)"
      by (metis surj_pair)
    have so: "\<not> so < 0" "sent st0 = sent st" "length (query_buf st0) = UDP_RECV_BUF_SIZE" "length (response_buf st0) = UDP_SEND_BUF_SIZE"
      using s0 Cons.prems by (auto simp: udp_socket_create_def Let_def udp_ok_def split: if_splits)
    show ?thesis
    proof (cases "recv_res rd")
      case (Received bs a)
      then have len: "length bs \<le> UDP_RECV_BUF_SIZE" using Cons.prems(2) by (simp add: round_ok_def)
      then have "echo_response_handler (bs @ drop (length bs) (query_buf st0)) (length bs) (response_buf st0) =
          Some (int (length bs), bs @ drop (length bs) (response_buf st0))"
        using so(4) by (simp add: echo_response_handler_def get_bytes_def put_bytes_def UDP_SEND_BUF_SIZE_def UDP_RECV_BUF_SIZE_def)
      then show ?thesis using st1(1) s0 so len Received
        by (auto simp: udp_server_round_def put_bytes_front get_bytes_def split: if_splits)
    qed (use st1(1) s0 so in \<open>auto simp: udp_server_round_def\<close>)
  qed
  moreover obtain st' where "udp_server_loop ctrl echo_response_handler rds st1 = Some (False, st')"
     "sent st' = sent st1 @ concat (map (\<lambda>rd. case recv_res rd of Received bs a \<Rightarrow> if bs = [] then [] else [(bs, a)] | _ \<Rightarrow> []) rds)"
    using Cons.IH [OF st1(2)] Cons.prems(2) by auto
  ultimately show ?case using st1(1) Cons.prems(2) by (intro exI [of _ st']) auto
qed

text \<open>C36: As long as its bit is set and its sockets open, the echo server returns every non-empty
  datagram, unchanged and in order, to the address it came from, and sends nothing else.\<close>

theorem echo_returns_datagrams:
  assumes "start_ping_server task_created alloc bits = (True, Some conf, bits')"
    and "length q0 = UDP_RECV_BUF_SIZE" "length r0 = UDP_SEND_BUF_SIZE"
    and "\<forall>rd\<in>set rds. round_ok rd \<and> round_bits rd AND BIT_ECHO_SERVER_RUN \<noteq> 0 \<and> 0 \<le> open_res rd \<and> 0 \<le> bind_res rd"
  shows "\<exists>st'. udp_server_task (Some conf) q0 r0 rds = Some (False, st') \<and>
     sent st' = concat (map (\<lambda>rd. case recv_res rd of Received bs a \<Rightarrow> if bs = [] then [] else [(bs, a)] | _ \<Rightarrow> []) rds)"
proof -
  have conf: "create_response_handler conf = Some echo_response_handler" "bit_ctrl conf = BIT_ECHO_SERVER_RUN"
    using assms(1) by (auto simp: start_ping_server_def run_server_def Let_def split: option.splits if_splits)
  let ?st = "\<lparr>sock = -1, query_buf = q0, response_buf = r0, sent = [], opened = [], closed = []\<rparr>"
  have "udp_ok ?st" using assms(2,3) by (simp add: udp_ok_def)
  from echo_loop [OF this assms(4)] conf show ?thesis by (simp add: udp_server_task_def)
qed

theorem echo_returns_datagrams_witness:
  "\<exists>conf bits' st'. start_ping_server (\<lambda>_. True) (Some blank_conf) 0 = (True, Some conf, bits') \<and>
     udp_server_task (Some conf) (replicate UDP_RECV_BUF_SIZE 0) (replicate UDP_SEND_BUF_SIZE 0)
       [working_round (Received [1, 2, 3] (7::nat)), working_round Recv_again, working_round (Received [4] 9)] = Some (False, st') \<and>
     sent st' = [([1, 2, 3], 7), ([4], 9)]"
proof -
  obtain conf bits' where c: "start_ping_server (\<lambda>_. True) (Some blank_conf) 0 = (True, Some conf, bits')"
    by (simp add: start_ping_server_def run_server_def start_udp_server_def)
  have r: "\<forall>rd\<in>set [working_round (Received [1, 2, 3] (7::nat)), working_round Recv_again, working_round (Received [4] 9)].
     round_ok rd \<and> round_bits rd AND BIT_ECHO_SERVER_RUN \<noteq> 0 \<and> 0 \<le> open_res rd \<and> 0 \<le> bind_res rd"
    by (simp add: working_round_def round_ok_def UDP_RECV_BUF_SIZE_def BIT_DNS_SERVER_RUN_def BIT_ECHO_SERVER_RUN_def)
  from echo_returns_datagrams [OF c _ _ r, of "replicate UDP_RECV_BUF_SIZE 0" "replicate UDP_SEND_BUF_SIZE 0"] c
  show ?thesis by (auto simp: working_round_def)
qed

text \<open>The BGCP server is started without its handler: the configuration keeps whatever handler
  the allocated memory held, and when that is the null pointer the task ends at once while the
  start function has reported success and set the status bit.\<close>

lemma bgcp_server_has_no_handler:
  assumes "start_bgcp_server task_created (Some c) sc bits = (True, Some conf, bits')"
  shows "create_response_handler conf = create_response_handler c \<and> bits' AND BIT_BGCP_SERVER_RUN \<noteq> 0 \<and>
         (create_response_handler c = None \<longrightarrow>
            (\<exists>st'. udp_server_task (Some conf) q0 r0 rds = Some (True, st') \<and> sent st' = [] \<and> opened st' = []))"
  using assms set_bits_seen [of BIT_BGCP_SERVER_RUN bits]
  by (auto simp: start_bgcp_server_def run_server_def udp_server_task_def BIT_BGCP_SERVER_RUN_def Let_def split: if_splits)

lemma bgcp_server_has_no_handler_witness:
  "start_bgcp_server (\<lambda>_. True) (Some blank_conf) (serv_conf blank_conf) 0 =
     (True, Some (blank_conf\<lparr>bit_ctrl := BIT_BGCP_SERVER_RUN, serv_conf := serv_conf blank_conf\<rparr>), BIT_BGCP_SERVER_RUN) \<and>
   (\<exists>st'. udp_server_task (Some (blank_conf\<lparr>bit_ctrl := BIT_BGCP_SERVER_RUN, serv_conf := serv_conf blank_conf\<rparr>)) [] [] [] =
      Some (True, st' :: unit udp_state) \<and> sent st' = [] \<and> opened st' = [])"
proof -
  have "start_bgcp_server (\<lambda>_. True) (Some blank_conf) (serv_conf blank_conf) 0 =
     (True, Some (blank_conf\<lparr>bit_ctrl := BIT_BGCP_SERVER_RUN, serv_conf := serv_conf blank_conf\<rparr>), BIT_BGCP_SERVER_RUN)"
    by (simp add: start_bgcp_server_def run_server_def start_udp_server_def device_set_bits_def)
  with bgcp_server_has_no_handler [OF this, of "[]" "[]" "[] :: unit udp_round list"] show ?thesis
    by (simp add: blank_conf_def)
qed

end
