(* ===== verification/Ota_Update.thy ===== *)
theory Ota_Update
  imports Device
begin

text \<open>
  The over-the-air update: \<open>components/device_ota/ota_update_stream.c\<close>, \<open>ota_internal.h\<close>,
  \<open>ota_update_stream.h\<close> and \<open>ota_adapters.c\<close>.  The input stream, mbedTLS, the embedded RSA key
  and the OTA functions of the SDK are parameters.  The lemmas show that the stream function
  succeeds exactly when a batch specification does, that it frees the contexts it sets up on
  every path, and what an update writes to the partition.
\<close>

section \<open>The header\<close>

definition BIN_SIZE :: u32 where "BIN_SIZE = 0x120000"

text \<open>\<open>VEN\<close> and the terminator.\<close>

definition ESP_ENC_HEADER_MAGIC :: "u8 list" where
  "ESP_ENC_HEADER_MAGIC = [0x56, 0x45, 0x4E, 0]"

definition AES_KEY_SIZE_BYTES :: nat where "AES_KEY_SIZE_BYTES = 32"

record esp_enc_img_rsa_header_t =
  magic :: "u8 list"
  enc_gcm_key :: "u8 list"
  iv :: "u8 list"
  bin_size :: "u8 list"
  auth_tag :: "u8 list"
  reserved_rsa :: "u8 list"

definition HEADER_SIZE :: nat where "HEADER_SIZE = 4 + 384 + 16 + 4 + 16 + 88"

text \<open>The fields of the packed structure in its bytes.\<close>

definition header_of :: "u8 list \<Rightarrow> esp_enc_img_rsa_header_t" where
  "header_of b =
     \<lparr>magic = take 4 b, enc_gcm_key = take 384 (drop 4 b), iv = take 16 (drop 388 b),
      bin_size = take 4 (drop 404 b), auth_tag = take 16 (drop 408 b),
      reserved_rsa = take 88 (drop 424 b)\<rparr>"

definition read_u32_le :: "u8 list \<Rightarrow> u32" where
  "read_u32_le b =
     ucast (b ! 0) OR push_bit 8 (ucast (b ! 1)) OR push_bit 16 (ucast (b ! 2)) OR push_bit 24 (ucast (b ! 3))"

text \<open>\<open>check_header\<close>: \<open>len\<close> is the length of the list.\<close>

definition check_header :: "u8 list \<Rightarrow> bool" where
  "check_header header_raw =
     (if length header_raw < HEADER_SIZE then False
      else
        (let hdr = header_of header_raw in
         if magic hdr \<noteq> ESP_ENC_HEADER_MAGIC then False
         else
           (let sz = read_u32_le (bin_size hdr) in
            if sz = 0 \<or> sz > BIN_SIZE then False else True)))"

section \<open>The stream\<close>

text \<open>
  The libraries.  \<open>stream_read\<close> is the read function of the stream with its context: the count
  it returns and the bytes it stored.  The functions of mbedTLS return \<open>None\<close> for an error;
  \<open>gcm_update\<close> takes the input and the size of the output buffer, and gives the bytes it stored there.
\<close>

record ('s, 'p, 'g) ota_env =
  stream_read :: "nat \<Rightarrow> 's \<Rightarrow> int \<times> u8 list \<times> 's"
  rsa_private_pem :: "u8 list"
  pk_parse_key :: "u8 list \<Rightarrow> 'p option"
  pk_decrypt :: "'p \<Rightarrow> u8 list \<Rightarrow> u8 list option"
  gcm_setkey :: "u8 list \<Rightarrow> 'g option"
  gcm_starts :: "u8 list \<Rightarrow> 'g \<Rightarrow> 'g option"
  gcm_update :: "u8 list \<Rightarrow> nat \<Rightarrow> 'g \<Rightarrow> (u8 list \<times> 'g) option"
  gcm_finish :: "'g \<Rightarrow> u8 list option"

text \<open>The adapters: an error or nothing received is the count 0.\<close>

definition httpd_read ::
  "('r \<Rightarrow> nat \<Rightarrow> 's \<Rightarrow> int \<times> u8 list \<times> 's) \<Rightarrow> 'r \<Rightarrow> nat \<Rightarrow> 's \<Rightarrow> int \<times> u8 list \<times> 's" where
  "httpd_read recv req len s =
     (case recv req len s of (rlen, bs, s) \<Rightarrow> (if rlen > 0 then rlen else 0, bs, s))"

definition uart_read ::
  "(int \<Rightarrow> nat \<Rightarrow> nat \<Rightarrow> 's \<Rightarrow> int \<times> u8 list \<times> 's) \<Rightarrow> int \<Rightarrow> nat \<Rightarrow> 's \<Rightarrow> int \<times> u8 list \<times> 's" where
  "uart_read read_bytes uart_num len s =
     (case read_bytes uart_num len 1000 s of (n, bs, s) \<Rightarrow> (if n > 0 then n else 0, bs, s))"

text \<open>The calls that set up and free the contexts of mbedTLS.\<close>

datatype crypto_call = Pk_init | Pk_free | Gcm_init | Gcm_free

record ('s, 'c) ota_state =
  input :: 's
  user :: 'c
  calls :: "crypto_call list"

definition call :: "crypto_call \<Rightarrow> ('s, 'c) ota_state \<Rightarrow> ('s, 'c) ota_state" where
  "call c st = st\<lparr>calls := calls st @ [c]\<rparr>"

text \<open>A read of \<open>len\<close> bytes into a buffer: whether it delivered them all, and the buffer.\<close>

definition read_into ::
  "('s, 'p, 'g) ota_env \<Rightarrow> nat \<Rightarrow> u8 list \<Rightarrow> ('s, 'c) ota_state \<Rightarrow> (bool \<times> u8 list \<times> ('s, 'c) ota_state) option" where
  "read_into env len buf st =
     (case stream_read env len (input st) of (r, bs, s) \<Rightarrow>
        if length bs \<le> length buf
        then Some (r = int len, bs @ drop (length bs) buf, st\<lparr>input := s\<rparr>)
        else None)"

definition CHUNK_SIZE :: nat where "CHUNK_SIZE = 1024"

definition chunk_len :: "u32 \<Rightarrow> nat" where
  "chunk_len remaining = (if remaining > of_nat CHUNK_SIZE then CHUNK_SIZE else unat remaining)"

lemma chunk_len_min: "chunk_len remaining = min CHUNK_SIZE (unat remaining)"
  by (simp add: chunk_len_def CHUNK_SIZE_def word_less_nat_alt)

lemma unat_minus_chunk: "unat (remaining - of_nat (chunk_len remaining)) = unat remaining - chunk_len remaining"
proof -
  have "unat (of_nat (chunk_len remaining) :: u32) = chunk_len remaining"
    by (simp add: chunk_len_min unat_of_nat take_bit_nat_eq_self CHUNK_SIZE_def min_def)
  then show ?thesis by (simp add: unat_sub word_le_nat_alt chunk_len_min)
qed

lemma chunk_decreases: "0 < remaining \<Longrightarrow> unat (remaining - of_nat (chunk_len remaining)) < unat remaining"
  unfolding unat_minus_chunk by (simp add: chunk_len_min CHUNK_SIZE_def word_less_nat_alt)

text \<open>
  The loop over the chunks: \<open>Some (None, st)\<close> is the jump to \<open>free_gcm\<close>, otherwise the GCM
  context after the last chunk.  The output buffer has \<open>CHUNK_SIZE\<close> bytes; a byte stored behind it is
  an access outside an object, \<open>None\<close>.
\<close>

function ota_loop ::
  "('s, 'p, 'g) ota_env \<Rightarrow> (u8 list \<Rightarrow> 'c \<Rightarrow> bool \<times> 'c) \<Rightarrow> u32 \<Rightarrow> u8 list \<Rightarrow> 'g \<Rightarrow> ('s, 'c) ota_state \<Rightarrow>
     ('g option \<times> ('s, 'c) ota_state) option" where
  "ota_loop env process_chunk remaining buf_in gcm st =
     (if remaining > 0
      then do {
        (res, buf_in, st) \<leftarrow> read_into env (chunk_len remaining) buf_in st;
        (if \<not> res then Some (None, st)
         else
           (case gcm_update env (take (chunk_len remaining) buf_in) CHUNK_SIZE gcm of
              None \<Rightarrow> Some (None, st)
            | Some (buf_out, gcm) \<Rightarrow>
                if CHUNK_SIZE < length buf_out then None
                else
                (case process_chunk buf_out (user st) of (res, c) \<Rightarrow>
                   if \<not> res then Some (None, st\<lparr>user := c\<rparr>)
                   else ota_loop env process_chunk (remaining - of_nat (chunk_len remaining)) buf_in gcm
                          (st\<lparr>user := c\<rparr>))))
      }
      else Some (Some gcm, st))"
  by pat_completeness auto
termination
  by (relation "measure (\<lambda>(env, pc, remaining, buf_in, gcm, st). unat remaining)")
    (auto intro: chunk_decreases)

declare ota_loop.simps [simp del]

text \<open>The part after the RSA context is freed, up to the labels.\<close>

definition ota_payload ::
  "('s, 'p, 'g) ota_env \<Rightarrow> (u8 list \<Rightarrow> 'c \<Rightarrow> bool \<times> 'c) \<Rightarrow> esp_enc_img_rsa_header_t \<Rightarrow> u8 list \<Rightarrow> u8 list \<Rightarrow>
     ('s, 'c) ota_state \<Rightarrow> (bool \<times> ('s, 'c) ota_state) option" where
  "ota_payload env process_chunk header aes_key buf_in st =
     (case gcm_setkey env aes_key of
        None \<Rightarrow> Some (False, st)
      | Some gcm \<Rightarrow>
          (case gcm_starts env (iv header) gcm of
             None \<Rightarrow> Some (False, st)
           | Some gcm \<Rightarrow>
               do {
                 (gcm, st) \<leftarrow> ota_loop env process_chunk (read_u32_le (bin_size header)) buf_in gcm st;
                 (case gcm of
                    None \<Rightarrow> Some (False, st)
                  | Some gcm \<Rightarrow>
                      (case gcm_finish env gcm of
                         None \<Rightarrow> Some (False, st)
                       | Some tag_check \<Rightarrow> Some (tag_check = auth_tag header, st)))
               }))"

text \<open>
  \<open>ota_update_stream\<close>: \<open>hdr0\<close> and \<open>in0\<close> are what the stack held where \<open>header\<close> and \<open>buf_in\<close> are.
\<close>

definition ota_update_stream ::
  "('s, 'p, 'g) ota_env \<Rightarrow> (u8 list \<Rightarrow> 'c \<Rightarrow> bool \<times> 'c) \<Rightarrow> (u8 list \<Rightarrow> 'c \<Rightarrow> bool \<times> 'c) \<Rightarrow>
     u8 list \<Rightarrow> u8 list \<Rightarrow> ('s, 'c) ota_state \<Rightarrow> (bool \<times> ('s, 'c) ota_state) option" where
  "ota_update_stream env check_hdr process_chunk hdr0 in0 st =
     do {
       (res, raw, st) \<leftarrow> read_into env HEADER_SIZE hdr0 st;
       (if \<not> res then Some (False, st)
        else
          (case check_hdr raw (user st) of (res, c) \<Rightarrow>
             let st = st\<lparr>user := c\<rparr> in
             if \<not> res then Some (False, st)
             else
               (let st = call Pk_init st; header = header_of raw in
                case pk_parse_key env (rsa_private_pem env) of
                  None \<Rightarrow> Some (False, call Pk_free st)
                | Some pk \<Rightarrow>
                    (case pk_decrypt env pk (enc_gcm_key header) of
                       None \<Rightarrow> Some (False, call Pk_free st)
                     | Some aes_key \<Rightarrow>
                         if length aes_key \<noteq> AES_KEY_SIZE_BYTES then Some (False, call Pk_free st)
                         else do {
                           (res, st) \<leftarrow> ota_payload env process_chunk header aes_key in0
                                         (call Gcm_init (call Pk_free st));
                           Some (if res then (True, call Gcm_free st)
                                 else (False, call Pk_free (call Gcm_free st)))
                         }))))
     }"

section \<open>The batch specification\<close>

text \<open>
  What an update does, step by step for the whole image: read all blocks, decrypt them, check
  the tag, and only then hand the plain text on.
\<close>

function block_sizes :: "nat \<Rightarrow> nat list" where
  "block_sizes n = (if n = 0 then [] else min CHUNK_SIZE n # block_sizes (n - CHUNK_SIZE))"
  by pat_completeness auto
termination
  by (relation "measure id") (auto simp: CHUNK_SIZE_def)

declare block_sizes.simps [simp del]

fun deliver :: "('s, 'p, 'g) ota_env \<Rightarrow> nat list \<Rightarrow> 's \<Rightarrow> (u8 list list \<times> 's) option" where
  "deliver env [] s = Some ([], s)"
| "deliver env (n # ns) s =
     (case stream_read env n s of (r, bs, s) \<Rightarrow>
        if r = int n then do { (cs, s) \<leftarrow> deliver env ns s; Some (bs # cs, s) } else None)"

fun gcm_feed :: "('s, 'p, 'g) ota_env \<Rightarrow> u8 list list \<Rightarrow> 'g \<Rightarrow> (u8 list list \<times> 'g) option" where
  "gcm_feed env [] g = Some ([], g)"
| "gcm_feed env (c # cs) g =
     do { (out, g) \<leftarrow> gcm_update env c CHUNK_SIZE g; (outs, g) \<leftarrow> gcm_feed env cs g; Some (out # outs, g) }"

fun process_all :: "(u8 list \<Rightarrow> 'c \<Rightarrow> bool \<times> 'c) \<Rightarrow> u8 list list \<Rightarrow> 'c \<Rightarrow> 'c option" where
  "process_all pc [] c = Some c"
| "process_all pc (x # xs) c = (case pc x c of (ok, c) \<Rightarrow> if ok then process_all pc xs c else None)"

definition open_image :: "('s, 'p, 'g) ota_env \<Rightarrow> esp_enc_img_rsa_header_t \<Rightarrow> 'g option" where
  "open_image env header =
     do {
       pk \<leftarrow> pk_parse_key env (rsa_private_pem env);
       aes_key \<leftarrow> pk_decrypt env pk (enc_gcm_key header);
       (if length aes_key \<noteq> AES_KEY_SIZE_BYTES then None
        else do { g \<leftarrow> gcm_setkey env aes_key; gcm_starts env (iv header) g })
     }"

definition read_header :: "('s, 'p, 'g) ota_env \<Rightarrow> 's \<Rightarrow> (u8 list \<times> 's) option" where
  "read_header env s =
     (case stream_read env HEADER_SIZE s of (r, raw, s) \<Rightarrow>
        if r = int HEADER_SIZE then Some (raw, s) else None)"

definition ota_batch ::
  "('s, 'p, 'g) ota_env \<Rightarrow> (u8 list \<Rightarrow> 'c \<Rightarrow> bool \<times> 'c) \<Rightarrow> (u8 list \<Rightarrow> 'c \<Rightarrow> bool \<times> 'c) \<Rightarrow> 's \<Rightarrow> 'c \<Rightarrow> ('s \<times> 'c) option" where
  "ota_batch env check_hdr process_chunk s c =
     do {
       (raw, s) \<leftarrow> read_header env s;
       (case check_hdr raw c of (ok, c) \<Rightarrow>
          if \<not> ok then None
          else do {
            g \<leftarrow> open_image env (header_of raw);
            (cs, s) \<leftarrow> deliver env (block_sizes (unat (read_u32_le (bin_size (header_of raw))))) s;
            (outs, g) \<leftarrow> gcm_feed env cs g;
            tag \<leftarrow> gcm_finish env g;
            (if tag = auth_tag (header_of raw)
             then do { c \<leftarrow> process_all process_chunk outs c; Some (s, c) } else None)
          })
     }"

text \<open>The contract of a read function: the count is the number of bytes stored.\<close>

definition stream_ok :: "('s, 'p, 'g) ota_env \<Rightarrow> bool" where
  "stream_ok env \<longleftrightarrow>
     (\<forall>n s. case stream_read env n s of (r, bs, s') \<Rightarrow> length bs \<le> n \<and> r = int (length bs))"

text \<open>The contract of the cipher: it stores no more than the size it was given.\<close>

definition gcm_ok :: "('s, 'p, 'g) ota_env \<Rightarrow> bool" where
  "gcm_ok env \<longleftrightarrow> (\<forall>c n g out g'. gcm_update env c n g = Some (out, g') \<longrightarrow> length out \<le> n)"

section \<open>The stream function meets the specification\<close>

definition loop_batch ::
  "('s, 'p, 'g) ota_env \<Rightarrow> (u8 list \<Rightarrow> 'c \<Rightarrow> bool \<times> 'c) \<Rightarrow> nat list \<Rightarrow> 'g \<Rightarrow> 's \<Rightarrow> 'c \<Rightarrow> ('s \<times> 'c \<times> 'g) option" where
  "loop_batch env process_chunk ns g s c =
     do {
       (cs, s) \<leftarrow> deliver env ns s;
       (outs, g) \<leftarrow> gcm_feed env cs g;
       c \<leftarrow> process_all process_chunk outs c;
       Some (s, c, g)
     }"

lemma loop_batch_Nil [simp]: "loop_batch env pc [] g s c = Some (s, c, g)"
  by (simp add: loop_batch_def)

lemma loop_batch_Cons:
  "loop_batch env pc (n # ns) g s c =
     (case stream_read env n s of (r, bs, s) \<Rightarrow>
        if r \<noteq> int n then None
        else
          (case gcm_update env bs CHUNK_SIZE g of
             None \<Rightarrow> None
           | Some (out, g) \<Rightarrow>
               (case pc out c of (ok, c) \<Rightarrow> if \<not> ok then None else loop_batch env pc ns g s c)))"
proof (cases "stream_read env n s")
  case (fields r bs s')
  show ?thesis
  proof (cases "deliver env ns s'")
    case None
    then show ?thesis using fields by (auto simp: loop_batch_def split: option.split prod.split)
  next
    case (Some a)
    then show ?thesis using fields
      by (cases a; cases "gcm_update env bs CHUNK_SIZE g"; cases "gcm_feed env (fst a) (snd (the (gcm_update env bs CHUNK_SIZE g)))")
        (auto simp: loop_batch_def split: prod.split)
  qed
qed

lemma block_sizes_chunk:
  "0 < remaining \<Longrightarrow>
     block_sizes (unat remaining) = chunk_len remaining # block_sizes (unat (remaining - of_nat (chunk_len remaining)))"
  unfolding unat_minus_chunk
  by (subst block_sizes.simps) (simp add: chunk_len_min min_def word_gt_0 unat_eq_0 block_sizes.simps [of 0])

lemma read_into_ok:
  assumes "stream_ok env" "length buf = CHUNK_SIZE" "n \<le> CHUNK_SIZE" "stream_read env n (input st) = (r, bs, s)"
  shows "read_into env n buf st = Some (r = int n, bs @ drop (length bs) buf, st\<lparr>input := s\<rparr>)"
    "length (bs @ drop (length bs) buf) = CHUNK_SIZE" "r = int n \<Longrightarrow> take n (bs @ drop (length bs) buf) = bs"
proof -
  have "length bs \<le> n \<and> r = int (length bs)"
    using assms(1,4) unfolding stream_ok_def by (metis (mono_tags, lifting) case_prod_conv)
  then show "read_into env n buf st = Some (r = int n, bs @ drop (length bs) buf, st\<lparr>input := s\<rparr>)"
    "length (bs @ drop (length bs) buf) = CHUNK_SIZE" "r = int n \<Longrightarrow> take n (bs @ drop (length bs) buf) = bs"
    using assms(2-4) by (simp_all add: read_into_def)
qed

lemma ota_loop_batch:
  "stream_ok env \<Longrightarrow> gcm_ok env \<Longrightarrow> length buf_in = CHUNK_SIZE \<Longrightarrow>
     \<exists>r st'. ota_loop env pc remaining buf_in gcm st = Some (r, st') \<and> calls st' = calls st \<and>
       loop_batch env pc (block_sizes (unat remaining)) gcm (input st) (user st) =
         map_option (\<lambda>g. (input st', user st', g)) r"
proof (induction env pc remaining buf_in gcm st rule: ota_loop.induct)
  case (1 env pc remaining buf_in gcm st)
  show ?case
  proof (cases "remaining > 0")
    case False
    then have "remaining = 0" by (simp add: word_gt_0)
    then show ?thesis by (subst ota_loop.simps) (simp add: block_sizes.simps [of 0])
  next
    case True
    let ?n = "chunk_len remaining"
    obtain r bs s where rd: "stream_read env ?n (input st) = (r, bs, s)" by (cases "stream_read env ?n (input st)")
    note read = read_into_ok [OF "1.prems"(1,3) _ rd]
    have n: "?n \<le> CHUNK_SIZE" by (simp add: chunk_len_min)
    show ?thesis
    proof (cases "r = int ?n")
      case False
      then show ?thesis using True read(1) [OF n] rd
        by (subst ota_loop.simps) (simp add: block_sizes_chunk loop_batch_Cons)
    next
      case full: True
      show ?thesis
      proof (cases "gcm_update env bs CHUNK_SIZE gcm")
        case None
        then show ?thesis using True full read(1,3) [OF n] rd
          by (subst ota_loop.simps) (simp add: block_sizes_chunk loop_batch_Cons)
      next
        case (Some a)
        obtain out g where a: "a = (out, g)" by (cases a)
        have fits: "length out \<le> CHUNK_SIZE" using "1.prems"(2) Some a unfolding gcm_ok_def by blast
        obtain ok c where pc: "pc out (user st) = (ok, c)" by (cases "pc out (user st)")
        show ?thesis
        proof (cases ok)
          case False
          then show ?thesis using True full read(1,3) [OF n] rd Some a pc fits
            by (subst ota_loop.simps) (simp add: block_sizes_chunk loop_batch_Cons)
        next
          case ok: True
          have eq: "ota_loop env pc remaining buf_in gcm st =
              ota_loop env pc (remaining - of_nat ?n) (bs @ drop (length bs) buf_in) g (st\<lparr>input := s, user := c\<rparr>)"
            using True full read(1,3) [OF n] rd Some a pc ok fits by (subst ota_loop.simps) simp
          show ?thesis
            using "1.IH" [OF True read(1) [OF n] refl refl _ _ refl _ , of out g ok c] True full read [OF n] rd Some a pc ok fits
            by (simp add: eq block_sizes_chunk loop_batch_Cons "1.prems"(1,2))
        qed
      qed
    qed
  qed
qed

lemma ota_loop_calls:
  "ota_loop env pc remaining buf_in gcm st = Some (r, st') \<Longrightarrow> calls st' = calls st"
proof (induction env pc remaining buf_in gcm st rule: ota_loop.induct)
  case (1 env pc remaining buf_in gcm st)
  show ?case
  proof (cases "remaining > 0")
    case False
    then show ?thesis using "1.prems" by (subst (asm) ota_loop.simps) simp
  next
    case True
    with "1.prems" obtain res buf st1 where
      rd: "read_into env (chunk_len remaining) buf_in st = Some (res, buf, st1)"
      by (subst (asm) ota_loop.simps) (auto simp: Option.bind_eq_Some_conv)
    then have c1: "calls st1 = calls st" by (auto simp: read_into_def split: prod.splits if_splits)
    show ?thesis
    proof (cases "res \<and> gcm_update env (take (chunk_len remaining) buf) CHUNK_SIZE gcm \<noteq> None")
      case False
      then show ?thesis using "1.prems" True rd c1
        by (cases "gcm_update env (take (chunk_len remaining) buf) CHUNK_SIZE gcm"; cases res; subst (asm) ota_loop.simps) simp_all
    next
      case upd: True
      then obtain out g where g: "gcm_update env (take (chunk_len remaining) buf) CHUNK_SIZE gcm = Some (out, g)" by auto
      have fits: "\<not> CHUNK_SIZE < length out"
        using "1.prems" True rd upd g by (subst (asm) ota_loop.simps) auto
      obtain ok c where pc: "pc out (user st1) = (ok, c)" by (cases "pc out (user st1)")
      show ?thesis
      proof (cases ok)
        case False
        then show ?thesis using "1.prems" True rd c1 upd g pc fits by (subst (asm) ota_loop.simps) auto
      next
        case ok: True
        then have "ota_loop env pc (remaining - of_nat (chunk_len remaining)) buf g (st1\<lparr>user := c\<rparr>) = Some (r, st')"
          using "1.prems" True rd upd g pc fits by (subst (asm) ota_loop.simps) simp
        from "1.IH" [OF True rd refl refl _ g refl fits pc [symmetric] _ this] upd ok c1 show ?thesis by simp
      qed
    qed
  qed
qed

lemma ota_payload_calls:
  "ota_payload env pc header key buf st = Some (res, st') \<Longrightarrow> calls st' = calls st"
proof (cases "gcm_setkey env key")
  case (Some g)
  assume run: "ota_payload env pc header key buf st = Some (res, st')"
  show ?thesis
  proof (cases "gcm_starts env (iv header) g")
    case (Some g1)
    then obtain r where l: "ota_loop env pc (read_u32_le (bin_size header)) buf g1 st = Some (r, st')"
      using run \<open>gcm_setkey env key = Some g\<close>
      by (auto simp: ota_payload_def Option.bind_eq_Some_conv split: option.splits)
    then show ?thesis by (rule ota_loop_calls)
  qed (use run Some in \<open>simp add: ota_payload_def\<close>)
qed (simp add: ota_payload_def)

lemma ota_payload_batch:
  assumes "stream_ok env" "gcm_ok env" "length buf = CHUNK_SIZE"
  shows "\<exists>res st'. ota_payload env pc header key buf st = Some (res, st') \<and>
           (do {
              g \<leftarrow> gcm_setkey env key;
              g \<leftarrow> gcm_starts env (iv header) g;
              (s, c, g) \<leftarrow> loop_batch env pc (block_sizes (unat (read_u32_le (bin_size header)))) g (input st) (user st);
              tag \<leftarrow> gcm_finish env g;
              (if tag = auth_tag header then Some (s, c) else None)
            }) = (if res then Some (input st', user st') else None)"
proof (cases "gcm_setkey env key")
  case None
  then show ?thesis by (auto simp: ota_payload_def intro: exI [of _ False])
next
  case (Some g)
  show ?thesis
  proof (cases "gcm_starts env (iv header) g")
    case None
    then show ?thesis using Some by (auto simp: ota_payload_def intro: exI [of _ False])
  next
    case (Some g1)
    obtain r st' where l: "ota_loop env pc (read_u32_le (bin_size header)) buf g1 st = Some (r, st')"
      "loop_batch env pc (block_sizes (unat (read_u32_le (bin_size header)))) g1 (input st) (user st) =
         map_option (\<lambda>g. (input st', user st', g)) r"
      using ota_loop_batch [OF assms] by blast
    show ?thesis
      using \<open>gcm_setkey env key = Some g\<close> Some l
      by (cases r; cases "gcm_finish env (the r)") (auto simp: ota_payload_def)
  qed
qed

text \<open>In the specification, the order of the last two steps does not matter.\<close>

lemma ota_batch_loop:
  "ota_batch env chk pc s c =
     do {
       (raw, s) \<leftarrow> read_header env s;
       (case chk raw c of (ok, c) \<Rightarrow>
          if \<not> ok then None
          else do {
            g \<leftarrow> open_image env (header_of raw);
            (s, c, g) \<leftarrow> loop_batch env pc (block_sizes (unat (read_u32_le (bin_size (header_of raw))))) g s c;
            tag \<leftarrow> gcm_finish env g;
            (if tag = auth_tag (header_of raw) then Some (s, c) else None)
          })
     }"
proof -
  have eq: "do { (cs, s) \<leftarrow> deliver env ns s; (outs, g) \<leftarrow> gcm_feed env cs g; tag \<leftarrow> gcm_finish env g;
             (if tag = t then do { c \<leftarrow> process_all pc outs c; Some (s, c) } else None) } =
        do { (s, c, g) \<leftarrow> loop_batch env pc ns g s c;
             tag \<leftarrow> gcm_finish env g; (if tag = t then Some (s, c) else None) }" for ns g t s and c
  proof (cases "deliver env ns s")
    case (Some a)
    obtain cs s' where a: "a = (cs, s')" by (cases a)
    show ?thesis
    proof (cases "gcm_feed env cs g")
      case (Some b)
      then show ?thesis using a \<open>deliver env ns s = Some a\<close>
        by (cases b; cases "process_all pc (fst b) c"; cases "gcm_finish env (snd b)")
          (simp_all add: loop_batch_def)
    qed (use a Some in \<open>simp add: loop_batch_def\<close>)
  qed (simp add: loop_batch_def)
  show ?thesis unfolding ota_batch_def eq ..
qed

lemma stream_read_ok: "stream_ok env \<Longrightarrow> stream_read env n s = (r, bs, s') \<Longrightarrow> length bs \<le> n \<and> r = int (length bs)"
  unfolding stream_ok_def by (metis (mono_tags, lifting) case_prod_conv)

text \<open>The update after an accepted header.\<close>

lemma ota_update_run:
  assumes "read_into env HEADER_SIZE hdr0 st = Some (True, raw, st1)" "chk raw (user st1) = (True, c)"
  shows "ota_update_stream env chk pc hdr0 in0 st =
     (let st = call Pk_init (st1\<lparr>user := c\<rparr>); header = header_of raw in
      case pk_parse_key env (rsa_private_pem env) of
        None \<Rightarrow> Some (False, call Pk_free st)
      | Some pk \<Rightarrow>
          (case pk_decrypt env pk (enc_gcm_key header) of
             None \<Rightarrow> Some (False, call Pk_free st)
           | Some key \<Rightarrow>
               if length key \<noteq> AES_KEY_SIZE_BYTES then Some (False, call Pk_free st)
               else do {
                 (res, st) \<leftarrow> ota_payload env pc header key in0 (call Gcm_init (call Pk_free st));
                 Some (if res then (True, call Gcm_free st) else (False, call Pk_free (call Gcm_free st)))
               }))"
  using assms unfolding ota_update_stream_def by simp

lemma ota_stream_is_batch_aux:
  assumes "stream_ok env" "gcm_ok env" "length hdr0 = HEADER_SIZE" "length in0 = CHUNK_SIZE"
  shows "\<exists>res st'. ota_update_stream env chk pc hdr0 in0 st = Some (res, st') \<and>
           ota_batch env chk pc (input st) (user st) = (if res then Some (input st', user st') else None)"
proof -
  obtain r bs s where rd: "stream_read env HEADER_SIZE (input st) = (r, bs, s)"
    by (cases "stream_read env HEADER_SIZE (input st)")
  have len: "length bs \<le> HEADER_SIZE" "r = int (length bs)" using stream_read_ok [OF assms(1) rd] by auto
  have into: "read_into env HEADER_SIZE hdr0 st = Some (r = int HEADER_SIZE, bs @ drop (length bs) hdr0, st\<lparr>input := s\<rparr>)"
    using rd len assms(3) by (simp add: read_into_def)
  obtain ok c where ck: "chk bs (user st) = (ok, c)" by (cases "chk bs (user st)")
  show ?thesis
  proof (cases "r = int HEADER_SIZE \<and> ok")
    case False
    then show ?thesis using into rd ck len assms(3)
      by (auto simp: ota_update_stream_def ota_batch_def read_header_def intro: exI [of _ False])
  next
    case True
    then have full: "length bs = HEADER_SIZE" using len by simp
    let ?st = "st\<lparr>input := s, user := c\<rparr>" and ?h = "header_of bs"
    show ?thesis
    proof (cases "\<exists>pk key. pk_parse_key env (rsa_private_pem env) = Some pk \<and> pk_decrypt env pk (enc_gcm_key ?h) = Some key \<and>
                    length key = AES_KEY_SIZE_BYTES")
      case False
      then have "open_image env ?h = None" by (auto simp: open_image_def Option.bind_eq_None_conv)
      then have "ota_batch env chk pc (input st) (user st) = None"
        using rd ck True by (simp add: ota_batch_def read_header_def)
      moreover have "ota_update_stream env chk pc hdr0 in0 st = Some (False, call Pk_free (call Pk_init ?st))"
      proof -
        have run: "read_into env HEADER_SIZE hdr0 st = Some (True, bs, st\<lparr>input := s\<rparr>)"
            "chk bs (user (st\<lparr>input := s\<rparr>)) = (True, c)"
          using into ck True full assms(3) by simp_all
        from False show ?thesis unfolding ota_update_run [where chk = chk, OF run] Let_def by (simp split: option.split)
      qed
      ultimately show ?thesis by (auto intro: exI [of _ False])
    next
      case keys: True
      then obtain pk key where k: "pk_parse_key env (rsa_private_pem env) = Some pk"
        "pk_decrypt env pk (enc_gcm_key ?h) = Some key" "length key = AES_KEY_SIZE_BYTES" by auto
      let ?st1 = "call Gcm_init (call Pk_free (call Pk_init ?st))"
      obtain res st' where p: "ota_payload env pc ?h key in0 ?st1 = Some (res, st')"
        and eq: "(do {
              g \<leftarrow> gcm_setkey env key;
              g \<leftarrow> gcm_starts env (iv ?h) g;
              (s, c, g) \<leftarrow> loop_batch env pc (block_sizes (unat (read_u32_le (bin_size ?h)))) g s c;
              tag \<leftarrow> gcm_finish env g;
              (if tag = auth_tag ?h then Some (s, c) else None)
            }) = (if res then Some (input st', user st') else None)"
        using ota_payload_batch [OF assms(1,2,4), of pc ?h key ?st1] by (auto simp: call_def)
      have batch: "ota_batch env chk pc (input st) (user st) = (if res then Some (input st', user st') else None)"
        using rd True ck k unfolding ota_batch_loop eq [symmetric] by (simp add: read_header_def open_image_def)
      have "\<exists>st''. ota_update_stream env chk pc hdr0 in0 st = Some (res, st'') \<and>
          input st'' = input st' \<and> user st'' = user st'"
      proof -
        have run: "read_into env HEADER_SIZE hdr0 st = Some (True, bs, st\<lparr>input := s\<rparr>)"
            "chk bs (user (st\<lparr>input := s\<rparr>)) = (True, c)"
          using into ck True full assms(3) by simp_all
        show ?thesis using k p unfolding ota_update_run [where chk = chk, OF run] Let_def by (cases res) (simp_all add: call_def)
      qed
      then obtain st'' where "ota_update_stream env chk pc hdr0 in0 st = Some (res, st'')"
        "input st'' = input st'" "user st'' = user st'" by auto
      with batch show ?thesis by (intro exI [of _ res] exI [of _ st'']) (simp only: simp_thms)
    qed
  qed
qed

section \<open>Writing the partition\<close>

record ota_ctx_t =
  ota_handle :: u32
  ota_partition :: "nat option"
  written :: u32

text \<open>The OTA functions of the SDK; \<open>ota_begin\<close> gives the value it stored in the handle.\<close>

record 'f ota_api =
  next_update_partition :: "'f \<Rightarrow> nat option"
  ota_begin :: "nat \<Rightarrow> 'f \<Rightarrow> esp_err \<times> u32 \<times> 'f"
  ota_write :: "u32 \<Rightarrow> u8 list \<Rightarrow> 'f \<Rightarrow> esp_err \<times> 'f"
  ota_end :: "u32 \<Rightarrow> 'f \<Rightarrow> esp_err \<times> 'f"
  set_boot_partition :: "nat option \<Rightarrow> 'f \<Rightarrow> esp_err \<times> 'f"
  esp_restart :: "'f \<Rightarrow> 'f"

definition write_chunk :: "'f ota_api \<Rightarrow> u8 list \<Rightarrow> ota_ctx_t \<times> 'f \<Rightarrow> bool \<times> ota_ctx_t \<times> 'f" where
  "write_chunk api chunk c =
     (case c of (ctx, f) \<Rightarrow>
        (case ota_write api (ota_handle ctx) chunk f of (e, f) \<Rightarrow>
           if e \<noteq> ESP_OK then (False, ctx, f)
           else (True, ctx\<lparr>written := written ctx + of_nat (length chunk)\<rparr>, f)))"

definition process_chunk :: "'f ota_api \<Rightarrow> u8 list \<Rightarrow> ota_ctx_t \<times> 'f \<Rightarrow> bool \<times> ota_ctx_t \<times> 'f" where
  "process_chunk api chunk c =
     (case c of (ctx, f) \<Rightarrow>
        if ota_handle ctx = 0
        then
          (let ctx = ctx\<lparr>ota_partition := next_update_partition api f\<rparr> in
           case ota_partition ctx of
             None \<Rightarrow> (False, ctx, f)
           | Some p \<Rightarrow>
               (case ota_begin api p f of (e, h, f) \<Rightarrow>
                  let ctx = ctx\<lparr>ota_handle := h\<rparr> in
                  if e \<noteq> ESP_OK then (False, ctx, f)
                  else write_chunk api chunk (ctx\<lparr>written := 0\<rparr>, f)))
        else write_chunk api chunk (ctx, f))"

text \<open>\<open>complete_ota\<close>: the restart does not return.\<close>

definition complete_ota :: "'f ota_api \<Rightarrow> ota_ctx_t \<times> 'f \<Rightarrow> esp_err \<times> 'f" where
  "complete_ota api c =
     (case c of (ctx, f) \<Rightarrow>
        (case ota_end api (ota_handle ctx) f of (e, f) \<Rightarrow>
           if e \<noteq> ESP_OK then (ESP_FAIL, f)
           else
             (case set_boot_partition api (ota_partition ctx) f of (e, f) \<Rightarrow>
                if e \<noteq> ESP_OK then (ESP_FAIL, f)
                else (ESP_OK, esp_restart api f))))"

text \<open>The chunks written one after the other through one handle.\<close>

fun write_all :: "'f ota_api \<Rightarrow> u32 \<Rightarrow> u8 list list \<Rightarrow> 'f \<Rightarrow> 'f option" where
  "write_all api h [] f = Some f"
| "write_all api h (x # xs) f =
     (case ota_write api h x f of (e, f) \<Rightarrow> if e = ESP_OK then write_all api h xs f else None)"

lemma process_all_open:
  "ota_handle ctx \<noteq> 0 \<Longrightarrow>
     process_all (process_chunk api) xs (ctx, f) =
       map_option (\<lambda>f. (ctx\<lparr>written := written ctx + of_nat (length (concat xs))\<rparr>, f)) (write_all api (ota_handle ctx) xs f)"
proof (induction xs arbitrary: ctx f)
  case Nil
  then show ?case by simp
next
  case (Cons x xs)
  then show ?case
    by (cases "ota_write api (ota_handle ctx) x f")
      (simp add: process_chunk_def write_chunk_def add.assoc)
qed

lemma process_all_fresh:
  assumes "ota_handle ctx = 0" "next_update_partition api f = Some p" "ota_begin api p f = (ESP_OK, h, f1)" "h \<noteq> 0"
    and "xs \<noteq> []"
  shows "process_all (process_chunk api) xs (ctx, f) =
     map_option (\<lambda>f. (\<lparr>ota_handle = h, ota_partition = Some p, written = of_nat (length (concat xs))\<rparr>, f))
       (write_all api h xs f1)"
proof -
  let ?ctx = "\<lparr>ota_handle = h, ota_partition = Some p, written = 0\<rparr>"
  obtain x ys where xs: "xs = x # ys" using assms(5) by (cases xs) auto
  have "process_chunk api x (ctx, f) = process_chunk api x (?ctx, f1)"
    using assms(1-4) by (cases ctx) (simp add: process_chunk_def)
  then have "process_all (process_chunk api) xs (ctx, f) = process_all (process_chunk api) xs (?ctx, f1)"
    by (simp add: xs)
  then show ?thesis using process_all_open [of ?ctx api xs f1] assms(4) by simp
qed

lemma deliver_lengths: "stream_ok env \<Longrightarrow> deliver env ns s = Some (cs, s') \<Longrightarrow> map length cs = ns"
proof (induction ns arbitrary: s cs)
  case Nil
  then show ?case by simp
next
  case (Cons n ns)
  obtain r bs s1 where rd: "stream_read env n s = (r, bs, s1)" by (cases "stream_read env n s")
  with Cons.prems Cons.IH stream_read_ok [OF Cons.prems(1) rd] show ?case
    by (auto simp: Option.bind_eq_Some_conv split: if_splits)
qed

lemma sum_block_sizes: "sum_list (block_sizes n) = n"
  by (induction n rule: block_sizes.induct) (subst block_sizes.simps, simp add: min_def)

lemma gcm_feed_length: "gcm_feed env cs g = Some (outs, g') \<Longrightarrow> length outs = length cs"
  by (induction cs arbitrary: g outs) (auto simp: Option.bind_eq_Some_conv)

text \<open>A library whose cipher is the identity, and an image of three bytes.\<close>

definition test_env :: "(u8 list, unit, u8 list) ota_env" where
  "test_env =
     \<lparr>stream_read = (\<lambda>n s. (int (min n (length s)), take n s, drop n s)), rsa_private_pem = [],
      pk_parse_key = (\<lambda>_. Some ()), pk_decrypt = (\<lambda>_ k. Some (take 32 k)), gcm_setkey = (\<lambda>k. Some []),
      gcm_starts = (\<lambda>v g. Some g), gcm_update = (\<lambda>c n g. if length c \<le> n then Some (c, g @ c) else None), gcm_finish = (\<lambda>g. Some (replicate 16 0))\<rparr>"

definition test_header :: "u8 list" where
  "test_header = ESP_ENC_HEADER_MAGIC @ replicate 384 7 @ replicate 16 1 @ [3, 0, 0, 0] @ replicate 16 0 @ replicate 88 0"

definition test_api :: "u8 list ota_api" where
  "test_api =
     \<lparr>next_update_partition = (\<lambda>_. Some 1), ota_begin = (\<lambda>p f. (ESP_OK, 5, [])),
      ota_write = (\<lambda>h bs f. (ESP_OK, f @ bs)), ota_end = (\<lambda>h f. (ESP_OK, f)),
      set_boot_partition = (\<lambda>p f. (ESP_OK, f)), esp_restart = (\<lambda>f. f)\<rparr>"

definition test_state :: "(u8 list, ota_ctx_t \<times> u8 list) ota_state" where
  "test_state = \<lparr>input = test_header @ [10, 20, 30],
     user = (\<lparr>ota_handle = 0, ota_partition = None, written = 0\<rparr>, []), calls = []\<rparr>"

lemma test_env_ok: "stream_ok test_env"
  by (auto simp: stream_ok_def test_env_def)

lemma test_env_gcm: "gcm_ok test_env"
  by (auto simp: gcm_ok_def test_env_def split: if_splits)

lemma length_test_header: "length test_header = HEADER_SIZE"
  by (simp add: test_header_def HEADER_SIZE_def ESP_ENC_HEADER_MAGIC_def)

lemma test_header_fields:
  "header_of test_header =
     \<lparr>magic = ESP_ENC_HEADER_MAGIC, enc_gcm_key = replicate 384 7, iv = replicate 16 1, bin_size = [3, 0, 0, 0],
      auth_tag = replicate 16 0, reserved_rsa = replicate 88 0\<rparr>"
  unfolding test_header_def header_of_def ESP_ENC_HEADER_MAGIC_def by simp

lemma test_header_ok: "check_header test_header" "read_u32_le (bin_size (header_of test_header)) = 3"
  by (simp_all add: check_header_def length_test_header test_header_fields read_u32_le_def BIN_SIZE_def)

lemma test_run:
  "\<exists>st'. ota_update_stream test_env (\<lambda>raw c. (check_header raw, c)) (process_chunk test_api)
     (replicate HEADER_SIZE 0) (replicate CHUNK_SIZE 0) test_state = Some (True, st')"
proof -
  have blocks: "block_sizes 3 = [3]"
    by (subst block_sizes.simps, subst block_sizes.simps) (simp add: CHUNK_SIZE_def)
  have rd: "read_header test_env (test_header @ [10, 20, 30]) = Some (test_header, [10, 20, 30])"
    by (simp add: read_header_def test_env_def length_test_header)
  have "ota_batch test_env (\<lambda>raw c. (check_header raw, c)) (process_chunk test_api)
      (input test_state) (user test_state) \<noteq> None"
    unfolding ota_batch_def test_state_def
    by (simp add: rd test_header_ok open_image_def blocks)
      (simp add: test_env_def test_header_fields process_chunk_def write_chunk_def test_api_def AES_KEY_SIZE_BYTES_def CHUNK_SIZE_def)
  moreover obtain res st' where "ota_update_stream test_env (\<lambda>raw c. (check_header raw, c)) (process_chunk test_api)
     (replicate HEADER_SIZE 0) (replicate CHUNK_SIZE 0) test_state = Some (res, st')"
    "ota_batch test_env (\<lambda>raw c. (check_header raw, c)) (process_chunk test_api) (input test_state) (user test_state) =
       (if res then Some (input st', user st') else None)"
    using ota_stream_is_batch_aux [OF test_env_ok test_env_gcm, of "replicate HEADER_SIZE 0" "replicate CHUNK_SIZE 0"
        "\<lambda>raw c. (check_header raw, c)" "process_chunk test_api" test_state]
    by auto
  ultimately show ?thesis by (cases res) auto
qed

section \<open>The properties\<close>

text \<open>C29: Over a stream whose counts are the bytes it delivered, and with a cipher that keeps to the
  size of the output buffer, the update accesses no byte outside its buffers, ends, and returns true exactly when the batch specification succeeds (header
  accepted, keys usable, every block read in full and decrypted, every block accepted, the
  computed tag equal to the header's), with the same rest of the stream and user context.\<close>

theorem ota_stream_is_batch:
  assumes "stream_ok env" "gcm_ok env" "length hdr0 = HEADER_SIZE" "length in0 = CHUNK_SIZE"
  shows "\<exists>res st'. ota_update_stream env chk pc hdr0 in0 st = Some (res, st') \<and>
           ota_batch env chk pc (input st) (user st) = (if res then Some (input st', user st') else None)"
  using assms by (rule ota_stream_is_batch_aux)

theorem ota_stream_is_batch_witness:
  "\<exists>res st'. ota_update_stream test_env (\<lambda>raw c. (check_header raw, c)) (process_chunk test_api)
       (replicate HEADER_SIZE 0) (replicate CHUNK_SIZE 0) test_state = Some (res, st') \<and>
     ota_batch test_env (\<lambda>raw c. (check_header raw, c)) (process_chunk test_api) (input test_state) (user test_state) =
       (if res then Some (input st', user st') else None)"
  by (rule ota_stream_is_batch) (simp_all add: test_env_ok test_env_gcm)

text \<open>C30: On every path the contexts that are set up are freed, the RSA context before the GCM
  context is set up; after an error past that point the RSA context is freed a second time.
  The result is true exactly on the path without an error.\<close>

theorem ota_contexts_freed:
  assumes "ota_update_stream env chk pc hdr0 in0 st = Some (res, st')"
  shows "\<exists>cs. calls st' = calls st @ cs \<and>
           cs \<in> {[], [Pk_init, Pk_free], [Pk_init, Pk_free, Gcm_init, Gcm_free],
                 [Pk_init, Pk_free, Gcm_init, Gcm_free, Pk_free]} \<and>
           (res \<longleftrightarrow> cs = [Pk_init, Pk_free, Gcm_init, Gcm_free])"
proof -
  obtain ok raw st1 where into: "read_into env HEADER_SIZE hdr0 st = Some (ok, raw, st1)"
    using assms by (auto simp: ota_update_stream_def Option.bind_eq_Some_conv)
  then have c1: "calls st1 = calls st" by (auto simp: read_into_def split: prod.splits if_splits)
  obtain ok2 c where ck: "chk raw (user st1) = (ok2, c)" by (cases "chk raw (user st1)")
  let ?st = "call Pk_init (st1\<lparr>user := c\<rparr>)" and ?h = "header_of raw"
  show ?thesis
  proof (cases "ok \<and> ok2")
    case False
    then show ?thesis using assms into ck c1 by (auto simp: ota_update_stream_def split: if_splits)
  next
    case True
    then have run: "read_into env HEADER_SIZE hdr0 st = Some (True, raw, st1)" "chk raw (user st1) = (True, c)"
      using into ck by simp_all
    consider "res = False" "st' = call Pk_free ?st"
      | key res1 st2 where "ota_payload env pc ?h key in0 (call Gcm_init (call Pk_free ?st)) = Some (res1, st2)"
          "(res, st') = (if res1 then (True, call Gcm_free st2) else (False, call Pk_free (call Gcm_free st2)))"
      using assms unfolding ota_update_run [where chk = chk, OF run] Let_def
      by (auto simp: Option.bind_eq_Some_conv split: option.splits if_splits)
    then show ?thesis
    proof cases
      case 1
      then show ?thesis using c1 by (simp add: call_def)
    next
      case 2
      from ota_payload_calls [OF 2(1)] 2(2) c1 show ?thesis by (cases res1) (simp_all add: call_def)
    qed
  qed
qed

theorem ota_contexts_freed_witness:
  "\<exists>st' cs. ota_update_stream test_env (\<lambda>raw c. (check_header raw, c)) (process_chunk test_api)
       (replicate HEADER_SIZE 0) (replicate CHUNK_SIZE 0) test_state = Some (True, st') \<and>
     calls st' = calls test_state @ cs \<and> cs = [Pk_init, Pk_free, Gcm_init, Gcm_free]"
  using test_run ota_contexts_freed [where st = test_state and res = True] by metis

text \<open>C31: A successful update into a fresh context has read and accepted a header, read exactly
  as many bytes as it announces, and written their decryption, whose tag is the header's, in
  order through one handle of the next partition; the context counts the bytes written.\<close>

theorem ota_writes_plaintext:
  assumes "stream_ok env" "gcm_ok env" "length hdr0 = HEADER_SIZE" "length in0 = CHUNK_SIZE"
    and "user st = (ctx, f)" "ota_handle ctx = 0" "next_update_partition api f = Some p"
    and "ota_begin api p f = (ESP_OK, h, f1)" "h \<noteq> 0"
    and "ota_update_stream env (\<lambda>raw c. (check_header raw, c)) (process_chunk api) hdr0 in0 st = Some (True, st')"
  shows "\<exists>raw s g cs outs g' f'.
           read_header env (input st) = Some (raw, s) \<and> check_header raw \<and>
           open_image env (header_of raw) = Some g \<and>
           deliver env (block_sizes (unat (read_u32_le (bin_size (header_of raw))))) s = Some (cs, input st') \<and>
           length (concat cs) = unat (read_u32_le (bin_size (header_of raw))) \<and>
           gcm_feed env cs g = Some (outs, g') \<and> gcm_finish env g' = Some (auth_tag (header_of raw)) \<and>
           write_all api h outs f1 = Some f' \<and>
           user st' = (\<lparr>ota_handle = h, ota_partition = Some p, written = of_nat (length (concat outs))\<rparr>, f')"
proof -
  let ?chk = "\<lambda>raw c. (check_header raw, c)"
  have "ota_batch env ?chk (process_chunk api) (input st) (user st) = Some (input st', user st')"
    using ota_stream_is_batch_aux [OF assms(1-4), of ?chk "process_chunk api" st] assms(10) by auto
  then obtain raw s g cs outs g' where b: "read_header env (input st) = Some (raw, s)" "check_header raw"
    "open_image env (header_of raw) = Some g"
    "deliver env (block_sizes (unat (read_u32_le (bin_size (header_of raw))))) s = Some (cs, input st')"
    "gcm_feed env cs g = Some (outs, g')" "gcm_finish env g' = Some (auth_tag (header_of raw))"
    "process_all (process_chunk api) outs (ctx, f) = Some (user st')"
    using assms(5) by (auto simp: ota_batch_def Option.bind_eq_Some_conv split: if_splits)
  have lens: "map length cs = block_sizes (unat (read_u32_le (bin_size (header_of raw))))"
    using deliver_lengths [OF assms(1) b(4)] .
  then have size: "length (concat cs) = unat (read_u32_le (bin_size (header_of raw)))"
    by (simp add: length_concat sum_block_sizes)
  have "read_u32_le (bin_size (header_of raw)) \<noteq> 0" using b(2) by (simp add: check_header_def Let_def split: if_splits)
  then have "cs \<noteq> []" using size by (auto simp: unat_eq_0)
  then have "outs \<noteq> []" using gcm_feed_length [OF b(5)] by auto
  from process_all_fresh [OF assms(6-9) this] b(7) obtain f' where
    "write_all api h outs f1 = Some f'"
    "user st' = (\<lparr>ota_handle = h, ota_partition = Some p, written = of_nat (length (concat outs))\<rparr>, f')"
    by (cases "write_all api h outs f1") auto
  with b size show ?thesis by blast
qed

theorem ota_writes_plaintext_witness:
  "\<exists>raw s g cs outs g' f' (st' :: (u8 list, ota_ctx_t \<times> u8 list) ota_state).
     read_header test_env (input test_state) = Some (raw, s) \<and> length (concat cs) = unat (read_u32_le (bin_size (header_of raw))) \<and>
     deliver test_env (block_sizes (unat (read_u32_le (bin_size (header_of raw))))) s = Some (cs, input st') \<and>
     gcm_feed test_env cs g = Some (outs, g') \<and> write_all test_api 5 outs [] = Some f' \<and>
     user st' = (\<lparr>ota_handle = 5, ota_partition = Some 1, written = of_nat (length (concat outs))\<rparr>, f')"
proof -
  obtain st' where run: "ota_update_stream test_env (\<lambda>raw c. (check_header raw, c)) (process_chunk test_api)
     (replicate HEADER_SIZE 0) (replicate CHUNK_SIZE 0) test_state = Some (True, st')"
    using test_run by blast
  have side: "length (replicate HEADER_SIZE (0::u8)) = HEADER_SIZE" "length (replicate CHUNK_SIZE (0::u8)) = CHUNK_SIZE"
    "user test_state = (\<lparr>ota_handle = 0, ota_partition = None, written = 0\<rparr>, [])"
    "ota_handle \<lparr>ota_handle = 0, ota_partition = None, written = 0\<rparr> = 0"
    "next_update_partition test_api [] = Some 1" "ota_begin test_api 1 [] = (ESP_OK, 5, [])" "(5::u32) \<noteq> 0"
    by (simp_all add: test_state_def test_api_def)
  from ota_writes_plaintext [OF test_env_ok test_env_gcm side run] show ?thesis
    by blast
qed

end
