(* ===== verification/Ota_Adapters.thy ===== *)
theory Ota_Adapters
  imports Ota_Update
begin

text \<open>
  The input streams of an update, \<open>components/device_ota/ota_adapters.c\<close>: a stream over a request of
  the HTTP server or over a UART.  The pair of context and function pointer is the function
  applied to its context, \<open>None\<close> for a null pointer.  The lemmas show that what the HTTP server and
  the UART driver promise is what the update asks of a stream, and when an update over them fails.
\<close>

record 's ota_input_stream_t =
  read_fn :: "(nat \<Rightarrow> 's \<Rightarrow> int \<times> u8 list \<times> 's) option"

definition httpd_input_stream_init ::
  "('r \<Rightarrow> nat \<Rightarrow> 's \<Rightarrow> int \<times> u8 list \<times> 's) \<Rightarrow> 's ota_input_stream_t \<Rightarrow> 'r \<Rightarrow> 's ota_input_stream_t" where
  "httpd_input_stream_init recv stream req = stream\<lparr>read_fn := Some (httpd_read recv req)\<rparr>"

text \<open>\<open>alloc\<close> is whether \<open>malloc\<close> found memory for the context.\<close>

definition uart_input_stream_init ::
  "(int \<Rightarrow> nat \<Rightarrow> nat \<Rightarrow> 's \<Rightarrow> int \<times> u8 list \<times> 's) \<Rightarrow> bool \<Rightarrow> 's ota_input_stream_t \<Rightarrow> int \<Rightarrow> 's ota_input_stream_t" where
  "uart_input_stream_init read_bytes alloc stream uart_num =
     stream\<lparr>read_fn := (if alloc then Some (uart_read read_bytes uart_num) else None)\<rparr>"

text \<open>An update that reads from a stream; the first read calls its function pointer.\<close>

definition ota_update_from ::
  "'s ota_input_stream_t \<Rightarrow> ('s, 'p, 'g) ota_env \<Rightarrow> (u8 list \<Rightarrow> 'c \<Rightarrow> bool \<times> 'c) \<Rightarrow> (u8 list \<Rightarrow> 'c \<Rightarrow> bool \<times> 'c) \<Rightarrow>
     u8 list \<Rightarrow> u8 list \<Rightarrow> ('s, 'c) ota_state \<Rightarrow> (bool \<times> ('s, 'c) ota_state) option" where
  "ota_update_from stream env check_hdr process hdr0 in0 st =
     (case read_fn stream of
        None \<Rightarrow> None
      | Some f \<Rightarrow> ota_update_stream (env\<lparr>stream_read := f\<rparr>) check_hdr process hdr0 in0 st)"

text \<open>
  What the documentation of \<open>httpd_req_recv\<close> and \<open>uart_read_bytes\<close> says: at most the bytes asked for
  are stored, and a positive result is their number; on an error nothing is stored.
\<close>

definition recv_ok :: "(nat \<Rightarrow> 's \<Rightarrow> int \<times> u8 list \<times> 's) \<Rightarrow> bool" where
  "recv_ok recv \<longleftrightarrow>
     (\<forall>n s. case recv n s of (r, bs, s') \<Rightarrow> length bs \<le> n \<and> (if r > 0 then r = int (length bs) else bs = []))"

lemma httpd_stream_ok: "recv_ok (recv req) \<Longrightarrow> stream_ok (env\<lparr>stream_read := httpd_read recv req\<rparr>)"
  by (auto simp: stream_ok_def recv_ok_def httpd_read_def case_prod_beta split: if_splits)

lemma uart_stream_ok:
  "recv_ok (\<lambda>n. read_bytes num n 1000) \<Longrightarrow> stream_ok (env\<lparr>stream_read := uart_read read_bytes num\<rparr>)"
  by (auto simp: stream_ok_def recv_ok_def uart_read_def case_prod_beta split: if_splits)

text \<open>A first read of fewer bytes than the header has ends the update, even if more would follow.\<close>

lemma short_header_fails:
  assumes "recv_ok (recv req)" "recv req HEADER_SIZE (input st) = (r, bs, s)" "r < int HEADER_SIZE"
    "length hdr0 = HEADER_SIZE"
  shows "ota_update_from (httpd_input_stream_init recv stream req) env check_hdr process hdr0 in0 st =
    Some (False, st\<lparr>input := s\<rparr>)"
proof -
  have "length bs \<le> HEADER_SIZE" using assms(1,2) by (fastforce simp: recv_ok_def split: prod.splits)
  moreover have "(if r > 0 then r else 0) \<noteq> int HEADER_SIZE" using assms(3) by (simp add: HEADER_SIZE_def)
  ultimately have "read_into (env\<lparr>stream_read := httpd_read recv req\<rparr>) HEADER_SIZE hdr0 st =
      Some (False, bs @ drop (length bs) hdr0, st\<lparr>input := s\<rparr>)"
    using assms(2,4) by (simp add: read_into_def httpd_read_def)
  then show ?thesis by (simp add: ota_update_from_def httpd_input_stream_init_def ota_update_stream_def)
qed

text \<open>Without memory for its context the stream of a UART has no function to call.\<close>

lemma uart_without_memory:
  "ota_update_from (uart_input_stream_init read_bytes False stream num) env check_hdr process hdr0 in0 st = None"
  by (simp add: ota_update_from_def uart_input_stream_init_def)

end
