(* ===== verification/Json_Config.thy ===== *)
theory Json_Config
  imports Device
begin

text \<open>
  The static configuration of the JSON interface: \<open>http_json_helper.h\<close>, \<open>json_static_config.c\<close>
  and the table that \<open>register_json_api_handlers\<close> of \<open>device_http_server.c\<close> builds with it, all in
  \<open>components/device_network\<close>.  The fields of all endpoints are in one array; an endpoint holds a
  range of it.  The lemmas show that the range of an endpoint stays inside the array, never
  changes after the endpoint was added, and which endpoints the device offers.
\<close>

section \<open>Data\<close>

text \<open>An address is an object and an offset in it.\<close>

type_synonym addr = "(nat \<times> nat) option"

datatype json_field_type_t = JSON_FIELD_INT | JSON_FIELD_BOOL | JSON_FIELD_STR

datatype http_method = HTTP_GET | HTTP_POST | HTTP_METHOD int

record json_field_t =
  field_name :: "string option"
  field_ptr :: addr
  max_len :: u32
  field_type :: json_field_type_t

text \<open>\<open>h_fields\<close>, a pointer into the array of the fields, is the index of its target.\<close>

record json_http_handler_t =
  uri :: "string option"
  http_meth :: http_method
  h_fields :: nat
  field_count :: nat

record json_field_cfg_t =
  field_data :: "json_field_t list"
  field_capacity :: nat
  fields_used :: nat
  start_data_indx :: nat
  update_last :: bool

record json_config_t =
  endpoint_data :: "json_http_handler_t list"
  endpoint_capacity :: nat
  endpoints_used :: nat

text \<open>\<open>INIT_JSON_CFG\<close> on the two kinds of configurations.\<close>

definition init_field_cfg :: "json_field_t list \<Rightarrow> nat \<Rightarrow> json_field_cfg_t" where
  "init_field_cfg buf members =
     \<lparr>field_data = buf, field_capacity = members, fields_used = 0, start_data_indx = 0, update_last = False\<rparr>"

definition init_json_config :: "json_http_handler_t list \<Rightarrow> nat \<Rightarrow> json_config_t" where
  "init_json_config buf members = \<lparr>endpoint_data = buf, endpoint_capacity = members, endpoints_used = 0\<rparr>"

section \<open>Operations\<close>

definition add_json_field ::
  "json_field_cfg_t \<Rightarrow> string option \<Rightarrow> json_field_type_t \<Rightarrow> addr \<Rightarrow> bool \<times> json_field_cfg_t" where
  "add_json_field cfg name ty p =
     (if name = None \<or> p = None then (False, cfg)
      else if fields_used cfg \<ge> field_capacity cfg then (False, cfg)
      else
        (let cfg = (if update_last cfg then cfg\<lparr>start_data_indx := fields_used cfg, update_last := False\<rparr> else cfg);
             i = fields_used cfg in
         (True, cfg\<lparr>fields_used := i + 1,
            field_data := (field_data cfg)[i := (field_data cfg ! i)\<lparr>field_name := name, field_type := ty, field_ptr := p\<rparr>]\<rparr>)))"

definition add_json_endpoint ::
  "json_config_t \<Rightarrow> string option \<Rightarrow> http_method \<Rightarrow> json_field_cfg_t \<Rightarrow> bool \<times> json_config_t \<times> json_field_cfg_t" where
  "add_json_endpoint cnf u meth cfg =
     (if u = None then (False, cnf, cfg)
      else if endpoints_used cnf \<ge> endpoint_capacity cnf then (False, cnf, cfg)
      else if fields_used cfg = start_data_indx cfg then (False, cnf, cfg)
      else
        (let i = endpoints_used cnf;
             h = \<lparr>uri = u, http_meth = meth, h_fields = start_data_indx cfg,
                   field_count = fields_used cfg - start_data_indx cfg\<rparr> in
         (True, cnf\<lparr>endpoints_used := i + 1, endpoint_data := (endpoint_data cnf)[i := h]\<rparr>, cfg\<lparr>update_last := True\<rparr>)))"

text \<open>The fields an endpoint refers to.\<close>

definition endpoint_fields :: "json_field_cfg_t \<Rightarrow> json_http_handler_t \<Rightarrow> json_field_t list" where
  "endpoint_fields cfg h = take (field_count h) (drop (h_fields h) (field_data cfg))"

section \<open>The interface of the device\<close>

definition JSON_HANDLERS_NUM :: nat where "JSON_HANDLERS_NUM = 15"
definition JSON_FIELD_NUM :: nat where "JSON_FIELD_NUM = 25"

text \<open>
  Offsets in \<open>device_data_t\<close> on the 32-bit target: the status has 24 bytes, the configuration 8,
  then come the settings.
\<close>

definition status_offset :: "string \<Rightarrow> nat" where
  "status_offset f =
     (if f = ''humidity'' then 0 else if f = ''motion'' then 4 else if f = ''lt1'' then 5 else if f = ''lt2'' then 6
      else if f = ''fan_speed'' then 8 else if f = ''info'' then 12 else if f = ''title'' then 16 else 20)"

definition config_offset :: "string \<Rightarrow> nat" where
  "config_offset f =
     24 + (if f = ''speed1'' then 0 else if f = ''speed2'' then 1 else if f = ''off_timer'' then 2
           else if f = ''on_timer'' then 3 else if f = ''inter_timer'' then 4 else if f = ''motion_en'' then 5
           else if f = ''humidity'' then 6 else 7)"

datatype api_op =
    Add_field string json_field_type_t addr
  | Add_endpoint string http_method

definition api_step :: "api_op \<Rightarrow> json_field_cfg_t \<times> json_config_t \<Rightarrow> json_field_cfg_t \<times> json_config_t" where
  "api_step e s =
     (case s of (cfg, cnf) \<Rightarrow>
        (case e of
           Add_field name ty p \<Rightarrow> (snd (add_json_field cfg (Some name) ty p), cnf)
         | Add_endpoint u meth \<Rightarrow> (case add_json_endpoint cnf (Some u) meth cfg of (_, cnf, cfg) \<Rightarrow> (cfg, cnf))))"

text \<open>The calls of \<open>register_json_api_handlers\<close> for the device at object \<open>d\<close>, whose status holds the
  pointers \<open>info\<close> and \<open>title\<close>.\<close>

definition json_api_ops :: "nat \<Rightarrow> addr \<Rightarrow> addr \<Rightarrow> api_op list" where
  "json_api_ops d info title =
     (let st = (\<lambda>f. Some (d, status_offset f)); cf = (\<lambda>f. Some (d, config_offset f)) in
      [Add_field ''humidity_cur'' JSON_FIELD_INT (st ''humidity''),
       Add_field ''motion_cur'' JSON_FIELD_BOOL (st ''motion''),
       Add_field ''lt1'' JSON_FIELD_BOOL (st ''lt1''),
       Add_field ''lt2'' JSON_FIELD_BOOL (st ''lt2''),
       Add_field ''fan_speed'' JSON_FIELD_INT (st ''fan_speed''),
       Add_field ''admin'' JSON_FIELD_BOOL (st ''admin_en''),
       Add_field ''info'' JSON_FIELD_STR info,
       Add_field ''title'' JSON_FIELD_STR title,
       Add_endpoint ''/status'' HTTP_GET,
       Add_field ''wifi_en'' JSON_FIELD_BOOL (cf ''wifi_en''),
       Add_endpoint ''/wifi'' HTTP_POST, Add_endpoint ''/wifi'' HTTP_GET,
       Add_field ''off_timer'' JSON_FIELD_INT (cf ''off_timer''),
       Add_field ''on_timer'' JSON_FIELD_INT (cf ''on_timer''),
       Add_endpoint ''/timers'' HTTP_GET, Add_endpoint ''/timers'' HTTP_POST,
       Add_field ''speed1'' JSON_FIELD_INT (cf ''speed1''),
       Add_field ''speed2'' JSON_FIELD_INT (cf ''speed2''),
       Add_endpoint ''/speed'' HTTP_GET, Add_endpoint ''/speed'' HTTP_POST,
       Add_field ''inter_timer'' JSON_FIELD_INT (cf ''inter_timer''),
       Add_endpoint ''/interval'' HTTP_GET, Add_endpoint ''/interval'' HTTP_POST,
       Add_field ''motion_en'' JSON_FIELD_BOOL (cf ''motion_en''),
       Add_endpoint ''/motion'' HTTP_GET, Add_endpoint ''/motion'' HTTP_POST,
       Add_field ''humidity'' JSON_FIELD_INT (cf ''humidity''),
       Add_endpoint ''/humidity'' HTTP_GET, Add_endpoint ''/humidity'' HTTP_POST])"

text \<open>The two static arrays as they start.\<close>

definition zero_field :: json_field_t where
  "zero_field = \<lparr>field_name = None, field_ptr = None, max_len = 0, field_type = JSON_FIELD_INT\<rparr>"

definition zero_handler :: json_http_handler_t where
  "zero_handler = \<lparr>uri = None, http_meth = HTTP_METHOD 0, h_fields = 0, field_count = 0\<rparr>"

definition json_api_config :: "nat \<Rightarrow> addr \<Rightarrow> addr \<Rightarrow> json_field_cfg_t \<times> json_config_t" where
  "json_api_config d info title =
     fold api_step (json_api_ops d info title)
       (init_field_cfg (replicate JSON_FIELD_NUM zero_field) JSON_FIELD_NUM,
        init_json_config (replicate JSON_HANDLERS_NUM zero_handler) JSON_HANDLERS_NUM)"

definition endpoints :: "json_config_t \<Rightarrow> json_http_handler_t list" where
  "endpoints cnf = take (endpoints_used cnf) (endpoint_data cnf)"

section \<open>The ranges of the endpoints\<close>

text \<open>Every endpoint refers to a non-empty range of the used fields.\<close>

definition cfg_ok :: "json_field_cfg_t \<times> json_config_t \<Rightarrow> bool" where
  "cfg_ok s =
     (case s of (cfg, cnf) \<Rightarrow>
        length (field_data cfg) = field_capacity cfg \<and> fields_used cfg \<le> field_capacity cfg \<and>
        start_data_indx cfg \<le> fields_used cfg \<and>
        length (endpoint_data cnf) = endpoint_capacity cnf \<and> endpoints_used cnf \<le> endpoint_capacity cnf \<and>
        (\<forall>h\<in>set (endpoints cnf). 0 < field_count h \<and> h_fields h + field_count h \<le> fields_used cfg))"

lemma add_field_ok: "cfg_ok (cfg, cnf) \<Longrightarrow> cfg_ok (snd (add_json_field cfg name ty p), cnf)"
  by (auto simp: cfg_ok_def add_json_field_def Let_def)

lemma add_endpoint_ok:
  assumes "cfg_ok (cfg, cnf)" "add_json_endpoint cnf u meth cfg = (r, cnf', cfg')"
  shows "cfg_ok (cfg', cnf')"
proof (cases "u = None \<or> endpoints_used cnf \<ge> endpoint_capacity cnf \<or> fields_used cfg = start_data_indx cfg")
  case True
  then show ?thesis using assms by (auto simp: add_json_endpoint_def split: if_splits)
next
  case False
  let ?h = "\<lparr>uri = u, http_meth = meth, h_fields = start_data_indx cfg, field_count = fields_used cfg - start_data_indx cfg\<rparr>"
  have n: "endpoints_used cnf < length (endpoint_data cnf)" using False assms(1) by (auto simp: cfg_ok_def)
  have "endpoints cnf' = endpoints cnf @ [?h]" "endpoints_used cnf' = endpoints_used cnf + 1"
    "endpoint_capacity cnf' = endpoint_capacity cnf"
    "length (endpoint_data cnf') = length (endpoint_data cnf)" "cfg' = cfg\<lparr>update_last := True\<rparr>"
    using False assms(2) n by (auto simp: add_json_endpoint_def endpoints_def take_Suc_conv_app_nth Let_def)
  then show ?thesis using assms(1) False n by (auto simp: cfg_ok_def)
qed

interpretation api: step_system api_step cfg_ok
proof unfold_locales
  fix s :: "json_field_cfg_t \<times> json_config_t" and e
  assume "cfg_ok s"
  then show "cfg_ok (api_step e s)"
    by (cases s; cases e) (auto simp: api_step_def intro: add_field_ok add_endpoint_ok split: prod.split)
qed

lemma init_ok:
  "length fb = n \<Longrightarrow> length hb = m \<Longrightarrow> cfg_ok (init_field_cfg fb n, init_json_config hb m)"
  by (simp add: cfg_ok_def init_field_cfg_def init_json_config_def endpoints_def)

text \<open>Later operations do not change the fields of an endpoint.\<close>

lemma add_field_keeps:
  "h_fields h + field_count h \<le> fields_used cfg \<Longrightarrow>
     endpoint_fields (snd (add_json_field cfg name ty p)) h = endpoint_fields cfg h"
  by (auto simp: add_json_field_def endpoint_fields_def Let_def drop_update_swap)

lemma step_keeps:
  assumes "cfg_ok (cfg, cnf)" "h \<in> set (endpoints cnf)"
  shows "h \<in> set (endpoints (snd (api_step e (cfg, cnf))))"
    "endpoint_fields (fst (api_step e (cfg, cnf))) h = endpoint_fields cfg h"
proof -
  have r: "h_fields h + field_count h \<le> fields_used cfg" using assms by (auto simp: cfg_ok_def)
  show "endpoint_fields (fst (api_step e (cfg, cnf))) h = endpoint_fields cfg h"
  proof (cases e)
    case (Add_field name ty p)
    then show ?thesis using add_field_keeps [OF r] by (simp add: api_step_def)
  next
    case (Add_endpoint u meth)
    then show ?thesis by (simp add: api_step_def add_json_endpoint_def endpoint_fields_def Let_def)
  qed
  show "h \<in> set (endpoints (snd (api_step e (cfg, cnf))))"
  proof (cases e)
    case (Add_endpoint u meth)
    have "length (endpoint_data cnf) = endpoint_capacity cnf" using assms(1) by (simp add: cfg_ok_def)
    then show ?thesis using Add_endpoint assms(2)
      by (auto simp: api_step_def add_json_endpoint_def endpoints_def Let_def take_Suc_conv_app_nth)
  qed (use assms(2) in \<open>simp add: api_step_def\<close>)
qed

text \<open>The endpoints of the device, each with its fields.\<close>

definition api_field :: "string \<Rightarrow> json_field_type_t \<Rightarrow> addr \<Rightarrow> json_field_t" where
  "api_field name ty p = \<lparr>field_name = Some name, field_ptr = p, max_len = 0, field_type = ty\<rparr>"

lemma json_api_eval:
  "(case json_api_config d info title of (cfg, cnf) \<Rightarrow>
      map (\<lambda>h. (uri h, http_meth h, endpoint_fields cfg h)) (endpoints cnf)) =
   (let w = [api_field ''wifi_en'' JSON_FIELD_BOOL (Some (d, 31))];
        t = [api_field ''off_timer'' JSON_FIELD_INT (Some (d, 26)), api_field ''on_timer'' JSON_FIELD_INT (Some (d, 27))];
        sp = [api_field ''speed1'' JSON_FIELD_INT (Some (d, 24)), api_field ''speed2'' JSON_FIELD_INT (Some (d, 25))];
        i = [api_field ''inter_timer'' JSON_FIELD_INT (Some (d, 28))];
        mo = [api_field ''motion_en'' JSON_FIELD_BOOL (Some (d, 29))];
        hu = [api_field ''humidity'' JSON_FIELD_INT (Some (d, 30))] in
    [(Some ''/status'', HTTP_GET,
       [api_field ''humidity_cur'' JSON_FIELD_INT (Some (d, 0)), api_field ''motion_cur'' JSON_FIELD_BOOL (Some (d, 4)),
        api_field ''lt1'' JSON_FIELD_BOOL (Some (d, 5)), api_field ''lt2'' JSON_FIELD_BOOL (Some (d, 6)),
        api_field ''fan_speed'' JSON_FIELD_INT (Some (d, 8)), api_field ''admin'' JSON_FIELD_BOOL (Some (d, 20))] @
       (if info = None then [] else [api_field ''info'' JSON_FIELD_STR info]) @
       (if title = None then [] else [api_field ''title'' JSON_FIELD_STR title])),
     (Some ''/wifi'', HTTP_POST, w), (Some ''/wifi'', HTTP_GET, w),
     (Some ''/timers'', HTTP_GET, t), (Some ''/timers'', HTTP_POST, t),
     (Some ''/speed'', HTTP_GET, sp), (Some ''/speed'', HTTP_POST, sp),
     (Some ''/interval'', HTTP_GET, i), (Some ''/interval'', HTTP_POST, i),
     (Some ''/motion'', HTTP_GET, mo), (Some ''/motion'', HTTP_POST, mo),
     (Some ''/humidity'', HTTP_GET, hu), (Some ''/humidity'', HTTP_POST, hu)])"
  by (cases info; cases title)
    (simp_all add: json_api_config_def json_api_ops_def api_step_def add_json_field_def add_json_endpoint_def
      init_field_cfg_def init_json_config_def endpoints_def endpoint_fields_def JSON_FIELD_NUM_def
      JSON_HANDLERS_NUM_def zero_field_def zero_handler_def api_field_def status_offset_def config_offset_def Let_def numeral_eq_Suc)

section \<open>The properties\<close>

text \<open>C37: However fields and endpoints are added, every endpoint refers to a non-empty range inside
  the array of the fields, and an endpoint keeps its entry and its fields for ever.\<close>

theorem endpoint_fields_stable:
  assumes "length fb = n" "length hb = m"
    and "fold api_step es (init_field_cfg fb n, init_json_config hb m) = (cfg, cnf)"
    and "h \<in> set (endpoints cnf)"
  shows "0 < field_count h \<and> h_fields h + field_count h \<le> fields_used cfg \<and> fields_used cfg \<le> length (field_data cfg) \<and>
         h \<in> set (endpoints (snd (fold api_step es' (cfg, cnf)))) \<and>
         endpoint_fields (fst (fold api_step es' (cfg, cnf))) h = endpoint_fields cfg h"
proof -
  have ok: "cfg_ok (cfg, cnf)" using api.run_inv [OF init_ok [OF assms(1,2)], of es] assms(3) by simp
  have "h \<in> set (endpoints (snd (fold api_step es' (cfg, cnf)))) \<and>
      endpoint_fields (fst (fold api_step es' (cfg, cnf))) h = endpoint_fields cfg h"
    using ok assms(4)
  proof (induction es' arbitrary: cfg cnf)
    case Nil
    then show ?case by simp
  next
    case (Cons e es')
    obtain cfg' cnf' where s: "api_step e (cfg, cnf) = (cfg', cnf')" by (cases "api_step e (cfg, cnf)")
    from Cons.IH [of cfg' cnf'] step_keeps [OF Cons.prems, of e] api.step_inv [OF Cons.prems(1), of e] s
    show ?case by simp
  qed
  then show ?thesis using ok assms(4) by (auto simp: cfg_ok_def)
qed

theorem endpoint_fields_stable_witness:
  "\<exists>cfg cnf h. fold api_step [Add_field ''a'' JSON_FIELD_INT (Some (0, 4)), Add_endpoint ''/a'' HTTP_GET]
       (init_field_cfg [zero_field, zero_field] 2, init_json_config [zero_handler] 1) = (cfg, cnf) \<and>
     h \<in> set (endpoints cnf) \<and>
     endpoint_fields (fst (fold api_step [Add_field ''b'' JSON_FIELD_BOOL (Some (0, 5))] (cfg, cnf))) h = endpoint_fields cfg h"
proof -
  obtain cfg cnf where f: "fold api_step [Add_field ''a'' JSON_FIELD_INT (Some (0, 4)), Add_endpoint ''/a'' HTTP_GET]
       (init_field_cfg [zero_field, zero_field] 2, init_json_config [zero_handler] 1) = (cfg, cnf)"
    by (metis surj_pair)
  then have "endpoints cnf \<noteq> []"
    by (auto simp: api_step_def add_json_field_def add_json_endpoint_def init_field_cfg_def init_json_config_def endpoints_def)
  then obtain h where h: "h \<in> set (endpoints cnf)" by (meson last_in_set)
  from endpoint_fields_stable [OF _ _ f h, of "[Add_field ''b'' JSON_FIELD_BOOL (Some (0, 5))]"] f h
  show ?thesis by auto
qed

text \<open>The device offers exactly these endpoints with these fields; the status loses the two
  strings when their pointers are null at the time of the registration.\<close>

lemma json_api_table:
  "(case json_api_config d info title of (cfg, cnf) \<Rightarrow>
      map (\<lambda>h. (the (uri h), http_meth h, map (\<lambda>f. the (field_name f)) (endpoint_fields cfg h))) (endpoints cnf)) =
   [(''/status'', HTTP_GET, [''humidity_cur'', ''motion_cur'', ''lt1'', ''lt2'', ''fan_speed'', ''admin''] @
       (if info = None then [] else [''info'']) @ (if title = None then [] else [''title''])),
    (''/wifi'', HTTP_POST, [''wifi_en'']), (''/wifi'', HTTP_GET, [''wifi_en'']),
    (''/timers'', HTTP_GET, [''off_timer'', ''on_timer'']), (''/timers'', HTTP_POST, [''off_timer'', ''on_timer'']),
    (''/speed'', HTTP_GET, [''speed1'', ''speed2'']), (''/speed'', HTTP_POST, [''speed1'', ''speed2'']),
    (''/interval'', HTTP_GET, [''inter_timer'']), (''/interval'', HTTP_POST, [''inter_timer'']),
    (''/motion'', HTTP_GET, [''motion_en'']), (''/motion'', HTTP_POST, [''motion_en'']),
    (''/humidity'', HTTP_GET, [''humidity'']), (''/humidity'', HTTP_POST, [''humidity''])]"
proof -
  obtain cfg cnf where c: "json_api_config d info title = (cfg, cnf)" by (cases "json_api_config d info title")
  let ?v = "\<lambda>(u, meth, fs). (the u, meth, map (\<lambda>f. the (field_name f)) fs)"
  have "map (\<lambda>h. (the (uri h), http_meth h, map (\<lambda>f. the (field_name f)) (endpoint_fields cfg h))) (endpoints cnf) =
      map ?v (map (\<lambda>h. (uri h, http_meth h, endpoint_fields cfg h)) (endpoints cnf))" by simp
  with json_api_eval [of d info title] show ?thesis by (simp add: c Let_def api_field_def)
qed

end
