(* ===== verification/Json_Http.thy ===== *)
theory Json_Http
  imports Json_Config
begin

text \<open>
  The JSON handlers and the HTTP server: \<open>json_helper.c\<close> and \<open>device_http_server.c\<close> of
  \<open>components/device_network\<close>.  cJSON and the HTTP server of ESP-IDF are parameters; what a handler
  sends is a list of responses.  The device is an object of the store, with the offsets of
  \<open>Json_Config\<close>.  The lemmas show what a request reads and writes.
\<close>

section \<open>Memory at an offset\<close>

definition load_bytes :: "mem \<Rightarrow> addr \<Rightarrow> nat \<Rightarrow> u8 list option" where
  "load_bytes m p n = do { (a, off) \<leftarrow> p; bs \<leftarrow> m a; get_bytes off n bs }"

definition store_bytes :: "mem \<Rightarrow> addr \<Rightarrow> u8 list \<Rightarrow> mem option" where
  "store_bytes m p new =
     do { (a, off) \<leftarrow> p; bs \<leftarrow> m a; bs \<leftarrow> put_bytes off new bs; Some (m(a \<mapsto> bs)) }"

definition load_string :: "mem \<Rightarrow> addr \<Rightarrow> u8 list option" where
  "load_string m p =
     do { (a, off) \<leftarrow> p; bs \<leftarrow> m a; n \<leftarrow> strlen (drop off bs); Some (take n (drop off bs)) }"

section \<open>The libraries\<close>

text \<open>A JSON value as the code looks at it; \<open>JString None\<close> is a string item without a string.\<close>

datatype cjson = JNumber u32 | JBool bool | JString "u8 list option" | JOther

record 'j cjson_lib =
  cjson_parse :: "u8 list \<Rightarrow> 'j option"
  cjson_get_item :: "'j \<Rightarrow> string \<Rightarrow> cjson option"
  cjson_create_object :: "'j option"
  cjson_add_item :: "string \<Rightarrow> cjson \<Rightarrow> 'j \<Rightarrow> 'j option"
  cjson_print :: "'j \<Rightarrow> u8 list option"

datatype http_response =
    Resp_error nat "string option" | Resp_type string | Resp_status string | Resp_hdr string string
  | Resp_str "u8 list" | Resp_text string | Resp_send "u8 list"

section \<open>Posting\<close>

definition JSON_MAX_SIZE :: nat where "JSON_MAX_SIZE = 512"

text \<open>\<open>strncpy\<close>: \<open>n\<close> bytes are written, the rest of them zero.\<close>

definition strncpy_bytes :: "u8 list \<Rightarrow> nat \<Rightarrow> u8 list" where
  "strncpy_bytes str n = take n str @ replicate (n - length str) 0"

text \<open>The address \<open>k\<close> bytes further on.\<close>

definition addr_plus :: "addr \<Rightarrow> nat \<Rightarrow> addr" where
  "addr_plus p k = map_option (\<lambda>(a, off). (a, off + k)) p"

text \<open>
  The store of one item: the \<open>switch\<close> of \<open>json_post_handler\<close>.  An access is checked against the object, which
  for the device is the whole \<open>device_data_t\<close>: an \<open>int\<close> stored to a member of one byte changes the members
  behind it (see \<open>post_bytes\<close>).
\<close>

definition post_item :: "json_field_t \<Rightarrow> cjson \<Rightarrow> mem \<Rightarrow> mem option" where
  "post_item field item m =
     (case field_type field of
        JSON_FIELD_INT \<Rightarrow>
          (case item of JNumber v \<Rightarrow> store_bytes m (field_ptr field) (le_bytes 4 v) | _ \<Rightarrow> Some m)
      | JSON_FIELD_BOOL \<Rightarrow>
          (case item of JBool b \<Rightarrow> store_bytes m (field_ptr field) [if b then 1 else 0] | _ \<Rightarrow> Some m)
      | JSON_FIELD_STR \<Rightarrow>
          (case item of
             JString (Some str) \<Rightarrow>
               do {
                 m \<leftarrow> store_bytes m (field_ptr field) (strncpy_bytes str (unat (max_len field - 1)));
                 store_bytes m (addr_plus (field_ptr field) (unat (max_len field - 1))) [0]
               }
           | _ \<Rightarrow> Some m))"

fun post_fields :: "(string \<Rightarrow> cjson option) \<Rightarrow> json_field_t list \<Rightarrow> mem \<Rightarrow> mem option" where
  "post_fields item_of [] m = Some m"
| "post_fields item_of (field # fs) m =
     do {
       m \<leftarrow> (case field_name field of
               None \<Rightarrow> Some m
             | Some name \<Rightarrow>
                 if field_ptr field = None then Some m
                 else (case item_of name of None \<Rightarrow> Some m | Some item \<Rightarrow> post_item field item m));
       post_fields item_of fs m
     }"

text \<open>
  \<open>json_post_handler\<close>: \<open>recv\<close> is \<open>httpd_req_recv\<close> (its result and the bytes it stored), \<open>nb0\<close> what the
  stack held where \<open>net_buf\<close> is, \<open>send_ok\<close> the result of the last send.
\<close>

definition json_post_handler ::
  "'j cjson_lib \<Rightarrow> json_field_t list option \<Rightarrow> nat \<Rightarrow> (nat \<Rightarrow> int \<times> u8 list) \<Rightarrow> esp_err \<Rightarrow> u8 list \<Rightarrow> mem \<Rightarrow>
     (esp_err \<times> http_response list \<times> mem) option" where
  "json_post_handler lib post_fs content_len recv send_ok nb0 m =
     (case post_fs of
        None \<Rightarrow> Some (ESP_FAIL, [Resp_error 500 None], m)
      | Some fs \<Rightarrow>
          if content_len = 0 then Some (ESP_FAIL, [Resp_error 400 None], m)
          else if content_len > JSON_MAX_SIZE - 1 then Some (ESP_FAIL, [Resp_error 400 None], m)
          else
            (case recv content_len of (len, bs) \<Rightarrow>
               do {
                 net_buf \<leftarrow> put_bytes 0 bs nb0;
                 (if len \<le> 0 then Some (ESP_FAIL, [Resp_error 400 (Some ''Receive failed'')], m)
                  else do {
                    net_buf \<leftarrow> put_bytes (nat len) [0] net_buf;
                    (case cjson_parse lib (c_string net_buf) of
                       None \<Rightarrow> Some (ESP_FAIL, [Resp_error 400 (Some ''JSON parse error'')], m)
                     | Some json \<Rightarrow>
                         do {
                           m \<leftarrow> post_fields (cjson_get_item lib json) fs m;
                           Some (send_ok, [Resp_type ''text/plain'', Resp_status ''200 OK'', Resp_text ''OK''], m)
                         })
                  })
               }))"

section \<open>Getting\<close>

definition field_value :: "json_field_t \<Rightarrow> mem \<Rightarrow> cjson option" where
  "field_value field m =
     (case field_type field of
        JSON_FIELD_INT \<Rightarrow> map_option (\<lambda>bs. JNumber (le_word bs)) (load_bytes m (field_ptr field) 4)
      | JSON_FIELD_BOOL \<Rightarrow> map_option (\<lambda>bs. JBool (bs \<noteq> [0])) (load_bytes m (field_ptr field) 1)
      | JSON_FIELD_STR \<Rightarrow> map_option (\<lambda>str. JString (Some str)) (load_string m (field_ptr field)))"

text \<open>\<open>add_field_to_json\<close>: \<open>Some None\<close> is a failure of cJSON.\<close>

definition add_field_to_json :: "'j cjson_lib \<Rightarrow> 'j \<Rightarrow> string \<Rightarrow> json_field_t \<Rightarrow> mem \<Rightarrow> 'j option option" where
  "add_field_to_json lib json_obj name field m =
     do { v \<leftarrow> field_value field m; Some (cjson_add_item lib name v json_obj) }"

fun get_fields :: "'j cjson_lib \<Rightarrow> json_field_t list \<Rightarrow> mem \<Rightarrow> 'j \<Rightarrow> 'j option option" where
  "get_fields lib [] m json_obj = Some (Some json_obj)"
| "get_fields lib (field # fs) m json_obj =
     (if field_name field = None \<or> field_ptr field = None then get_fields lib fs m json_obj
      else do {
        r \<leftarrow> add_field_to_json lib json_obj (the (field_name field)) field m;
        (case r of None \<Rightarrow> Some None | Some json_obj \<Rightarrow> get_fields lib fs m json_obj)
      })"

definition json_get_handler ::
  "'j cjson_lib \<Rightarrow> json_field_t list option \<Rightarrow> esp_err \<Rightarrow> mem \<Rightarrow> (esp_err \<times> http_response list) option" where
  "json_get_handler lib get_fs send_ok m =
     (case get_fs of
        None \<Rightarrow> Some (ESP_FAIL, [Resp_error 500 (Some ''No context'')])
      | Some fs \<Rightarrow>
          (case cjson_create_object lib of
             None \<Rightarrow> Some (ESP_FAIL, [Resp_error 500 None])
           | Some obj \<Rightarrow>
               do {
                 r \<leftarrow> get_fields lib fs m obj;
                 (case Option.bind r (cjson_print lib) of
                    None \<Rightarrow> Some (ESP_FAIL, [Resp_error 500 None])
                  | Some str \<Rightarrow> Some (send_ok, [Resp_type ''application/json'', Resp_str str]))
               }))"

section \<open>The server\<close>

datatype static_handler =
    Exit_handler | Admin_enable_handler | Filter_reset_handler | Ota_handler
  | Get_favicon_handler | Get_css_handler | Get_script_handler | Get_index_handler

datatype uri_target = Json_target json_http_handler_t | Static_target static_handler

record uri_entry =
  entry_uri :: string
  entry_method :: http_method
  entry_target :: uri_target

definition uri_list :: "(string \<times> http_method \<times> static_handler) list" where
  "uri_list =
     [(''/exit'', HTTP_GET, Exit_handler),
      (''/admin'', HTTP_GET, Admin_enable_handler),
      (''/filter_reset'', HTTP_GET, Filter_reset_handler),
      (''/update'', HTTP_POST, Ota_handler),
      (''/favicon.ico'', HTTP_GET, Get_favicon_handler),
      (''/style.css'', HTTP_GET, Get_css_handler),
      (''/script.js'', HTTP_GET, Get_script_handler),
      (''/'', HTTP_GET, Get_index_handler)]"

definition STATIC_URI_NUM :: nat where "STATIC_URI_NUM = length uri_list"
definition HANDLERS_NUM :: nat where "HANDLERS_NUM = JSON_HANDLERS_NUM + STATIC_URI_NUM"

text \<open>The server of ESP-IDF on its state \<open>'h\<close>; \<open>httpd_start\<close> takes the number of handlers.\<close>

record 'h httpd_api =
  httpd_start :: "nat \<Rightarrow> 'h \<Rightarrow> esp_err \<times> nat option \<times> 'h"
  httpd_stop :: "nat \<Rightarrow> 'h \<Rightarrow> 'h"
  httpd_register_uri_handler :: "nat \<Rightarrow> uri_entry \<Rightarrow> 'h \<Rightarrow> esp_err \<times> 'h"

record 'h http_state =
  http_server :: "nat option"
  httpd :: 'h

definition register_json_handler ::
  "'h httpd_api \<Rightarrow> nat option \<Rightarrow> json_http_handler_t \<Rightarrow> 'h \<Rightarrow> esp_err \<times> 'h" where
  "register_json_handler api server h s =
     (case (server, uri h) of
        (Some srv, Some u) \<Rightarrow>
          (if field_count h \<le> 0 \<or> (http_meth h \<noteq> HTTP_POST \<and> http_meth h \<noteq> HTTP_GET) then (ESP_ERR_INVALID_ARG, s)
           else httpd_register_uri_handler api srv
                  \<lparr>entry_uri = u, entry_method = http_meth h, entry_target = Json_target h\<rparr> s)
      | _ \<Rightarrow> (ESP_ERR_INVALID_ARG, s))"

text \<open>The loop of \<open>register_static_uri_handlers\<close>, which stops at the first error.\<close>

fun register_static :: "'h httpd_api \<Rightarrow> nat \<Rightarrow> (string \<times> http_method \<times> static_handler) list \<Rightarrow> 'h \<Rightarrow> 'h" where
  "register_static api srv [] s = s"
| "register_static api srv ((u, meth, t) # us) s =
     (case httpd_register_uri_handler api srv
             \<lparr>entry_uri = u, entry_method = meth, entry_target = Static_target t\<rparr> s of (e, s) \<Rightarrow>
        if e \<noteq> ESP_OK then s else register_static api srv us s)"

definition register_json_api_handlers :: "'h httpd_api \<Rightarrow> nat option \<Rightarrow> nat \<Rightarrow> addr \<Rightarrow> addr \<Rightarrow> 'h \<Rightarrow> 'h" where
  "register_json_api_handlers api server d info title s =
     (case json_api_config d info title of (cfg, cnf) \<Rightarrow>
        fold (\<lambda>h s. snd (register_json_handler api server h s)) (endpoints cnf) s)"

text \<open>\<open>admin_en\<close> of the device at object \<open>d\<close>.\<close>

definition set_admin_en :: "nat \<Rightarrow> bool \<Rightarrow> mem \<Rightarrow> mem option" where
  "set_admin_en d b m = store_bytes m (Some (d, status_offset ''admin_en'')) [if b then 1 else 0]"

definition stop_http_server :: "'h httpd_api \<Rightarrow> 'h http_state \<Rightarrow> 'h http_state" where
  "stop_http_server api st =
     (case http_server st of
        None \<Rightarrow> st
      | Some srv \<Rightarrow> st\<lparr>httpd := httpd_stop api srv (httpd st), http_server := None\<rparr>)"

definition init_http_server ::
  "'h httpd_api \<Rightarrow> nat \<Rightarrow> addr \<Rightarrow> addr \<Rightarrow> mem \<Rightarrow> 'h http_state \<Rightarrow> (bool \<times> mem \<times> 'h http_state) option" where
  "init_http_server api d info title m st =
     (let st = stop_http_server api st in
      case httpd_start api HANDLERS_NUM (httpd st) of (e, server, h) \<Rightarrow>
        (let st = st\<lparr>http_server := server, httpd := h\<rparr> in
         if e \<noteq> ESP_OK then Some (False, m, st)
         else
           (case server of
              None \<Rightarrow> Some (False, m, st)
            | Some srv \<Rightarrow>
                do {
                  m \<leftarrow> set_admin_en d False m;
                  Some (True, m, st\<lparr>httpd := register_static api srv uri_list
                                     (register_json_api_handlers api server d info title h)\<rparr>)
                })))"

text \<open>
  The handlers of the static pages; \<open>emb\<close> gives the contents of the embedded files and \<open>send_ok\<close> the
  result of a send.
\<close>

definition static_response ::
  "(string \<Rightarrow> u8 list) \<Rightarrow> 'h httpd_api \<Rightarrow> static_handler \<Rightarrow> nat \<Rightarrow> esp_err \<Rightarrow> mem \<Rightarrow> 'h http_state \<Rightarrow>
     (esp_err \<times> http_response list \<times> mem \<times> 'h http_state) option" where
  "static_response emb api t d send_ok m st =
     (case t of
        Get_favicon_handler \<Rightarrow> Some (send_ok, [Resp_type ''image/x-icon'', Resp_send (emb ''favicon_ico'')], m, st)
      | Get_index_handler \<Rightarrow> Some (send_ok, [Resp_type ''text/html'', Resp_send (emb ''index_html'')], m, st)
      | Get_css_handler \<Rightarrow>
          Some (send_ok, [Resp_type ''text/css'', Resp_hdr ''Content-Encoding'' ''gzip'', Resp_send (emb ''style_min_css'')], m, st)
      | Get_script_handler \<Rightarrow>
          Some (send_ok, [Resp_type ''text/javascript'', Resp_hdr ''Content-Encoding'' ''gzip'', Resp_send (emb ''script_min_js'')], m, st)
      | Filter_reset_handler \<Rightarrow> Some (send_ok, [Resp_text ''Filter reset command received''], m, st)
      | Ota_handler \<Rightarrow> Some (ESP_OK, [Resp_error 501 (Some ''Unsupported method'')], m, st)
      | Admin_enable_handler \<Rightarrow>
          do {
            m \<leftarrow> set_admin_en d True m;
            Some (send_ok, [Resp_type ''text/html'', Resp_send (emb ''index_html'')], m, st)
          }
      | Exit_handler \<Rightarrow> Some (ESP_OK, [Resp_send []], m, stop_http_server api st))"

section \<open>What a post changes\<close>

lemma store_bytes_at:
  "m a = Some bs \<Longrightarrow> off + length new \<le> length bs \<Longrightarrow>
     store_bytes m (Some (a, off)) new = Some (m(a \<mapsto> take off bs @ new @ drop (off + length new) bs))"
  by (simp add: store_bytes_def put_bytes_def)

text \<open>A field of which a post writes a value of its size inside one object.\<close>

definition post_field_ok :: "mem \<Rightarrow> json_field_t \<Rightarrow> bool" where
  "post_field_ok m f =
     (case field_ptr f of
        None \<Rightarrow> True
      | Some (a, off) \<Rightarrow>
          (case m a of
             None \<Rightarrow> False
           | Some bs \<Rightarrow>
               (case field_type f of JSON_FIELD_INT \<Rightarrow> off + 4 \<le> length bs
                | JSON_FIELD_BOOL \<Rightarrow> off + 1 \<le> length bs | JSON_FIELD_STR \<Rightarrow> False)))"

lemma post_field_ok_shape: "same_shape m m' \<Longrightarrow> post_field_ok m f \<Longrightarrow> post_field_ok m' f"
  unfolding same_shape_def post_field_ok_def
  by (auto split: option.splits prod.splits json_field_type_t.splits dest: spec)
    (metis option.distinct(1) option.simps(8,9) option.inject)+

lemma post_item_ok:
  assumes "post_field_ok m f" "field_ptr f \<noteq> None"
  shows "\<exists>m'. post_item f item m = Some m' \<and> same_shape m m'"
proof -
  obtain a off where p: "field_ptr f = Some (a, off)" using assms(2) by auto
  then obtain bs where bs: "m a = Some bs" using assms(1) by (auto simp: post_field_ok_def split: option.splits)
  have store: "off + length new \<le> length bs \<Longrightarrow> \<exists>m'. store_bytes m (field_ptr f) new = Some m' \<and> same_shape m m'" for new
    using bs by (simp add: p store_bytes_at same_shape_def)
  show ?thesis
    using assms(1) p bs store [of "le_bytes 4 v" for v] store [of "[b]" for b]
    by (cases "field_type f"; cases item) (auto simp: post_field_ok_def post_item_def)
qed

lemma post_fields_ok:
  "\<forall>f\<in>set fs. post_field_ok m f \<Longrightarrow> \<exists>m'. post_fields item_of fs m = Some m' \<and> same_shape m m'"
proof (induction fs arbitrary: m)
  case Nil
  then show ?case by simp
next
  case (Cons f fs)
  obtain m1 where m1: "(case field_name f of
               None \<Rightarrow> Some m
             | Some name \<Rightarrow>
                 if field_ptr f = None then Some m
                 else (case item_of name of None \<Rightarrow> Some m | Some item \<Rightarrow> post_item f item m)) = Some m1" "same_shape m m1"
  proof (cases "field_name f = None \<or> field_ptr f = None \<or> item_of (the (field_name f)) = None")
    case True
    then show thesis using that [of m] by (cases "field_name f") auto
  next
    case False
    then obtain name item where "field_name f = Some name" "item_of name = Some item" "field_ptr f \<noteq> None" by auto
    then show thesis using that post_item_ok [of m f item] Cons.prems by auto
  qed
  have "\<forall>f\<in>set fs. post_field_ok m1 f" using Cons.prems post_field_ok_shape [OF m1(2)] by auto
  from Cons.IH [OF this] m1 show ?case by (auto intro: same_shape_trans)
qed

text \<open>Between \<open>m\<close> and \<open>m'\<close> only the bytes \<open>S\<close> of the object \<open>d\<close> may have changed.\<close>

definition only_bytes :: "nat \<Rightarrow> nat set \<Rightarrow> mem \<Rightarrow> mem \<Rightarrow> bool" where
  "only_bytes d S m m' \<longleftrightarrow>
     (\<forall>a. a \<noteq> d \<longrightarrow> m' a = m a) \<and>
     (case m d of
        None \<Rightarrow> m' d = None
      | Some bs \<Rightarrow>
          \<exists>new. m' d = Some new \<and> length new = length bs \<and> (\<forall>k < length bs. k \<notin> S \<longrightarrow> new ! k = bs ! k))"

lemma only_bytes_refl: "only_bytes d S m m"
  by (simp add: only_bytes_def split: option.split)

lemma only_bytes_trans: "only_bytes d S m m1 \<Longrightarrow> only_bytes d S m1 m2 \<Longrightarrow> only_bytes d S m m2"
  by (auto simp: only_bytes_def split: option.splits)

lemma only_bytes_store:
  assumes "m d = Some bs" "off + length new \<le> length bs" "{off ..< off + length new} \<subseteq> S"
  shows "only_bytes d S m (m(d \<mapsto> take off bs @ new @ drop (off + length new) bs))"
proof -
  have "(take off bs @ new @ drop (off + length new) bs) ! k = bs ! k" if "k \<notin> S" "k < length bs" for k
  proof -
    have "k < off \<or> off + length new \<le> k" using that(1) assms(3) by (meson atLeastLessThan_iff linorder_not_less subsetD)
    then show ?thesis using assms(2) that(2) by (auto simp: nth_append)
  qed
  then show ?thesis using assms by (simp add: only_bytes_def)
qed

text \<open>The bytes of its object a field is stored to.\<close>

definition field_extent :: "json_field_t \<Rightarrow> nat set" where
  "field_extent f =
     (case field_ptr f of
        None \<Rightarrow> {}
      | Some (a, off) \<Rightarrow>
          (case field_type f of JSON_FIELD_INT \<Rightarrow> {off ..< off + 4} | JSON_FIELD_BOOL \<Rightarrow> {off} | JSON_FIELD_STR \<Rightarrow> UNIV))"

lemma post_item_extent:
  assumes "post_field_ok m f" "field_ptr f = Some (d, off)" "field_extent f \<subseteq> S" "post_item f item m = Some m'"
  shows "only_bytes d S m m'"
proof -
  obtain bs where bs: "m d = Some bs" using assms(1,2) by (auto simp: post_field_ok_def split: option.splits)
  have num: "field_type f = JSON_FIELD_INT \<Longrightarrow> only_bytes d S m (m(d \<mapsto> take off bs @ le_bytes 4 v @ drop (off + 4) bs))" for v :: u32
    using only_bytes_store [of m d bs off "le_bytes 4 v" S] assms(1-3) bs
    by (simp add: post_field_ok_def field_extent_def)
  have bool: "field_type f = JSON_FIELD_BOOL \<Longrightarrow> only_bytes d S m (m(d \<mapsto> take off bs @ [b] @ drop (off + 1) bs))" for b :: u8
    using only_bytes_store [of m d bs off "[b]" S] assms(1-3) bs
    by (simp add: post_field_ok_def field_extent_def)
  show ?thesis
    using assms(1,2,4) bs num bool only_bytes_refl [of d S m] store_bytes_at [of m d bs off]
    by (cases "field_type f"; cases item) (auto simp: post_field_ok_def post_item_def)
qed

lemma post_fields_extent:
  "\<forall>f\<in>set fs. post_field_ok m f \<and> (\<exists>off. field_ptr f = Some (d, off)) \<and> field_extent f \<subseteq> S \<Longrightarrow>
   post_fields item_of fs m = Some m' \<Longrightarrow> only_bytes d S m m'"
proof (induction fs arbitrary: m)
  case Nil
  then show ?case by (simp add: only_bytes_refl)
next
  case (Cons f fs)
  then obtain off where off: "field_ptr f = Some (d, off)" by auto
  obtain m1 where m1: "(case field_name f of
               None \<Rightarrow> Some m
             | Some name \<Rightarrow> (case item_of name of None \<Rightarrow> Some m | Some item \<Rightarrow> post_item f item m)) = Some m1"
    "post_fields item_of fs m1 = Some m'"
    using Cons.prems(2) off by (auto simp: Option.bind_eq_Some_conv cong: option.case_cong)
  have "m1 = m \<or> (\<exists>item. post_item f item m = Some m1)"
    using m1(1) by (auto split: option.splits)
  moreover have "same_shape m m1" if "post_item f item m = Some m1" for item
    using post_item_ok [of m f item] that Cons.prems(1) off by auto
  ultimately have "only_bytes d S m m1" "same_shape m m1"
    using post_item_extent [of m f d off S] Cons.prems(1) off only_bytes_refl
    by auto
  moreover from this have "\<forall>f\<in>set fs. post_field_ok m1 f \<and> (\<exists>off. field_ptr f = Some (d, off)) \<and> field_extent f \<subseteq> S"
    using Cons.prems(1) post_field_ok_shape by auto
  ultimately show ?case using Cons.IH [of m1] m1(2) only_bytes_trans by blast
qed

section \<open>The properties\<close>

lemma api_endpoint_cases:
  assumes "json_api_config d info title = (cfg, cnf)" "h \<in> set (endpoints cnf)"
  shows "(uri h, http_meth h, endpoint_fields cfg h) \<in>
     set (case json_api_config d info title of (cfg, cnf) \<Rightarrow>
            map (\<lambda>h. (uri h, http_meth h, endpoint_fields cfg h)) (endpoints cnf))"
  using assms by force

lemma api_post_fields_ok:
  assumes "json_api_config d info title = (cfg, cnf)" "h \<in> set (endpoints cnf)" "http_meth h = HTTP_POST"
    and "m d = Some bs" "36 \<le> length bs"
  shows "\<forall>f\<in>set (endpoint_fields cfg h). post_field_ok m f"
  using api_endpoint_cases [OF assms(1,2)] assms(3-5) unfolding json_api_eval
  by (auto simp: Let_def api_field_def post_field_ok_def)

text \<open>
  The bytes of the device a post to an endpoint may change.  The members of the configuration are
  the bytes 24 to 31, one each: the speeds, the off and on timers, the interval at 28, the motion
  switch at 29, the humidity at 30, the Wi-Fi switch at 31; at 32 the settings begin, with the pointer
  to the host name of the cloud server.
\<close>

definition post_bytes :: "string \<Rightarrow> nat set" where
  "post_bytes u =
     (if u = ''/wifi'' then {31} else if u = ''/timers'' then {26..30} else if u = ''/speed'' then {24..28}
      else if u = ''/interval'' then {28..31} else if u = ''/motion'' then {29}
      else if u = ''/humidity'' then {30..33} else {})"

lemma post_bytes_simps [simp]:
  "post_bytes ''/wifi'' = {31}" "post_bytes ''/timers'' = {26..30}" "post_bytes ''/speed'' = {24..28}"
  "post_bytes ''/interval'' = {28..31}" "post_bytes ''/motion'' = {29}" "post_bytes ''/humidity'' = {30..33}"
  by (simp_all add: post_bytes_def)

lemma field_extent_api:
  "field_extent (api_field name JSON_FIELD_INT (Some (a, off))) = {off ..< off + 4}"
  "field_extent (api_field name JSON_FIELD_BOOL (Some (a, off))) = {off}"
  "field_ptr (api_field name ty p) = p"
  by (simp_all add: field_extent_def api_field_def)

lemma api_post_table:
  assumes "json_api_config d info title = (cfg, cnf)" "h \<in> set (endpoints cnf)" "http_meth h = HTTP_POST"
  shows "(uri h, endpoint_fields cfg h) \<in>
    {(Some ''/wifi'', [api_field ''wifi_en'' JSON_FIELD_BOOL (Some (d, 31))]),
     (Some ''/timers'', [api_field ''off_timer'' JSON_FIELD_INT (Some (d, 26)), api_field ''on_timer'' JSON_FIELD_INT (Some (d, 27))]),
     (Some ''/speed'', [api_field ''speed1'' JSON_FIELD_INT (Some (d, 24)), api_field ''speed2'' JSON_FIELD_INT (Some (d, 25))]),
     (Some ''/interval'', [api_field ''inter_timer'' JSON_FIELD_INT (Some (d, 28))]),
     (Some ''/motion'', [api_field ''motion_en'' JSON_FIELD_BOOL (Some (d, 29))]),
     (Some ''/humidity'', [api_field ''humidity'' JSON_FIELD_INT (Some (d, 30))])}"
  using api_endpoint_cases [OF assms(1,2)] assms(3) unfolding json_api_eval
  by (simp only: Let_def set_append list.set insert_iff empty_iff prod.inject http_method.distinct simp_thms)

lemma api_post_bytes:
  assumes "json_api_config d info title = (cfg, cnf)" "h \<in> set (endpoints cnf)" "http_meth h = HTTP_POST" "uri h = Some u"
  shows "\<forall>f\<in>set (endpoint_fields cfg h). (\<exists>off. field_ptr f = Some (d, off)) \<and> field_extent f \<subseteq> post_bytes u"
  using api_post_table [OF assms(1-3)] unfolding assms(4)
  by (elim insertE emptyE) (simp_all add: field_extent_api, auto)

lemma api_post_uri:
  assumes "json_api_config d info title = (cfg, cnf)" "h \<in> set (endpoints cnf)" "http_meth h = HTTP_POST"
  shows "\<exists>u. uri h = Some u \<and> u \<in> {''/wifi'', ''/timers'', ''/speed'', ''/interval'', ''/motion'', ''/humidity''}"
  using api_post_table [OF assms(1-3)] by (elim insertE emptyE) simp_all

lemma json_post_run:
  assumes "json_api_config d info title = (cfg, cnf)" "h \<in> set (endpoints cnf)" "http_meth h = HTTP_POST"
    and "m d = Some bs" "36 \<le> length bs" "length nb0 = JSON_MAX_SIZE"
    and "case recv content_len of (len, rx) \<Rightarrow> length rx \<le> content_len \<and> len \<le> int content_len"
    and "uri h = Some u"
  shows "\<exists>e rs m'. json_post_handler lib (Some (endpoint_fields cfg h)) content_len recv send_ok nb0 m = Some (e, rs, m') \<and>
           only_bytes d (post_bytes u) m m' \<and>
           (m' = m \<and> e = ESP_FAIL \<and> (\<exists>code msg. rs = [Resp_error code msg]) \<or>
            e = send_ok \<and> rs = [Resp_type ''text/plain'', Resp_status ''200 OK'', Resp_text ''OK''])"
proof (cases "content_len = 0 \<or> content_len > JSON_MAX_SIZE - 1")
  case True
  then show ?thesis by (auto simp: json_post_handler_def only_bytes_refl)
next
  case False
  obtain len rx where r: "recv content_len = (len, rx)" by (cases "recv content_len")
  then have rx: "length rx \<le> content_len" "len \<le> int content_len" using assms(7) by auto
  let ?nb = "rx @ drop (length rx) nb0"
  have nb: "put_bytes 0 rx nb0 = Some ?nb" "length ?nb = JSON_MAX_SIZE"
    using rx False assms(6) by (simp_all add: put_bytes_def JSON_MAX_SIZE_def)
  show ?thesis
  proof (cases "len \<le> 0")
    case True
    then show ?thesis using False r nb by (simp add: json_post_handler_def only_bytes_refl)
  next
    case pos: False
    then have "nat len + 1 \<le> length ?nb" using nb(2) rx False by (simp add: JSON_MAX_SIZE_def)
    then obtain nb' where nb': "put_bytes (nat len) [0] ?nb = Some nb'" by (simp add: put_bytes_def)
    have fs: "\<forall>f\<in>set (endpoint_fields cfg h). post_field_ok m f"
      by (rule api_post_fields_ok [where m = m, OF assms(1-5)])
    then have fs': "\<forall>f\<in>set (endpoint_fields cfg h). post_field_ok m f \<and> (\<exists>off. field_ptr f = Some (d, off)) \<and>
        field_extent f \<subseteq> post_bytes u"
      using api_post_bytes [OF assms(1-3,8)] by blast
    have "\<exists>m'. post_fields item_of (endpoint_fields cfg h) m = Some m' \<and> only_bytes d (post_bytes u) m m'" for item_of
      using post_fields_ok [OF fs] post_fields_extent [OF fs'] by blast
    then obtain m' where m': "\<And>item_of. post_fields item_of (endpoint_fields cfg h) m = Some (m' item_of) \<and>
        only_bytes d (post_bytes u) m (m' item_of)"
      by metis
    show ?thesis
    proof (cases "cjson_parse lib (c_string nb')")
      case None
      then show ?thesis using False r nb nb' pos by (simp add: json_post_handler_def only_bytes_refl)
    next
      case (Some json)
      then show ?thesis using False r nb nb' pos m' [of "cjson_get_item lib json"] by (simp add: json_post_handler_def)
    qed
  qed
qed

text \<open>C38: A post to an endpoint of the device, whatever its body, either is refused with one error
  response and changes nothing, or is answered \<open>OK\<close>; it accesses no byte outside an object, and of
  all objects it changes only the device, and there only these bytes: the Wi-Fi switch (31) for
  \<open>/wifi\<close> and the motion switch (29) for \<open>/motion\<close>; but 26 to 30 for \<open>/timers\<close>, 24 to 28 for \<open>/speed\<close>, 28 to
  31 for \<open>/interval\<close> and 30 to 33 for \<open>/humidity\<close>, since these store an \<open>int\<close> to members of one byte, and
  reach up to three bytes past their own members.\<close>

theorem json_post_extent:
  assumes "json_api_config d info title = (cfg, cnf)" "h \<in> set (endpoints cnf)" "http_meth h = HTTP_POST"
    and "m d = Some bs" "36 \<le> length bs" "length nb0 = JSON_MAX_SIZE"
    and "case recv content_len of (len, rx) \<Rightarrow> length rx \<le> content_len \<and> len \<le> int content_len"
  shows "\<exists>u e rs m' new. uri h = Some u \<and>
      u \<in> {''/wifi'', ''/timers'', ''/speed'', ''/interval'', ''/motion'', ''/humidity''} \<and>
      json_post_handler lib (Some (endpoint_fields cfg h)) content_len recv send_ok nb0 m = Some (e, rs, m') \<and>
      (\<forall>a. a \<noteq> d \<longrightarrow> m' a = m a) \<and> m' d = Some new \<and> length new = length bs \<and>
      (\<forall>k < length bs.
         k \<notin> (if u = ''/wifi'' then {31} else if u = ''/timers'' then {26..30} else if u = ''/speed'' then {24..28}
               else if u = ''/interval'' then {28..31} else if u = ''/motion'' then {29} else {30..33}) \<longrightarrow>
         new ! k = bs ! k) \<and>
      (m' = m \<and> e = ESP_FAIL \<and> (\<exists>code msg. rs = [Resp_error code msg]) \<or>
       e = send_ok \<and> rs = [Resp_type ''text/plain'', Resp_status ''200 OK'', Resp_text ''OK''])"
proof -
  obtain u where u: "uri h = Some u" "u \<in> {''/wifi'', ''/timers'', ''/speed'', ''/interval'', ''/motion'', ''/humidity''}"
    using api_post_uri [OF assms(1-3)] by (elim exE conjE) (rule that)
  obtain e rs m' where r: "json_post_handler lib (Some (endpoint_fields cfg h)) content_len recv send_ok nb0 m = Some (e, rs, m')"
    "only_bytes d (post_bytes u) m m'"
    "m' = m \<and> e = ESP_FAIL \<and> (\<exists>code msg. rs = [Resp_error code msg]) \<or>
     e = send_ok \<and> rs = [Resp_type ''text/plain'', Resp_status ''200 OK'', Resp_text ''OK'']"
    using json_post_run [where lib = lib and recv = recv and send_ok = send_ok and m = m and content_len = content_len,
        OF assms u(1)] by blast
  have bytes: "post_bytes u = (if u = ''/wifi'' then {31} else if u = ''/timers'' then {26..30} else if u = ''/speed'' then {24..28}
      else if u = ''/interval'' then {28..31} else if u = ''/motion'' then {29} else {30..33})"
    using u(2) unfolding post_bytes_def by (elim insertE emptyE) simp_all
  obtain new where new: "\<forall>a. a \<noteq> d \<longrightarrow> m' a = m a" "m' d = Some new" "length new = length bs"
      "\<forall>k < length bs. k \<notin> post_bytes u \<longrightarrow> new ! k = bs ! k"
    using r(2) assms(4) by (auto simp: only_bytes_def)
  show ?thesis by (intro exI conjI; rule u r(1,3) new(1-3) new(4) [unfolded bytes])
qed

text \<open>A parser that finds a humidity of 300 in every body, and a device of 40 zero bytes.\<close>

definition test_lib :: "unit cjson_lib" where
  "test_lib =
     \<lparr>cjson_parse = (\<lambda>_. Some ()), cjson_get_item = (\<lambda>_ n. if n = ''humidity'' then Some (JNumber 300) else None),
      cjson_create_object = Some (), cjson_add_item = (\<lambda>_ _ _. Some ()), cjson_print = (\<lambda>_. Some [])\<rparr>"

definition test_mem :: mem where
  "test_mem = Map.empty(7 \<mapsto> replicate 40 0)"

lemma humidity_endpoint:
  "\<exists>cfg cnf h. json_api_config 7 None None = (cfg, cnf) \<and> h \<in> set (endpoints cnf) \<and>
     uri h = Some ''/humidity'' \<and> http_meth h = HTTP_POST"
proof -
  obtain cfg cnf where c: "json_api_config 7 None None = (cfg, cnf)" by (cases "json_api_config 7 None None")
  have "(Some ''/humidity'', HTTP_POST, [api_field ''humidity'' JSON_FIELD_INT (Some (7, 30))]) \<in>
      set (map (\<lambda>h. (uri h, http_meth h, endpoint_fields cfg h)) (endpoints cnf))"
    using json_api_eval [of 7 None None] by (simp add: c Let_def)
  with c show ?thesis by auto
qed

theorem json_post_extent_witness:
  "\<exists>cfg cnf h e rs m' new. json_api_config 7 None None = (cfg, cnf) \<and> h \<in> set (endpoints cnf) \<and>
     json_post_handler test_lib (Some (endpoint_fields cfg h)) 16 (\<lambda>n. (int n, replicate n 0x20)) ESP_OK
       (replicate JSON_MAX_SIZE 0) test_mem = Some (e, rs, m') \<and>
     m' 7 = Some new \<and> length new = 40 \<and> new ! 29 = 0 \<and> new ! 34 = 0"
proof -
  obtain cfg cnf h where e: "json_api_config 7 None None = (cfg, cnf)" "h \<in> set (endpoints cnf)" "http_meth h = HTTP_POST"
      "uri h = Some ''/humidity''"
    using humidity_endpoint by blast
  have m: "test_mem 7 = Some (replicate 40 0)" "36 \<le> length (replicate 40 (0::u8))"
      "length (replicate JSON_MAX_SIZE (0::u8)) = JSON_MAX_SIZE"
      "case (\<lambda>n. (int n, replicate n (0x20::u8))) 16 of (len, rx) \<Rightarrow> length rx \<le> 16 \<and> len \<le> int 16"
    by (simp_all add: test_mem_def)
  from json_post_extent [where m = test_mem and recv = "\<lambda>n. (int n, replicate n 0x20)" and content_len = 16 and
      lib = test_lib and send_ok = ESP_OK, OF e(1-3) m]
  obtain e' rs m' new where r: "json_post_handler test_lib (Some (endpoint_fields cfg h)) 16
        (\<lambda>n. (int n, replicate n 0x20)) ESP_OK (replicate JSON_MAX_SIZE 0) test_mem = Some (e', rs, m')"
      "m' 7 = Some new" "length new = 40" "\<forall>k < 40. k \<notin> {30..33} \<longrightarrow> new ! k = replicate 40 0 ! k"
    using e(4) by auto
  have "new ! 29 = 0" "new ! 34 = 0" using r(4) [rule_format, of 29] r(4) [rule_format, of 34] by simp_all
  with e r show ?thesis by blast
qed

text \<open>Setting the humidity threshold over HTTP stores an \<open>int\<close> over the byte it is kept in: the
  Wi-Fi switch and the low half of the pointer to the host name of the cloud server are
  overwritten with the upper bytes of the number.\<close>

lemma post_humidity_overwrites:
  assumes "json_api_config d info title = (cfg, cnf)" "h \<in> set (endpoints cnf)"
    and "uri h = Some ''/humidity''" "http_meth h = HTTP_POST"
    and "m d = Some bs" "36 \<le> length bs" "item_of ''humidity'' = Some (JNumber v)"
  shows "post_fields item_of (endpoint_fields cfg h) m = Some (m(d \<mapsto> take 30 bs @ le_bytes 4 v @ drop 34 bs))"
proof -
  have "endpoint_fields cfg h = [api_field ''humidity'' JSON_FIELD_INT (Some (d, 30))]"
    using api_endpoint_cases [OF assms(1,2)] assms(3,4) unfolding json_api_eval by (auto simp: Let_def)
  then show ?thesis using assms(5-7) by (simp add: api_field_def post_item_def store_bytes_at)
qed

lemma post_humidity_overwrites_witness:
  "\<exists>cfg cnf h. json_api_config 7 None None = (cfg, cnf) \<and> h \<in> set (endpoints cnf) \<and>
     post_fields (cjson_get_item test_lib ()) (endpoint_fields cfg h) test_mem =
       Some (test_mem(7 \<mapsto> replicate 30 0 @ [44, 1, 0, 0] @ replicate 6 0))"
proof -
  obtain cfg cnf h where e: "json_api_config 7 None None = (cfg, cnf)" "h \<in> set (endpoints cnf)"
      "uri h = Some ''/humidity''" "http_meth h = HTTP_POST"
    using humidity_endpoint by blast
  have m: "test_mem 7 = Some (replicate 40 0)" "36 \<le> length (replicate 40 (0::u8))"
      "cjson_get_item test_lib () ''humidity'' = Some (JNumber 300)"
    by (simp_all add: test_mem_def test_lib_def)
  have "take 30 (replicate 40 0) @ le_bytes 4 (300::u32) @ drop 34 (replicate 40 0) =
      replicate 30 0 @ [44, 1, 0, 0] @ replicate 6 0"
    by (simp add: le_bytes_def upt_conv_Cons)
  with post_humidity_overwrites [where m = test_mem and item_of = "cjson_get_item test_lib ()", OF e m] e show ?thesis by auto
qed

text \<open>A string field that \<open>add_json_field\<close> put into the array keeps the maximal length 0, so
  a posted string is copied with a limit of 2^32 - 1 bytes: an access outside the object,
  whatever the string.\<close>

lemma post_string_field_faults:
  assumes "add_json_field cfg (Some name) JSON_FIELD_STR (Some (a, off)) = (True, cfg')"
    and "fields_used cfg < length (field_data cfg)" "max_len (field_data cfg ! fields_used cfg) = 0"
    and "m a = Some bs" "length bs < 2 ^ 32 - 1"
  shows "post_item (field_data cfg' ! fields_used cfg) (JString (Some str)) m = None"
proof -
  let ?f = "field_data cfg' ! fields_used cfg"
  have f: "field_type ?f = JSON_FIELD_STR" "field_ptr ?f = Some (a, off)" "max_len ?f = 0"
    using assms(1-3) by (auto simp: add_json_field_def Let_def split: if_splits)
  have n: "unat (max_len ?f - 1) = 2 ^ 32 - 1"
    unfolding f(3) by (simp add: unsigned_minus_1_eq_mask mask_eq_exp_minus_1)
  have "length (strncpy_bytes str (2 ^ 32 - 1)) \<ge> 2 ^ 32 - 1" by (simp add: strncpy_bytes_def)
  then have "put_bytes off (strncpy_bytes str (2 ^ 32 - 1)) bs = None"
    using assms(5) unfolding put_bytes_def by auto
  then show ?thesis using f assms(4) unfolding post_item_def n by (simp add: store_bytes_def)
qed

lemma post_string_field_faults_witness:
  "post_item (field_data (snd (add_json_field (init_field_cfg [zero_field] 1) (Some ''ssid'') JSON_FIELD_STR (Some (7, 2)))) ! 0)
     (JString (Some [0x61])) test_mem = None"
proof -
  obtain cfg' where c: "add_json_field (init_field_cfg [zero_field] 1) (Some ''ssid'') JSON_FIELD_STR (Some (7, 2)) = (True, cfg')"
    by (simp add: add_json_field_def init_field_cfg_def)
  from post_string_field_faults [OF c, of test_mem "replicate 40 0" "[0x61]"] c show ?thesis
    by (simp add: init_field_cfg_def zero_field_def test_mem_def)
qed

text \<open>An API that accepts every handler.\<close>

lemma register_static_all:
  "\<forall>e s. httpd_register_uri_handler api srv e s = (ESP_OK, add e s) \<Longrightarrow>
     register_static api srv us s =
       fold add (map (\<lambda>(u, meth, t). \<lparr>entry_uri = u, entry_method = meth, entry_target = Static_target t\<rparr>) us) s"
  by (induction us arbitrary: s) auto

lemma register_endpoints:
  assumes "\<forall>e s. httpd_register_uri_handler api srv e s = (ESP_OK, add e s)"
    and "\<forall>h\<in>set hs. uri h \<noteq> None \<and> 0 < field_count h \<and> (http_meth h = HTTP_POST \<or> http_meth h = HTTP_GET)"
  shows "fold (\<lambda>h s. snd (register_json_handler api (Some srv) h s)) hs s =
     fold add (map (\<lambda>h. \<lparr>entry_uri = the (uri h), entry_method = http_meth h, entry_target = Json_target h\<rparr>) hs) s"
  using assms(2)
proof (induction hs arbitrary: s)
  case Nil
  then show ?case by simp
next
  case (Cons h hs)
  then show ?case using assms(1) by (auto simp: register_json_handler_def)
qed

text \<open>With a server that starts and accepts its handlers, \<open>init_http_server\<close> stops the server that
  ran before, registers the 13 endpoints and the 8 pages in this order, within the limit it asked for,
  and takes the administrator's rights away.\<close>

lemma http_server_entries:
  assumes "httpd_start api HANDLERS_NUM (httpd (stop_http_server api st)) = (ESP_OK, Some srv, h1)"
    and "\<forall>e s. httpd_register_uri_handler api srv e s = (ESP_OK, add e s)"
    and "m d = Some bs" "36 \<le> length bs" "json_api_config d info title = (cfg, cnf)"
  shows "init_http_server api d info title m st =
           Some (True, m(d \<mapsto> take 20 bs @ [0] @ drop 21 bs),
             \<lparr>http_server = Some srv,
              httpd = fold add
                (map (\<lambda>h. \<lparr>entry_uri = the (uri h), entry_method = http_meth h, entry_target = Json_target h\<rparr>) (endpoints cnf) @
                 map (\<lambda>(u, meth, t). \<lparr>entry_uri = u, entry_method = meth, entry_target = Static_target t\<rparr>) uri_list) h1\<rparr>) \<and>
         length (endpoints cnf) = 13 \<and> length (endpoints cnf) + length uri_list \<le> HANDLERS_NUM"
proof -
  have ok: "cfg_ok (cfg, cnf)"
    using assms(5) api.run_inv [OF init_ok, of "replicate JSON_FIELD_NUM zero_field" JSON_FIELD_NUM
      "replicate JSON_HANDLERS_NUM zero_handler" JSON_HANDLERS_NUM "json_api_ops d info title"]
    by (simp add: json_api_config_def)
  have "length (map (\<lambda>h. (uri h, http_meth h, endpoint_fields cfg h)) (endpoints cnf)) = 13"
    using json_api_eval [of d info title] by (simp add: assms(5) Let_def)
  then have n: "length (endpoints cnf) = 13" by simp
  have "\<forall>h\<in>set (endpoints cnf). uri h \<noteq> None \<and> 0 < field_count h \<and> (http_meth h = HTTP_POST \<or> http_meth h = HTTP_GET)"
    using api_endpoint_cases [OF assms(5)] ok unfolding json_api_eval by (auto simp: Let_def cfg_ok_def)
  note regs = register_endpoints [OF assms(2) this] register_static_all [OF assms(2)]
  have adm: "set_admin_en d False m = Some (m(d \<mapsto> take 20 bs @ [0] @ drop 21 bs))"
    using assms(3,4) by (simp add: set_admin_en_def status_offset_def store_bytes_at)
  have limit: "13 + length uri_list \<le> HANDLERS_NUM"
    by (simp add: uri_list_def HANDLERS_NUM_def STATIC_URI_NUM_def JSON_HANDLERS_NUM_def)
  show ?thesis
    using assms(1,5) n regs adm limit by (simp add: init_http_server_def register_json_api_handlers_def Let_def)
qed

definition test_httpd :: "uri_entry list httpd_api" where
  "test_httpd = \<lparr>httpd_start = (\<lambda>_ _. (ESP_OK, Some 1, [])), httpd_stop = (\<lambda>_ h. h),
     httpd_register_uri_handler = (\<lambda>_ e h. (ESP_OK, h @ [e]))\<rparr>"

lemma http_server_entries_witness:
  "\<exists>m' st'. init_http_server test_httpd 7 None None test_mem \<lparr>http_server = None, httpd = []\<rparr> = Some (True, m', st') \<and>
     http_server st' = Some 1"
proof -
  obtain cfg cnf where c: "json_api_config 7 None None = (cfg, cnf)" by (cases "json_api_config 7 None None")
  have a: "httpd_start test_httpd HANDLERS_NUM (httpd (stop_http_server test_httpd \<lparr>http_server = None, httpd = []\<rparr>)) =
      (ESP_OK, Some 1, [])"
    "\<forall>e s. httpd_register_uri_handler test_httpd 1 e s = (ESP_OK, s @ [e])"
    "test_mem 7 = Some (replicate 40 0)" "36 \<le> length (replicate 40 (0::u8))"
    by (simp_all add: test_httpd_def test_mem_def)
  from http_server_entries [where add = "\<lambda>e s. s @ [e]" and m = test_mem and api = test_httpd, OF a c] show ?thesis by simp
qed

end
