(* ===== verification/Json_Roundtrip.thy ===== *)
theory Json_Roundtrip
  imports Json_Http
begin

text \<open>
  The two JSON handlers of \<open>components/device_network/json_helper.c\<close> together: what an endpoint
  reports after a post.  The laws of cJSON are those its documentation states.  An endpoint
  whose fields do not overlap in memory reports what was posted; at the end are the endpoints of the
  device, two of which have fields that overlap.
\<close>

section \<open>The documented library\<close>

text \<open>
  An object is empty when it is created; an item that was added is found under its name and
  changes no other; a printed object is parsed as an object with the same items.
\<close>

definition cjson_laws :: "'j cjson_lib \<Rightarrow> bool" where
  "cjson_laws lib \<longleftrightarrow>
     (\<forall>j name. cjson_create_object lib = Some j \<longrightarrow> cjson_get_item lib j name = None) \<and>
     (\<forall>name v j j'. cjson_add_item lib name v j = Some j' \<longrightarrow>
        (cjson_get_item lib j name = None \<longrightarrow> cjson_get_item lib j' name = Some v) \<and>
        (\<forall>other. other \<noteq> name \<longrightarrow> cjson_get_item lib j' other = cjson_get_item lib j other)) \<and>
     (\<forall>j str. cjson_print lib j = Some str \<longrightarrow>
        (\<exists>j'. cjson_parse lib str = Some j' \<and> cjson_get_item lib j' = cjson_get_item lib j))"

lemma cjson_law:
  assumes "cjson_laws lib"
  shows "cjson_create_object lib = Some j \<Longrightarrow> cjson_get_item lib j name = None"
    "cjson_add_item lib name v j = Some j' \<Longrightarrow> cjson_get_item lib j name = None \<Longrightarrow> cjson_get_item lib j' name = Some v"
    "cjson_add_item lib name v j = Some j' \<Longrightarrow> other \<noteq> name \<Longrightarrow> cjson_get_item lib j' other = cjson_get_item lib j other"
    "cjson_print lib j = Some str \<Longrightarrow> \<exists>j'. cjson_parse lib str = Some j' \<and> cjson_get_item lib j' = cjson_get_item lib j"
  using assms unfolding cjson_laws_def by blast+

section \<open>Fields apart from each other\<close>

definition field_bytes :: "json_field_t \<Rightarrow> nat" where
  "field_bytes f = (if field_type f = JSON_FIELD_INT then 4 else 1)"

definition apart :: "json_field_t \<Rightarrow> json_field_t \<Rightarrow> bool" where
  "apart f g =
     (case (field_ptr f, field_ptr g) of
        (Some (a, i), Some (b, j)) \<Rightarrow> a \<noteq> b \<or> i + field_bytes f \<le> j \<or> j + field_bytes g \<le> i
      | _ \<Rightarrow> False)"

definition named_value :: "json_field_t \<Rightarrow> bool" where
  "named_value f \<longleftrightarrow> field_name f \<noteq> None \<and> field_ptr f \<noteq> None \<and> field_type f \<noteq> JSON_FIELD_STR"

definition fields_apart :: "json_field_t list \<Rightarrow> bool" where
  "fields_apart fs \<longleftrightarrow> list_all named_value fs \<and> distinct (map field_name fs) \<and> sorted_wrt apart fs"

lemma apart_sym: "apart f g \<Longrightarrow> apart g f"
  by (auto simp: apart_def split: option.splits)

text \<open>The value a field has after a post of the items \<open>item_of\<close>, had it the value \<open>old\<close>.\<close>

definition fits :: "json_field_t \<Rightarrow> cjson \<Rightarrow> bool" where
  "fits f item =
     (case item of JNumber _ \<Rightarrow> field_type f = JSON_FIELD_INT | JBool _ \<Rightarrow> field_type f = JSON_FIELD_BOOL | _ \<Rightarrow> False)"

definition posted :: "(string \<Rightarrow> cjson option) \<Rightarrow> json_field_t \<Rightarrow> cjson option \<Rightarrow> cjson option" where
  "posted item_of f old =
     (case item_of (the (field_name f)) of
        Some item \<Rightarrow> if fits f item then Some item else old
      | None \<Rightarrow> old)"

section \<open>Memory\<close>

lemma store_bytes_SomeE:
  assumes "store_bytes m (Some (a, off)) new = Some m'"
  obtains bs where "m a = Some bs" "off + length new \<le> length bs"
    "m' = m(a \<mapsto> take off bs @ new @ drop (off + length new) bs)"
  using assms by (auto simp: store_bytes_def put_bytes_def bind_eq_Some_conv split: if_splits)

lemma load_stored:
  assumes "store_bytes m (Some (a, off)) new = Some m'"
  shows "load_bytes m' (Some (a, off)) (length new) = Some new"
  using assms by (elim store_bytes_SomeE) (simp add: load_bytes_def get_bytes_def)

lemma load_apart:
  assumes "store_bytes m (Some (a, off)) new = Some m'" "a \<noteq> b \<or> off + length new \<le> p \<or> p + k \<le> off"
  shows "load_bytes m' (Some (b, p)) k = load_bytes m (Some (b, p)) k"
proof (cases "a = b")
  case True
  from assms(1) show ?thesis
  proof (rule store_bytes_SomeE)
    fix bs assume bs: "m a = Some bs" "off + length new \<le> length bs"
      and m': "m' = m(a \<mapsto> take off bs @ new @ drop (off + length new) bs)"
    have "take k (drop p (take off bs @ new @ drop (off + length new) bs)) = take k (drop p bs)"
      using assms(2) True bs(2) by (intro nth_equalityI) (auto simp: nth_append)
    then show ?thesis using True bs by (simp add: m' load_bytes_def get_bytes_def)
  qed
qed (use assms(1) in \<open>elim store_bytes_SomeE, simp add: load_bytes_def\<close>)

section \<open>Posting\<close>

text \<open>The bytes of a field as an item, and what a post stores.\<close>

definition bytes_item :: "json_field_t \<Rightarrow> u8 list \<Rightarrow> cjson" where
  "bytes_item f bs = (if field_type f = JSON_FIELD_INT then JNumber (le_word bs) else JBool (bs \<noteq> [0]))"

lemma field_value_bytes:
  "named_value f \<Longrightarrow> field_value f m = map_option (bytes_item f) (load_bytes m (field_ptr f) (field_bytes f))"
  by (cases "field_type f") (auto simp: named_value_def field_value_def bytes_item_def [abs_def] field_bytes_def)

lemma post_item_cases:
  assumes "named_value f" "post_item f item m = Some m'"
  shows "(\<not> fits f item \<and> m' = m) \<or>
    (fits f item \<and> (\<exists>new. length new = field_bytes f \<and> store_bytes m (field_ptr f) new = Some m' \<and> bytes_item f new = item))"
proof (cases "fits f item")
  case False
  then show ?thesis using assms
    by (cases "field_type f"; cases item) (auto simp: post_item_def fits_def named_value_def)
next
  case True
  then consider v where "item = JNumber v" "field_type f = JSON_FIELD_INT"
    | b where "item = JBool b" "field_type f = JSON_FIELD_BOOL"
    by (cases item) (auto simp: fits_def)
  then show ?thesis
  proof cases
    case 1
    then show ?thesis using assms(2) True
      by (intro disjI2 conjI exI [of _ "le_bytes 4 v"]) (simp_all add: post_item_def bytes_item_def field_bytes_def)
  next
    case 2
    then show ?thesis using assms(2) True
      by (intro disjI2 conjI exI [of _ "[if b then 1 else 0]"])
        (simp_all add: post_item_def bytes_item_def field_bytes_def)
  qed
qed

lemma post_item_value:
  assumes "named_value f" "post_item f item m = Some m'"
  shows "field_value f m' = (if fits f item then Some item else field_value f m)"
proof -
  obtain a off where p: "field_ptr f = Some (a, off)" using assms(1) by (auto simp: named_value_def)
  from post_item_cases [OF assms] show ?thesis
  proof (elim disjE conjE exE)
    fix new assume "fits f item" "length new = field_bytes f" "store_bytes m (field_ptr f) new = Some m'" "bytes_item f new = item"
    then show ?thesis using load_stored [of m a off new m'] p by (simp add: field_value_bytes [OF assms(1)])
  qed simp
qed

lemma post_item_apart:
  assumes "named_value f" "named_value g" "apart f g" "post_item f item m = Some m'"
  shows "field_value g m' = field_value g m"
proof -
  obtain a off b p where p: "field_ptr f = Some (a, off)" "field_ptr g = Some (b, p)"
    using assms(1,2) by (auto simp: named_value_def)
  from post_item_cases [OF assms(1,4)] show ?thesis
  proof (elim disjE conjE exE)
    fix new assume "length new = field_bytes f" "store_bytes m (field_ptr f) new = Some m'"
    then show ?thesis using load_apart [of m a off new m' b p "field_bytes g"] p assms(3)
      by (simp add: field_value_bytes [OF assms(2)] apart_def)
  qed simp
qed

lemma post_fields_value:
  "fields_apart fs \<Longrightarrow> post_fields item_of fs m = Some m' \<Longrightarrow>
     (\<forall>f \<in> set fs. field_value f m' = posted item_of f (field_value f m)) \<and>
     (\<forall>g. named_value g \<and> (\<forall>f \<in> set fs. apart f g) \<longrightarrow> field_value g m' = field_value g m)"
proof (induction fs arbitrary: m)
  case Nil
  then show ?case by simp
next
  case (Cons f fs)
  obtain name where f: "named_value f" "field_name f = Some name" "field_ptr f \<noteq> None"
    using Cons.prems(1) by (auto simp: fields_apart_def named_value_def)
  have fs: "fields_apart fs" "\<forall>g \<in> set fs. named_value g \<and> apart f g"
    using Cons.prems(1) by (auto simp: fields_apart_def list_all_iff)
  obtain m1 where m1: "(case item_of name of None \<Rightarrow> Some m | Some item \<Rightarrow> post_item f item m) = Some m1"
      "post_fields item_of fs m1 = Some m'"
    using Cons.prems(2) f by (auto simp: bind_eq_Some_conv)
  have v: "field_value f m1 = posted item_of f (field_value f m)"
    using m1(1) f(1,2) post_item_value by (auto simp: posted_def split: option.splits)
  have o: "field_value g m1 = field_value g m" if "named_value g" "apart f g" for g
    using m1(1) f(1) that post_item_apart by (auto split: option.splits)
  have IH: "\<forall>g \<in> set fs. field_value g m' = posted item_of g (field_value g m1)"
    "\<forall>g. named_value g \<and> (\<forall>h \<in> set fs. apart h g) \<longrightarrow> field_value g m' = field_value g m1"
    using Cons.IH [OF fs(1) m1(2)] by auto
  have "field_value f m' = field_value f m1" using IH(2) f(1) fs(2) apart_sym by blast
  then show ?case using v o IH fs(2) by simp
qed

section \<open>Getting\<close>

lemma get_fields_items:
  assumes "cjson_laws lib"
  shows "list_all named_value fs \<Longrightarrow> distinct (map field_name fs) \<Longrightarrow>
     \<forall>f \<in> set fs. cjson_get_item lib j (the (field_name f)) = None \<Longrightarrow>
     get_fields lib fs m j = Some (Some j') \<Longrightarrow>
     (\<forall>f \<in> set fs. cjson_get_item lib j' (the (field_name f)) = field_value f m) \<and>
     (\<forall>name. Some name \<notin> field_name ` set fs \<longrightarrow> cjson_get_item lib j' name = cjson_get_item lib j name)"
proof (induction fs arbitrary: j)
  case Nil
  then show ?case by simp
next
  case (Cons f fs)
  obtain name where f: "field_name f = Some name" "field_ptr f \<noteq> None"
    using Cons.prems(1) by (auto simp: named_value_def)
  obtain v j1 where v: "field_value f m = Some v" "cjson_add_item lib name v j = Some j1"
      "get_fields lib fs m j1 = Some (Some j')"
    using Cons.prems(4) f by (auto simp: add_field_to_json_def bind_eq_Some_conv split: option.splits)
  have names: "\<forall>g \<in> set fs. field_name g \<noteq> None \<and> the (field_name g) \<noteq> name"
    using Cons.prems(1,2) f(1) by (auto simp: list_all_iff named_value_def image_iff)
  have "\<forall>g \<in> set fs. cjson_get_item lib j1 (the (field_name g)) = None"
    using Cons.prems(3) names cjson_law(3) [OF assms v(2)] by simp
  then have IH: "\<forall>g \<in> set fs. cjson_get_item lib j' (the (field_name g)) = field_value g m"
    "\<forall>name. Some name \<notin> field_name ` set fs \<longrightarrow> cjson_get_item lib j' name = cjson_get_item lib j1 name"
    using Cons.IH [OF _ _ _ v(3)] Cons.prems(1,2) by auto
  have "cjson_get_item lib j1 name = Some v" using cjson_law(2) [OF assms v(2)] Cons.prems(3) f(1) by simp
  then have "cjson_get_item lib j' name = field_value f m" using IH(2) names v(1) by force
  then show ?case using IH f(1) cjson_law(3) [OF assms v(2)] by simp
qed

lemma field_value_total: "named_value f \<Longrightarrow> post_field_ok m f \<Longrightarrow> field_value f m \<noteq> None"
  by (auto simp: named_value_def post_field_ok_def field_value_def load_bytes_def get_bytes_def
      split: option.splits json_field_type_t.splits)

lemma get_fields_total:
  "list_all named_value fs \<Longrightarrow> \<forall>f \<in> set fs. post_field_ok m f \<Longrightarrow> get_fields lib fs m j \<noteq> None"
proof (induction fs arbitrary: j)
  case (Cons f fs)
  then obtain v where "field_value f m = Some v" using field_value_total [of f m] by auto
  then show ?case using Cons by (auto simp: add_field_to_json_def split: option.splits)
qed simp

lemma get_fields_fails:
  "get_fields lib fs m j = Some None \<Longrightarrow> \<exists>name v j. cjson_add_item lib name v j = None"
proof (induction fs arbitrary: j)
  case (Cons f fs)
  show ?case
  proof (cases "field_name f = None \<or> field_ptr f = None")
    case True
    then show ?thesis using Cons by simp
  next
    case False
    then obtain v where v: "field_value f m = Some v"
      using Cons.prems by (auto simp: add_field_to_json_def bind_eq_Some_conv)
    show ?thesis
    proof (cases "cjson_add_item lib (the (field_name f)) v j")
      case None
      then show ?thesis by blast
    next
      case (Some j1)
      then show ?thesis using Cons.IH [of j1] Cons.prems False v by (simp add: add_field_to_json_def)
    qed
  qed
qed simp

section \<open>The endpoints of the device\<close>

text \<open>
  The fields of the endpoints for the timers and the speeds overlap: their settings are bytes side by
  side, stored as \<open>int\<close>.  A speed that was posted with the other is not read back.
\<close>

lemma device_fields_apart:
  assumes "json_api_config d info title = (cfg, cnf)" "h \<in> set (endpoints cnf)" "http_meth h = HTTP_POST"
  shows "fields_apart (endpoint_fields cfg h) \<longleftrightarrow> uri h \<noteq> Some ''/timers'' \<and> uri h \<noteq> Some ''/speed''"
  using api_endpoint_cases [OF assms(1,2)] assms(3) unfolding json_api_eval
  by (auto simp: Let_def api_field_def fields_apart_def apart_def named_value_def field_bytes_def)

lemma speeds_overlap:
  assumes "m d = Some bs" "36 \<le> length bs"
    and "item_of ''speed1'' = Some (JNumber 2)" "item_of ''speed2'' = Some (JNumber 3)"
    and "post_fields item_of fs m = Some m'"
    and "fs = [api_field ''speed1'' JSON_FIELD_INT (Some (d, 24)), api_field ''speed2'' JSON_FIELD_INT (Some (d, 25))]"
  shows "field_value (hd fs) m' = Some (JNumber 770)"
proof -
  have "m' d = Some (take 25 (take 24 bs @ le_bytes 4 (2::u32) @ drop 28 bs) @ le_bytes 4 (3::u32) @
      drop 29 (take 24 bs @ le_bytes 4 (2::u32) @ drop 28 bs))"
    using assms by (auto simp: api_field_def post_item_def store_bytes_at)
  moreover have "le_bytes 4 (2::u32) = [2, 0, 0, 0]" "le_bytes 4 (3::u32) = [3, 0, 0, 0]"
    by (simp_all add: le_bytes_def upt_conv_Cons)
  ultimately show ?thesis using assms(2,6)
    by (simp add: api_field_def field_value_def load_bytes_def get_bytes_def min_def)
qed

section \<open>A library\<close>

text \<open>
  Objects as lists of items.  An object is printed as the number of its items and the items, an item as
  its name and its value, a text with its length, and a length as so many ones and a two.
\<close>

definition enc_length :: "nat \<Rightarrow> u8 list" where
  "enc_length n = replicate n 1 @ [2]"

definition dec_length :: "u8 list \<Rightarrow> nat \<times> u8 list" where
  "dec_length bs = (let n = length (takeWhile (\<lambda>b. b = 1) bs) in (n, drop (Suc n) bs))"

lemma dec_enc_length [simp]: "dec_length (enc_length n @ rest) = (n, rest)"
  by (simp add: dec_length_def enc_length_def Let_def takeWhile_append)

definition enc_text :: "u8 list \<Rightarrow> u8 list" where
  "enc_text bs = enc_length (length bs) @ bs"

definition dec_text :: "u8 list \<Rightarrow> u8 list \<times> u8 list" where
  "dec_text bs = (case dec_length bs of (n, rest) \<Rightarrow> (take n rest, drop n rest))"

lemma dec_enc_text [simp]: "dec_text (enc_text bs @ rest) = (bs, rest)"
  by (simp add: dec_text_def enc_text_def)

fun enc_value :: "cjson \<Rightarrow> u8 list" where
  "enc_value (JNumber n) = 1 # le_bytes 4 n"
| "enc_value (JBool b) = [if b then 2 else 3]"
| "enc_value (JString (Some str)) = 4 # enc_text str"
| "enc_value (JString None) = [5]"
| "enc_value JOther = [6]"

definition dec_value :: "u8 list \<Rightarrow> cjson \<times> u8 list" where
  "dec_value bs =
     (let t = hd bs; rest = tl bs in
      if t = 1 then (JNumber (le_word (take 4 rest)), drop 4 rest)
      else if t = 2 then (JBool True, rest)
      else if t = 3 then (JBool False, rest)
      else if t = 4 then (case dec_text rest of (str, rest) \<Rightarrow> (JString (Some str), rest))
      else if t = 5 then (JString None, rest)
      else (JOther, rest))"

lemma dec_enc_value [simp]: "dec_value (enc_value v @ rest) = (v, rest)"
  by (cases v rule: enc_value.cases) (simp_all add: dec_value_def Let_def)

definition enc_item :: "string \<times> cjson \<Rightarrow> u8 list" where
  "enc_item x = enc_text (map (\<lambda>c. of_nat (of_char c)) (fst x)) @ enc_value (snd x)"

fun dec_items :: "nat \<Rightarrow> u8 list \<Rightarrow> (string \<times> cjson) list" where
  "dec_items 0 bs = []"
| "dec_items (Suc n) bs =
     (let (name, rest) = dec_text bs; (v, rest) = dec_value rest in
      (map (\<lambda>b. char_of (unat b)) name, v) # dec_items n rest)"

definition enc_object :: "(string \<times> cjson) list \<Rightarrow> u8 list" where
  "enc_object j = enc_length (length j) @ concat (map enc_item j)"

definition dec_object :: "u8 list \<Rightarrow> (string \<times> cjson) list" where
  "dec_object bs = (case dec_length bs of (n, rest) \<Rightarrow> dec_items n rest)"

definition list_lib :: "(string \<times> cjson) list cjson_lib" where
  "list_lib =
     \<lparr>cjson_parse = (\<lambda>bs. Some (dec_object bs)), cjson_get_item = map_of, cjson_create_object = Some [],
      cjson_add_item = (\<lambda>name v j. Some (j @ [(name, v)])), cjson_print = (\<lambda>j. Some (enc_object j))\<rparr>"

lemma dec_enc_items: "dec_items (length j) (concat (map enc_item j) @ rest) = j"
proof (induction j)
  case (Cons x j)
  have "map (\<lambda>b. char_of (unat b)) (map (\<lambda>c. of_nat (of_char c) :: u8) name) = name" for name
    by (simp add: unat_of_nat take_bit_nat_eq_self comp_def)
  then show ?case using Cons by (simp add: enc_item_def)
qed simp

lemma dec_enc_object: "dec_object (enc_object j) = j"
  using dec_enc_items [of j "[]"] by (simp add: dec_object_def enc_object_def)

lemma list_lib_works:
  "cjson_create_object list_lib = Some []" "cjson_add_item list_lib name v j = Some (j @ [(name, v)])"
  "cjson_print list_lib j = Some (enc_object j)"
  by (simp_all add: list_lib_def)

lemma list_lib_laws: "cjson_laws list_lib"
  by (auto simp: cjson_laws_def list_lib_def map_add_Some_iff map_add_def dec_enc_object split: option.splits)

section \<open>Properties\<close>

lemma c_string_zero: "0 \<notin> set bs \<Longrightarrow> c_string (bs @ 0 # rest) = bs"
  by (induction bs) (auto simp: c_string_def)

lemma post_accepted:
  assumes "recv n = (int (length body), body)" "body \<noteq> []" "0 \<notin> set body" "length body \<le> n" "n < JSON_MAX_SIZE"
    "length buf = JSON_MAX_SIZE" "cjson_parse lib body = Some json"
  shows "json_post_handler lib (Some fs) n recv send_ok buf m =
    map_option (\<lambda>m'. (send_ok, [Resp_type ''text/plain'', Resp_status ''200 OK'', Resp_text ''OK''], m'))
      (post_fields (cjson_get_item lib json) fs m)"
proof -
  let ?nb = "body @ drop (length body) buf"
  have nb: "put_bytes 0 body buf = Some ?nb" using assms(4-6) by (simp add: put_bytes_def)
  have nb': "put_bytes (length body) [0] ?nb = Some (body @ 0 # drop (Suc (length body)) buf)"
    using assms(4-6) by (simp add: put_bytes_def)
  have "c_string (body @ 0 # drop (Suc (length body)) buf) = body" by (rule c_string_zero [OF assms(3)])
  moreover have "0 < n" using assms(2,4) by (cases n) auto
  ultimately show ?thesis using assms(1,2,5,7) nb nb'
    by (cases "post_fields (cjson_get_item lib json) fs m") (simp_all add: json_post_handler_def)
qed

text \<open>C39: A post to an endpoint whose fields are apart is accepted, and a get of the same fields then
  answers a document in which every field has the item that was posted, if there was one of its type, and
  otherwise the value it had; the get fails only with a library that fails to create, extend or
  print an object.\<close>

theorem json_roundtrip:
  assumes "cjson_laws lib" "fields_apart fs" "\<forall>f \<in> set fs. post_field_ok m f"
    and "recv n = (int (length body), body)" "body \<noteq> []" "0 \<notin> set body" "length body \<le> n" "n < JSON_MAX_SIZE"
    and "length buf = JSON_MAX_SIZE" "cjson_parse lib body = Some json"
  shows "\<exists>m' e rs. json_post_handler lib (Some fs) n recv send_ok buf m =
      Some (send_ok, [Resp_type ''text/plain'', Resp_status ''200 OK'', Resp_text ''OK''], m') \<and>
    json_get_handler lib (Some fs) get_ok m' = Some (e, rs) \<and>
    (rs = [Resp_error 500 None] \<and> e = ESP_FAIL \<and>
       (cjson_create_object lib = None \<or> (\<exists>name v j. cjson_add_item lib name v j = None) \<or>
        (\<exists>j. cjson_print lib j = None)) \<or>
     e = get_ok \<and>
     (\<exists>str j. rs = [Resp_type ''application/json'', Resp_str str] \<and> cjson_parse lib str = Some j \<and>
       (\<forall>f \<in> set fs. cjson_get_item lib j (the (field_name f)) =
          posted (cjson_get_item lib json) f (field_value f m))))"
proof -
  let ?items = "cjson_get_item lib json"
  obtain m' where m': "post_fields ?items fs m = Some m'" "same_shape m m'" using post_fields_ok [OF assms(3)] by blast
  have post: "json_post_handler lib (Some fs) n recv send_ok buf m =
      Some (send_ok, [Resp_type ''text/plain'', Resp_status ''200 OK'', Resp_text ''OK''], m')"
    using post_accepted [where recv = recv and fs = fs and m = m, OF assms(4-10)] m'(1) by simp
  have named: "list_all named_value fs" "distinct (map field_name fs)" using assms(2) by (auto simp: fields_apart_def)
  have vals: "\<forall>f \<in> set fs. field_value f m' = posted ?items f (field_value f m)"
    using post_fields_value [OF assms(2) m'(1)] by blast
  have ok: "\<forall>f \<in> set fs. post_field_ok m' f" using assms(3) post_field_ok_shape [OF m'(2)] by blast
  show ?thesis
  proof (cases "cjson_create_object lib")
    case None
    then show ?thesis using post by (simp add: json_get_handler_def)
  next
    case (Some obj)
    obtain r where r: "get_fields lib fs m' obj = Some r" using get_fields_total [OF named(1) ok, of lib obj] by auto
    show ?thesis
    proof (cases "Option.bind r (cjson_print lib)")
      case None
      then have "(\<exists>name v j. cjson_add_item lib name v j = None) \<or> (\<exists>j. cjson_print lib j = None)"
        using get_fields_fails [where lib = lib and fs = fs and m = m' and j = obj] r by (cases r) auto
      then show ?thesis using None post Some r by (simp add: json_get_handler_def)
    next
      case str: (Some str)
      then obtain j where j: "r = Some j" "cjson_print lib j = Some str" by (auto simp: bind_eq_Some_conv)
      obtain j' where "cjson_parse lib str = Some j'" "cjson_get_item lib j' = cjson_get_item lib j"
        using cjson_law(4) [OF assms(1) j(2)] by blast
      moreover have "\<forall>f \<in> set fs. cjson_get_item lib j (the (field_name f)) = field_value f m'"
        using get_fields_items [OF assms(1) named, of obj m' j] cjson_law(1) [OF assms(1) Some] r j(1) by simp
      ultimately show ?thesis using post Some r j vals by (simp add: json_get_handler_def)
    qed
  qed
qed

text \<open>The interval is set to 300; the endpoint of the device at object 7 has it at offset 28.\<close>

definition interval_doc :: "u8 list" where
  "interval_doc = enc_length 1 @ enc_length 11 @ [0x69, 0x6E, 0x74, 0x65, 0x72, 0x5F, 0x74, 0x69, 0x6D, 0x65, 0x72, 1, 44, 1, 255, 1]"

lemma interval_doc_item: "cjson_get_item list_lib (dec_object interval_doc) ''inter_timer'' = Some (JNumber 0x01FF012C)"
  by code_simp

theorem json_roundtrip_witness:
  "\<exists>m' str j. json_post_handler list_lib (Some [api_field ''inter_timer'' JSON_FIELD_INT (Some (7, 28))])
      30 (\<lambda>n. (30, interval_doc)) ESP_OK (replicate JSON_MAX_SIZE 0) test_mem =
        Some (ESP_OK, [Resp_type ''text/plain'', Resp_status ''200 OK'', Resp_text ''OK''], m') \<and>
    json_get_handler list_lib (Some [api_field ''inter_timer'' JSON_FIELD_INT (Some (7, 28))]) ESP_OK m' =
      Some (ESP_OK, [Resp_type ''application/json'', Resp_str str]) \<and> cjson_parse list_lib str = Some j \<and>
    cjson_get_item list_lib j ''inter_timer'' = Some (JNumber 0x01FF012C)"
proof -
  let ?fs = "[api_field ''inter_timer'' JSON_FIELD_INT (Some (7, 28))]"
  have "fields_apart ?fs" "\<forall>f \<in> set ?fs. post_field_ok test_mem f"
    by (simp_all add: fields_apart_def named_value_def api_field_def post_field_ok_def test_mem_def)
  moreover have "cjson_parse list_lib interval_doc = Some (dec_object interval_doc)"
    by (simp add: list_lib_def)
  moreover have "0 \<notin> set interval_doc" "interval_doc \<noteq> []" "length interval_doc = 30"
    by (simp_all add: interval_doc_def enc_length_def)
  ultimately show ?thesis
    using json_roundtrip [where recv = "\<lambda>n. (30, interval_doc)" and send_ok = ESP_OK and get_ok = ESP_OK
        and fs = "?fs" and m = test_mem and n = 30 and body = interval_doc and buf = "replicate JSON_MAX_SIZE 0",
        OF list_lib_laws] interval_doc_item
    by (auto simp: api_field_def posted_def fits_def JSON_MAX_SIZE_def list_lib_works)
qed

end
