(* ===== verification/Udp_Client.thy ===== *)
theory Udp_Client
  imports Udp_Comm
begin

text \<open>
  The task of \<open>components/device_network/udp_client.c\<close> keeps to its buffers and closes its socket,
  whatever the network does, for every pair of handlers that keep to the buffers themselves.
\<close>

text \<open>
  The handler of requests writes into a buffer of 512 bytes; \<open>recvfrom\<close> is allowed one byte less than
  the buffer has.
\<close>

definition request_safe :: "request_handler \<Rightarrow> bool" where
  "request_safe mk \<longleftrightarrow>
     (\<forall>b. length b = UDP_RECV_BUF_SIZE \<longrightarrow>
        (\<exists>k b'. mk b = Some (k, b') \<and> length b' = UDP_RECV_BUF_SIZE \<and> k \<le> int UDP_RECV_BUF_SIZE))"

definition client_round_ok :: "'a client_round \<Rightarrow> bool" where
  "client_round_ok rd = (case recv_res rd of Received bs a \<Rightarrow> length bs \<le> UDP_RECV_BUF_SIZE - 1 | _ \<Rightarrow> True)"

lemma buf_sizes: "UDP_RECV_BUF_SIZE = 512" "UDP_SEND_BUF_SIZE = 512"
  by (simp_all add: UDP_RECV_BUF_SIZE_def UDP_SEND_BUF_SIZE_def)

lemma front_bytes: "0 < k \<Longrightarrow> k \<le> int (length b) \<Longrightarrow> get_bytes 0 (nat k) b = Some (take (nat k) b)"
  by (simp add: get_bytes_def)

lemma udp_ok_sent:
  "udp_ok st \<Longrightarrow> 0 < k \<Longrightarrow> k \<le> int (length b) \<Longrightarrow> length b = 512 \<Longrightarrow>
     udp_ok (st\<lparr>sent := sent st @ [(take (nat k) b, a)]\<rparr>)"
  by (auto simp: udp_ok_def buf_sizes)

lemma udp_ok_buffers:
  "udp_ok st \<Longrightarrow> length q = 512 \<Longrightarrow> length r = 512 \<Longrightarrow> udp_ok (st\<lparr>query_buf := q, response_buf := r\<rparr>)"
  by (auto simp: udp_ok_def buf_sizes)

lemma client_round_keeps:
  assumes "udp_handler parse" "request_safe mk" "udp_ok st" "client_round_ok rd"
  shows "\<exists>st'. udp_client_round mk parse dest rd st = Some st' \<and> udp_ok st'"
proof -
  obtain st0 where st0: "(if sock st < 0
    then (if open_res rd < 0 then st else st\<lparr>sock := open_res rd, opened := opened st @ [open_res rd]\<rparr>) else st) = st0"
    by simp
  have ok: "udp_ok st0" using assms(3) st0 by (auto simp: udp_ok_def split: if_splits)
  then have len: "length (query_buf st0) = 512" "length (response_buf st0) = 512" by (simp_all add: udp_ok_def buf_sizes)
  obtain k rx where mk: "mk (query_buf st0) = Some (k, rx)" "length rx = 512" "k \<le> int (length rx)"
    using assms(2) len(1) unfolding request_safe_def buf_sizes by force
  have ok1: "udp_ok (st0\<lparr>query_buf := rx\<rparr>)" using ok mk(2) by (auto simp: udp_ok_def buf_sizes)
  consider (quiet) "sock st0 < 0 \<or> k \<le> 0 \<or> send_res rd < 0" | (sent) "\<not> sock st0 < 0" "0 < k" "\<not> send_res rd < 0"
    by linarith
  then show ?thesis
  proof cases
    case quiet
    then show ?thesis using mk ok ok1 front_bytes [of k rx] unfolding udp_client_round_def Let_def st0
      by (cases "k \<le> 0") auto
  next
    case sent
    let ?st2 = "st0\<lparr>query_buf := rx, sent := sent st0 @ [(take (nat k) rx, dest)]\<rparr>"
    have ok2: "udp_ok ?st2" using udp_ok_sent [OF ok1 sent(2) mk(3,2), of dest] by simp
    note run = udp_client_round_def Let_def st0 mk(1) front_bytes [OF sent(2) mk(3)]
    show ?thesis
    proof (cases "\<exists>bs a. recv_res rd = Received bs a \<and> bs \<noteq> []")
      case False
      then show ?thesis using sent ok2 unfolding run by (cases "recv_res rd") (auto simp: run)
    next
      case True
      then obtain bs a where r: "recv_res rd = Received bs a" "bs \<noteq> []" by blast
      have bs: "length bs \<le> 511" using assms(4) r(1) by (simp add: client_round_ok_def buf_sizes)
      let ?rx = "bs @ drop (length bs) rx"
      have rx: "put_bytes 0 bs rx = Some ?rx" "length ?rx = 512" using bs mk(2) by (simp_all add: put_bytes_front)
      obtain j tx where p: "parse ?rx (length bs) (response_buf st0) = Some (j, tx)" "length tx = 512" "j \<le> int (length tx)"
        using udp_handler.handler_safe [OF assms(1), of ?rx "length bs" "response_buf st0"] rx(2) bs len(2)
        unfolding buf_sizes by force
      have ok3: "udp_ok (?st2\<lparr>query_buf := ?rx, response_buf := tx\<rparr>)" by (rule udp_ok_buffers [OF ok2 rx(2) p(2)])
      have "0 < j \<Longrightarrow> udp_ok (?st2\<lparr>query_buf := ?rx, response_buf := tx, sent := sent ?st2 @ [(take (nat j) tx, a)]\<rparr>)"
        using udp_ok_sent [OF ok3 _ p(3,2), of a] by simp
      then show ?thesis using sent r bs rx(1) p ok3 front_bytes [of j tx]
        by (cases "0 < j") (auto simp: run buf_sizes)
    qed
  qed
qed

lemma client_loop_keeps:
  "udp_handler parse \<Longrightarrow> request_safe mk \<Longrightarrow> udp_ok st \<Longrightarrow> \<forall>rd\<in>set rds. client_round_ok rd \<Longrightarrow>
     \<exists>done st'. udp_client_loop ctrl mk parse dest rds st = Some (done, st') \<and>
       (\<forall>(m, a)\<in>set (sent st'). 0 < length m \<and> length m \<le> UDP_SEND_BUF_SIZE) \<and> (done \<longrightarrow> closed st' = opened st')"
proof (induction rds arbitrary: st)
  case Nil
  then show ?case by (auto simp: udp_ok_def intro: exI [of _ False])
next
  case (Cons rd rds)
  show ?case
  proof (cases "round_bits rd AND ctrl \<noteq> 0")
    case True
    obtain st1 where "udp_client_round mk parse dest rd st = Some st1" "udp_ok st1"
      using client_round_keeps [of parse mk st rd dest] Cons.prems by auto
    then show ?thesis using Cons.IH [of st1] Cons.prems True by simp
  next
    case False
    then show ?thesis using Cons.prems(3) by (auto simp: udp_ok_def)
  qed
qed

text \<open>A client that was started and given a handler for requests and one for responses.\<close>

lemma client_task_safe:
  assumes "create_request_handler conf = Some mk" "parse_response_handler conf = Some parse"
    and "udp_handler parse" "request_safe mk" "\<forall>rd\<in>set rds. client_round_ok rd"
    and "length rx0 = UDP_RECV_BUF_SIZE" "length tx0 = UDP_RECV_BUF_SIZE"
  shows "\<exists>done st'. udp_client_task (Some conf) getaddrinfo rx0 tx0 rds = Some (done, st') \<and>
       (\<forall>(m, a)\<in>set (sent st'). 0 < length m \<and> length m \<le> UDP_SEND_BUF_SIZE) \<and> (done \<longrightarrow> closed st' = opened st')"
proof -
  let ?st = "\<lparr>sock = -1, query_buf = rx0, response_buf = tx0, sent = [], opened = [], closed = []\<rparr>"
  have ok: "udp_ok ?st" using assms(6,7) by (simp add: udp_ok_def buf_sizes)
  show ?thesis using client_loop_keeps [OF assms(3,4) ok assms(5)] assms(1,2)
    by (auto simp: udp_client_task_def Let_def split: option.splits)
qed

end
