(* ===== verification/Flash_Memory.thy ===== *)
theory Flash_Memory
  imports Device
begin

text \<open>
  What \<open>components/device_memory/device_memory.c\<close> gives its users: a blob that was written is read
  back, other blobs stay.  The NVS library of ESP-IDF is the parameter of \<open>Device\<close>; what its
  documentation says of it is \<open>nvs_stores\<close>.  At the end is the unit test of the component,
  \<open>test/test_memory.c\<close>, which expects the results the other way round.
\<close>

section \<open>The documented library\<close>

text \<open>
  \<open>stored s ns\<close> are the blobs of the name space \<open>ns\<close> in the flash, \<open>space s h\<close> is the name space of
  the open handle \<open>h\<close> and whether it may write, \<open>pending s h\<close> what was set through it since its last
  commit.  A set blob is sure to be in the flash only after a commit (until then the flash may
  hold anything under its name, since the library may write at other times too); setting, and
  committing, need a handle that is open for writing, reading one that is open; closing does not
  write.  A read sees what the handle set over what is stored.
\<close>

type_synonym 's stored = "'s \<Rightarrow> string \<Rightarrow> string \<Rightarrow> u8 list option"
type_synonym 's pending = "'s \<Rightarrow> nat \<Rightarrow> string \<Rightarrow> u8 list option"
type_synonym 's space = "'s \<Rightarrow> nat \<Rightarrow> (string \<times> bool) option"

definition open_law :: "'s stored \<Rightarrow> 's pending \<Rightarrow> 's space \<Rightarrow> string \<Rightarrow> bool \<Rightarrow> 's \<Rightarrow> esp_err \<times> nat \<times> 's \<Rightarrow> bool" where
  "open_law stored pending space ns w s r \<longleftrightarrow>
     (case r of (e, h, s') \<Rightarrow>
        stored s' = stored s \<and>
        (e = ESP_OK \<longrightarrow> space s' h = Some (ns, w) \<and> pending s' h = Map.empty))"

definition set_law :: "'s stored \<Rightarrow> 's pending \<Rightarrow> 's space \<Rightarrow> nat \<Rightarrow> string \<Rightarrow> u8 list \<Rightarrow> 's \<Rightarrow> esp_err \<times> 's \<Rightarrow> bool" where
  "set_law stored pending space h n bs s r \<longleftrightarrow>
     (case r of (e, s') \<Rightarrow>
        (case space s h of
           Some (ns, True) \<Rightarrow>
             (\<forall>ns' n'. (ns', n') \<noteq> (ns, n) \<longrightarrow> stored s' ns' n' = stored s ns' n') \<and>
             (e = ESP_OK \<longrightarrow> space s' h = Some (ns, True) \<and> pending s' h = (pending s h)(n \<mapsto> bs))
         | _ \<Rightarrow> e \<noteq> ESP_OK \<and> stored s' = stored s))"

definition commit_law :: "'s stored \<Rightarrow> 's pending \<Rightarrow> 's space \<Rightarrow> nat \<Rightarrow> 's \<Rightarrow> esp_err \<times> 's \<Rightarrow> bool" where
  "commit_law stored pending space h s r \<longleftrightarrow>
     (case r of (e, s') \<Rightarrow>
        (case space s h of
           Some (ns, True) \<Rightarrow>
             (\<forall>ns' n'. ns' \<noteq> ns \<or> pending s h n' = None \<longrightarrow> stored s' ns' n' = stored s ns' n') \<and>
             (e = ESP_OK \<longrightarrow> stored s' ns = stored s ns ++ pending s h)
         | Some (ns, False) \<Rightarrow> stored s' = stored s
         | None \<Rightarrow> e \<noteq> ESP_OK \<and> stored s' = stored s))"

definition get_law :: "'s stored \<Rightarrow> 's pending \<Rightarrow> 's space \<Rightarrow> nat \<Rightarrow> string \<Rightarrow> nat \<Rightarrow> 's \<Rightarrow>
    esp_err \<times> u8 list \<times> 's \<Rightarrow> bool" where
  "get_law stored pending space h n k s r \<longleftrightarrow>
     (case r of (e, bs, s') \<Rightarrow>
        stored s' = stored s \<and>
        (case space s h of
           None \<Rightarrow> e \<noteq> ESP_OK \<and> bs = []
         | Some (ns, w) \<Rightarrow>
             (case (stored s ns ++ pending s h) n of
                Some b \<Rightarrow> (if length b \<le> k then e = ESP_OK \<and> bs = b else e \<noteq> ESP_OK \<and> bs = [])
              | None \<Rightarrow> e \<noteq> ESP_OK \<and> bs = [])))"

definition nvs_stores :: "'s nvs_api \<Rightarrow> 's stored \<Rightarrow> 's pending \<Rightarrow> 's space \<Rightarrow> bool" where
  "nvs_stores api stored pending space \<longleftrightarrow>
     (\<forall>ns w s. open_law stored pending space ns w s (nvs_open api ns w s)) \<and>
     (\<forall>h n bs s. set_law stored pending space h n bs s (nvs_set_blob api h n bs s)) \<and>
     (\<forall>h s. commit_law stored pending space h s (nvs_commit api h s)) \<and>
     (\<forall>h s. stored (nvs_close api h s) = stored s) \<and>
     (\<forall>h n k s. get_law stored pending space h n k s (nvs_get_blob api h n k s))"

lemma nvs_laws:
  assumes "nvs_stores api stored pending space"
  shows "nvs_open api ns w s = ro \<Longrightarrow> open_law stored pending space ns w s ro"
    "nvs_set_blob api h n bs s = rs \<Longrightarrow> set_law stored pending space h n bs s rs"
    "nvs_commit api h s = rs \<Longrightarrow> commit_law stored pending space h s rs"
    "stored (nvs_close api h s) = stored s"
    "nvs_get_blob api h n k s = rg \<Longrightarrow> get_law stored pending space h n k s rg"
  using assms unfolding nvs_stores_def by blast+

section \<open>Writing and reading\<close>

lemma write_flash_stores:
  assumes "nvs_stores api stored pending space" "write_flash api name (Some d) n s = Some (True, s')" "0 < n"
  shows "stored s' SPACE_NAME name = Some (take n d) \<and> n \<le> length d \<and>
    (\<forall>ns name'. (ns, name') \<noteq> (SPACE_NAME, name) \<longrightarrow> stored s' ns name' = stored s ns name')"
proof -
  note laws = assms(1)
  obtain e h s1 where o: "nvs_open api SPACE_NAME True s = (e, h, s1)"
    by (cases "nvs_open api SPACE_NAME True s") auto
  obtain e2 s2 where w: "nvs_set_blob api h name (take n d) s1 = (e2, s2)" by fastforce
  obtain e3 s3 where c: "nvs_commit api h s2 = (e3, s3)" by fastforce
  have r: "n \<le> length d" "e = ESP_OK" "e2 = ESP_OK" "e3 = ESP_OK" "s' = nvs_close api h s3"
    using assms(2,3) o w c by (auto simp: write_flash_def split: if_splits)
  have o: "stored s1 = stored s" "space s1 h = Some (SPACE_NAME, True)" "pending s1 h = Map.empty"
    using nvs_laws(1) [OF laws o] r(2) by (simp_all add: open_law_def)
  have w: "space s2 h = Some (SPACE_NAME, True)" "pending s2 h = (pending s1 h)(name \<mapsto> take n d)"
    "\<forall>ns' n'. (ns', n') \<noteq> (SPACE_NAME, name) \<longrightarrow> stored s2 ns' n' = stored s1 ns' n'"
    using nvs_laws(2) [OF laws w] r(3) o(2) by (simp_all add: set_law_def)
  have c: "stored s3 SPACE_NAME = stored s2 SPACE_NAME ++ pending s2 h"
    "ns' \<noteq> SPACE_NAME \<Longrightarrow> stored s3 ns' = stored s2 ns'" for ns'
    using nvs_laws(3) [OF laws c] r(4) w(1) by (auto simp: commit_law_def)
  have st: "stored s' = stored s3" using nvs_laws(4) [OF laws] r(5) by simp
  have "stored s' ns name' = stored s ns name'" if "(ns, name') \<noteq> (SPACE_NAME, name)" for ns name'
    using that c w(2,3) o(1,3) st by (cases "ns = SPACE_NAME") (auto simp: map_add_def)
  then show ?thesis using r(1) c(1) w(2) o(3) st by simp
qed

lemma read_flash_stored:
  assumes laws: "nvs_stores api stored pending space" and "stored s SPACE_NAME name = Some b"
    "length b \<le> n" "0 < n" "n \<le> length buf"
  shows "\<exists>r s'. read_flash api name (Some buf) n s = Some (r, Some (if r then b @ drop (length b) buf else buf), s') \<and>
    (r \<longleftrightarrow> fst (nvs_open api SPACE_NAME False s) = ESP_OK) \<and> stored s' = stored s"
proof -
  obtain e h s1 where o: "nvs_open api SPACE_NAME False s = (e, h, s1)"
    by (cases "nvs_open api SPACE_NAME False s") auto
  have b1: "stored s1 = stored s"
    and b2: "e = ESP_OK \<Longrightarrow> space s1 h = Some (SPACE_NAME, False) \<and> pending s1 h = Map.empty"
    using nvs_laws(1) [OF laws o] by (simp_all add: open_law_def)
  show ?thesis
  proof (cases "e = ESP_OK")
    case False
    then show ?thesis using o assms(4) b1
      by (intro exI [of _ False] exI [of _ "nvs_close api h s1"]) (simp add: read_flash_def nvs_laws(4) [OF laws])
  next
    case True
    obtain e2 bs s2 where g: "nvs_get_blob api h name n s1 = (e2, bs, s2)"
      by (cases "nvs_get_blob api h name n s1") auto
    have "e2 = ESP_OK \<and> bs = b" "stored s2 = stored s"
      using nvs_laws(5) [OF laws g] b1 b2 [OF True] assms(2,3) by (simp_all add: get_law_def)
    moreover have "length b \<le> length buf" using assms(3,5) by simp
    ultimately show ?thesis using o g True assms(4) nvs_laws(4) [OF laws]
      by (intro exI [of _ True]) (simp add: read_flash_def memcpy_def)
  qed
qed

text \<open>A library that keeps in each handle what was set, and stores it at the commit.\<close>

record nvs_mem =
  blobs :: "string \<Rightarrow> string \<Rightarrow> u8 list option"
  handles :: "nat \<Rightarrow> (string \<times> bool \<times> (string \<Rightarrow> u8 list option)) option"
  next_handle :: nat

definition map_nvs :: "nvs_mem nvs_api" where
  "map_nvs = \<lparr>nvs_flash_init = Pair ESP_OK, nvs_flash_erase = (\<lambda>s. (ESP_OK, s\<lparr>blobs := \<lambda>_ _. None\<rparr>)),
     nvs_open = (\<lambda>ns w s. (ESP_OK, next_handle s,
        s\<lparr>handles := (handles s)(next_handle s \<mapsto> (ns, w, \<lambda>_. None)), next_handle := Suc (next_handle s)\<rparr>)),
     nvs_get_blob = (\<lambda>h n k s. case handles s h of
          None \<Rightarrow> (ESP_FAIL, [], s)
        | Some (ns, w, p) \<Rightarrow>
            (case (blobs s ns ++ p) n of
               Some b \<Rightarrow> if length b \<le> k then (ESP_OK, b, s) else (ESP_FAIL, [], s)
             | None \<Rightarrow> (ESP_FAIL, [], s))),
     nvs_set_blob = (\<lambda>h n bs s. case handles s h of
          Some (ns, True, p) \<Rightarrow> (ESP_OK, s\<lparr>handles := (handles s)(h \<mapsto> (ns, True, p(n \<mapsto> bs)))\<rparr>)
        | _ \<Rightarrow> (ESP_FAIL, s)),
     nvs_commit = (\<lambda>h s. case handles s h of
          Some (ns, True, p) \<Rightarrow> (ESP_OK, s\<lparr>blobs := (blobs s)(ns := blobs s ns ++ p),
                                          handles := (handles s)(h \<mapsto> (ns, True, \<lambda>_. None))\<rparr>)
        | Some _ \<Rightarrow> (ESP_OK, s)
        | None \<Rightarrow> (ESP_FAIL, s)),
     nvs_close = (\<lambda>h s. s\<lparr>handles := (handles s)(h := None)\<rparr>)\<rparr>"

definition mem_pending :: "nvs_mem \<Rightarrow> nat \<Rightarrow> string \<Rightarrow> u8 list option" where
  "mem_pending s h = (case handles s h of Some (ns, w, p) \<Rightarrow> p | None \<Rightarrow> (\<lambda>_. None))"

definition mem_space :: "nvs_mem \<Rightarrow> nat \<Rightarrow> (string \<times> bool) option" where
  "mem_space s h = map_option (\<lambda>(ns, w, p). (ns, w)) (handles s h)"

lemma map_nvs_stores: "nvs_stores map_nvs blobs mem_pending mem_space"
  by (auto simp: nvs_stores_def map_nvs_def mem_pending_def mem_space_def open_law_def set_law_def
      commit_law_def get_law_def map_add_def split: option.split bool.split prod.split)

section \<open>The unit test\<close>

text \<open>
  The second test case writes the structure and reads it back; the assertions of both cases
  compare the \<open>bool\<close> results with \<open>ESP_OK\<close>, which is 0, and then the two structures.
\<close>

definition equals_esp_ok :: "bool \<Rightarrow> bool" where
  "equals_esp_ok r \<longleftrightarrow> (if r then 1 else 0 :: int) = 0"

definition test_init :: "'s nvs_api \<Rightarrow> 's \<Rightarrow> bool \<times> 's" where
  "test_init api s = (case init_nvs api s of (r, s) \<Rightarrow> (equals_esp_ok r, s))"

definition test_write_read :: "'s nvs_api \<Rightarrow> u8 list \<Rightarrow> u8 list \<Rightarrow> 's \<Rightarrow> bool list option" where
  "test_write_read api test_w_data test_r_data s =
     do {
       (r1, s) \<leftarrow> write_flash api ''test1'' (Some test_w_data) (length test_w_data) s;
       (r2, buf, s) \<leftarrow> read_flash api ''test1'' (Some test_r_data) (length test_w_data) s;
       Some [equals_esp_ok r1, equals_esp_ok r2, buf = Some test_w_data]
     }"

lemma test_init_inverted: "fst (test_init api s) \<longleftrightarrow> \<not> fst (init_nvs api s)"
  by (simp add: test_init_def equals_esp_ok_def case_prod_beta)

text \<open>With a library that works the data are right, but the assertions on the results fail.\<close>

lemma test_write_read_fails:
  assumes "nvs_stores api stored pending space" "length r = length w" "w \<noteq> []"
    "write_flash api ''test1'' (Some w) (length w) s = Some (True, s')"
    "fst (nvs_open api SPACE_NAME False s') = ESP_OK"
  shows "test_write_read api w r s = Some [False, False, True]"
proof -
  have "stored s' SPACE_NAME ''test1'' = Some w" using write_flash_stores [OF assms(1,4)] assms(3) by simp
  then obtain s'' where "read_flash api ''test1'' (Some r) (length w) s' = Some (True, Some (w @ drop (length w) r), s'')"
    using read_flash_stored [OF assms(1), of s' "''test1''" w "length w" r] assms(2,3,5) by auto
  then show ?thesis using assms(2,4) by (simp add: test_write_read_def equals_esp_ok_def)
qed

section \<open>Properties\<close>

text \<open>C26: What \<open>write_flash\<close> reports as written is committed to the name space of the device under its
  name, and every other blob of every name space is as it was; a later \<open>read_flash\<close> delivers it at the
  front of the buffer, leaving the rest of it, unless the name space cannot be opened, which is
  reported.\<close>

theorem flash_roundtrip:
  assumes "nvs_stores api stored pending space" "write_flash api name (Some d) n s = Some (True, s')"
    "0 < n" "n \<le> length buf"
  shows "stored s' SPACE_NAME name = Some (take n d) \<and>
    (\<forall>ns name'. (ns, name') \<noteq> (SPACE_NAME, name) \<longrightarrow> stored s' ns name' = stored s ns name') \<and>
    (\<exists>r s''. read_flash api name (Some buf) n s' = Some (r, Some (if r then take n d @ drop n buf else buf), s'') \<and>
       (r \<longleftrightarrow> fst (nvs_open api SPACE_NAME False s') = ESP_OK) \<and> stored s'' = stored s')"
proof -
  have w: "stored s' SPACE_NAME name = Some (take n d)" "length (take n d) = n"
    and o: "\<forall>ns name'. (ns, name') \<noteq> (SPACE_NAME, name) \<longrightarrow> stored s' ns name' = stored s ns name'"
    using write_flash_stores [OF assms(1-3)] by simp_all
  from read_flash_stored [OF assms(1) w(1) _ assms(3,4)] w o show ?thesis by auto
qed

text \<open>An empty memory, to which two of three bytes are written.\<close>

definition empty_nvs :: nvs_mem where
  "empty_nvs = \<lparr>blobs = \<lambda>_ _. None, handles = \<lambda>_. None, next_handle = 1\<rparr>"

definition wifi_nvs :: nvs_mem where
  "wifi_nvs = \<lparr>blobs = (\<lambda>_ _. None)(SPACE_NAME := [''wifi'' \<mapsto> [1, 2]]), handles = \<lambda>_. None, next_handle = 2\<rparr>"

theorem flash_roundtrip_witness:
  "\<exists>s''. read_flash map_nvs ''wifi'' (Some [9, 9, 9]) 2 wifi_nvs = Some (True, Some [1, 2, 9], s'') \<and>
     blobs s'' = (\<lambda>_ _. None)(SPACE_NAME := [''wifi'' \<mapsto> [1, 2]])"
proof -
  have "write_flash map_nvs ''wifi'' (Some [1, 2, 3]) 2 empty_nvs = Some (True, wifi_nvs)"
    by (simp add: write_flash_def map_nvs_def empty_nvs_def wifi_nvs_def)
  moreover have "fst (nvs_open map_nvs SPACE_NAME False wifi_nvs) = ESP_OK" by (simp add: map_nvs_def)
  ultimately show ?thesis
    using flash_roundtrip [OF map_nvs_stores, of "''wifi''" "[1, 2, 3]" 2 empty_nvs wifi_nvs "[9, 9, 9]"]
    by (auto simp: wifi_nvs_def)
qed

end
