(* ===== verification/Unit_Tests.thy ===== *)
theory Unit_Tests
  imports Bgcp_Requests Json_Config Event_Dispatch
begin

text \<open>
  Unit tests of the repository that need no hardware, as programs of the model: the test cases of
  \<open>components/bgcp/test/test_bgcp.c\<close>, of the static JSON configuration in
  \<open>components/device_network/test/test_server.c\<close>, and of \<open>components/event_manager/test/test_event_manager.c\<close>.
  A test case is the list of its assertions, in order; the lemmas say which of them hold.
\<close>

section \<open>BGCP\<close>

text \<open>The static variables of the test: objects 0 to 4, in the order they are bound.\<close>

definition P_POWER :: u16 where "P_POWER = 1"
definition P_BPS_ROTOR_MODE :: u16 where "P_BPS_ROTOR_MODE = 4"
definition P_10V_SENSOR_CTRL :: u16 where "P_10V_SENSOR_CTRL = 22"
definition P_CurTEMP_ExAirOut :: u16 where "P_CurTEMP_ExAirOut = 34"
definition P_RTC_CALENDAR :: u16 where "P_RTC_CALENDAR = 112"
definition P_FPLC_MODE :: u16 where "P_FPLC_MODE = 113"
definition P_WIFI_DNS :: u16 where "P_WIFI_DNS = 159"

definition bool_w :: u8 where "bool_w = 0"
definition uint8_t_w :: u8 where "uint8_t_w = 22"
definition uint16_t_w2 :: u16 where "uint16_t_w2 = 321"

definition test_variables :: mem where
  "test_variables = (\<lambda>_. None)(0 := Some [1], 1 := Some [7], 2 := Some (le_bytes 2 (123 :: u16)),
     3 := Some (le_bytes 2 (0 :: u16)), 4 := Some [9])"

text \<open>
  The first test case: the results of the five bindings, and the table.  It calls \<open>bind_uint8_t_param\<close>
  and \<open>bind_uint16_t_param\<close> by their old names.
\<close>

definition test_create_params :: "bool list \<times> Param list" where
  "test_create_params =
     (let (r1, ps) = bind_bool_param P_POWER (Some 0) init_param_list;
          (r2, ps) = bind_uint8_t_param P_BPS_ROTOR_MODE (Some 1) 0 222 ps;
          (r3, ps) = bind_uint16_t_param P_10V_SENSOR_CTRL (Some 2) 0 3000 ps;
          (r4, ps) = bind_uint16_t_param P_RTC_CALENDAR (Some 3) 0 1000 ps;
          (r5, ps) = bind_uint8_t_param P_FPLC_MODE (Some 4) 0 10 ps
      in ([r1, r2, r3, r4, r5], ps))"

definition test_requests :: "BGCPQueue \<Rightarrow> BGCPQueue option" where
  "test_requests q =
     do {
       q \<leftarrow> queue_push_param_uint8_t_data BGCP_FUNC_W P_POWER bool_w (reset_req_queue q);
       q \<leftarrow> queue_push_param_req BGCP_FUNC_INC_RW P_10V_SENSOR_CTRL q;
       q \<leftarrow> queue_push_param_uint16_t_data BGCP_FUNC_W P_RTC_CALENDAR uint16_t_w2 q;
       q \<leftarrow> queue_push_param_uint8_t_data BGCP_FUNC_RW P_BPS_ROTOR_MODE uint8_t_w q;
       q \<leftarrow> queue_push_param_req BGCP_FUNC_R P_POWER q;
       q \<leftarrow> queue_push_param_uint8_t_data BGCP_FUNC_W P_CurTEMP_ExAirOut 123 q;
       q \<leftarrow> queue_push_param_req BGCP_FUNC_DEC_RW P_FPLC_MODE q;
       q \<leftarrow> queue_push_param_req BGCP_FUNC_R P_CurTEMP_ExAirOut q;
       queue_push_param_req BGCP_FUNC_DEC_RW P_WIFI_DNS q
     }"

definition request_asserts :: "BGCPQueue \<Rightarrow> bool list" where
  "request_asserts q =
     (let data = get_req_queue_data q in
      [get_req_queue_size q > 11, data ! 0 = BGCP_FUNC_W, data ! 1 = lo8 P_POWER, data ! 2 = bool_w,
       data ! 3 = BGCP_CMD_FUNC, data ! 4 = BGCP_FUNC_INC_RW, data ! 5 = lo8 P_10V_SENSOR_CTRL,
       data ! 6 = BGCP_CMD_FUNC, data ! 7 = BGCP_FUNC_W, data ! 8 = BGCP_CMD_SIZE, data ! 9 = 2,
       data ! 10 = lo8 P_RTC_CALENDAR])"

text \<open>The third test case parses the bytes of the queue, on the state the others left.\<close>

definition test_state :: "BGCPQueue \<Rightarrow> bgcp" where
  "test_state q = \<lparr>parser = sample_parser, param_list = snd test_create_params, rq = q, mem = test_variables\<rparr>"

definition test_parse :: "BGCPQueue \<Rightarrow> bgcp option" where
  "test_parse q =
     do {
       q \<leftarrow> test_requests q;
       parse sample_app (get_req_queue_data q) (get_req_queue_size q) (test_state q)
     }"

definition parse_asserts :: "bgcp \<Rightarrow> bool list" where
  "parse_asserts s =
     (let buf = get_req_queue_data (rq s) in
      [get_req_queue_size (rq s) > 7, buf ! 0 = BGCP_FUNC_RESP, buf ! 1 = BGCP_CMD_SIZE, buf ! 2 = 2,
       buf ! 3 = lo8 P_10V_SENSOR_CTRL, buf ! 6 = lo8 P_BPS_ROTOR_MODE, buf ! 7 = uint8_t_w,
       buf ! 8 = lo8 P_POWER, buf ! 9 = bool_w])"

definition commit_asserts :: "bgcp \<Rightarrow> bool list" where
  "commit_asserts s =
     [mem s 0 = Some [bool_w], mem s 2 = Some (le_bytes 2 (124 :: u16)),
      mem s 3 = Some (le_bytes 2 uint16_t_w2), mem s 1 = Some [uint8_t_w], mem s 4 = Some [8]]"

lemma test_create_params_passes: "list_all (\<lambda>b. b) (fst test_create_params)"
  by code_simp

lemma test_requests_passes:
  "map_option (\<lambda>q. list_all (\<lambda>b. b) (request_asserts q)) (test_requests sample_queue) = Some True"
  by code_simp

lemma test_parse_passes:
  "map_option (\<lambda>s. list_all (\<lambda>b. b) (parse_asserts s @ commit_asserts s)) (test_parse sample_queue) = Some True"
  by code_simp

section \<open>The static JSON configuration\<close>

text \<open>The two arrays of the test, zero at start; variables are objects from 10 on.\<close>

definition test_fields :: "json_field_t list" where
  "test_fields = replicate 10 \<lparr>field_name = None, field_ptr = None, max_len = 0, field_type = JSON_FIELD_INT\<rparr>"

definition test_handlers :: "json_http_handler_t list" where
  "test_handlers = replicate 6 \<lparr>uri = None, http_meth = HTTP_GET, h_fields = 0, field_count = 0\<rparr>"

definition add_field :: "string \<Rightarrow> json_field_type_t \<Rightarrow> nat \<Rightarrow> json_field_cfg_t \<Rightarrow> bool \<times> json_field_cfg_t" where
  "add_field name ty obj cfg = add_json_field cfg (Some name) ty (Some (obj, 0))"

definition test_field_types :: "bool list" where
  "test_field_types =
     (let (r1, cfg) = add_field ''i'' JSON_FIELD_INT 10 (init_field_cfg test_fields 10);
          (r2, cfg) = add_field ''b'' JSON_FIELD_BOOL 11 cfg;
          (r3, cfg) = add_field ''str'' JSON_FIELD_STR 12 cfg;
          (r4, cfg) = add_field ''string'' JSON_FIELD_STR 14 cfg
      in [r1, r2, r3, r4, fields_used cfg = 5, field_type (field_data cfg ! 0) = JSON_FIELD_INT,
          field_type (field_data cfg ! 1) = JSON_FIELD_BOOL, field_type (field_data cfg ! 2) = JSON_FIELD_STR,
          field_type (field_data cfg ! 4) = JSON_FIELD_STR])"

definition test_field_overflow :: "bool list" where
  "test_field_overflow =
     (let (r1, cfg) = add_field ''a'' JSON_FIELD_INT 10 (init_field_cfg test_fields 2);
          (r2, cfg) = add_field ''b'' JSON_FIELD_INT 11 cfg;
          (r3, cfg) = add_field ''c'' JSON_FIELD_INT 12 cfg
      in [r1, r2, \<not> r3])"

definition test_endpoints :: "bool list" where
  "test_endpoints =
     (let (_, cfg) = add_field ''a'' JSON_FIELD_INT 10 (init_field_cfg test_fields 10);
          (r1, cnf1, cfg) = add_json_endpoint (init_json_config test_handlers 6) (Some ''/test'') HTTP_GET cfg;
          (r2, cnf, cfg) = add_json_endpoint cnf1 (Some ''/test'') HTTP_POST cfg;
          h0 = endpoint_data cnf ! 0; h1 = endpoint_data cnf ! 1
      in [r1, endpoints_used cnf1 = 1, http_meth (endpoint_data cnf1 ! 0) = HTTP_GET, r2,
          endpoints_used cnf = 2, http_meth h1 = HTTP_POST, h_fields h0 = h_fields h1,
          field_count h0 = field_count h1])"

definition test_endpoint_overflow :: "bool list" where
  "test_endpoint_overflow =
     (let (_, cfg) = add_field ''a'' JSON_FIELD_INT 10 (init_field_cfg test_fields 10);
          (r1, cnf, cfg) = add_json_endpoint (init_json_config test_handlers 1) (Some ''/a'') HTTP_GET cfg;
          (_, cfg) = add_field ''b'' JSON_FIELD_INT 10 cfg;
          (r2, cnf, cfg) = add_json_endpoint cnf (Some ''/b'') HTTP_GET cfg
      in [r1, \<not> r2])"

definition test_no_fields :: "bool list" where
  "test_no_fields =
     [\<not> fst (add_json_endpoint (init_json_config test_handlers 6) (Some ''/empty'') HTTP_GET (init_field_cfg test_fields 10))]"

definition test_update_last :: "bool list" where
  "test_update_last =
     (let (_, cfg) = add_field ''a'' JSON_FIELD_INT 10 (init_field_cfg test_fields 10);
          (_, cnf, cfg1) = add_json_endpoint (init_json_config test_handlers 6) (Some ''/a'') HTTP_GET cfg;
          cfg = (if update_last cfg1 then cfg1\<lparr>start_data_indx := fields_used cfg1, update_last := False\<rparr> else cfg1);
          (_, cfg) = add_field ''b'' JSON_FIELD_INT 11 cfg
      in [update_last cfg1, field_name (field_data cfg ! start_data_indx cfg) = Some ''b'',
          fields_used cfg - start_data_indx cfg = 1])"

lemma json_tests_pass:
  "list_all (\<lambda>b. b) (test_field_overflow @ test_endpoints @ test_endpoint_overflow @ test_no_fields @ test_update_last)"
  by code_simp

text \<open>
  The first test case expects five fields after four were added, and a string in the fifth: these two
  assertions fail, the others hold.
\<close>

lemma test_field_types_fails: "test_field_types = [True, True, True, True, False, True, True, True, False]"
  by code_simp

section \<open>The event manager\<close>

text \<open>
  The handlers of the test by number, on its variable \<open>test_data\<close>: \<open>handler_add_value\<close>,
  \<open>handler_set_flag\<close>, \<open>handler1\<close> and \<open>handler2\<close>.
\<close>

definition test_effect :: "nat \<Rightarrow> u32 \<Rightarrow> int \<Rightarrow> int" where
  "test_effect h ctx d =
     (if h = 1 then d + uint ctx else if h = 2 then uint (ctx AND 1) else if h = 3 then 100 else 200)"

definition test_call :: "int call" where
  "test_call h ms ctx = (\<lambda>(reg, d). (reg, test_effect h ctx d))"

text \<open>The manager takes all events of a queue, one after the other.\<close>

fun dispatch_all :: "DevEvn list \<Rightarrow> EventHandlerRegistry list \<times> int \<Rightarrow> (EventHandlerRegistry list \<times> int) option" where
  "dispatch_all [] s = Some s"
| "dispatch_all (ev # evs) s = do { s \<leftarrow> dispatch test_call 0 ev s; dispatch_all evs s }"

definition set_and_wait :: "EventId \<Rightarrow> u32 \<Rightarrow> EventHandlerRegistry list \<times> int \<Rightarrow> (bool \<times> EventHandlerRegistry list \<times> int) option" where
  "set_and_wait e ctx s =
     (let (ok, q) = set_event (queue_send EVN_QUEUE_LEN) e ctx [] in map_option (Pair ok) (dispatch_all q s))"

definition test_called_once :: "EventHandlerRegistry list \<Rightarrow> bool list option" where
  "test_called_once reg =
     (let (r1, reg) = register_event_handler EVN_UPDATE_SETTINGS (Some 1) reg in
      do { (r2, reg, d) \<leftarrow> set_and_wait EVN_UPDATE_SETTINGS 5 (reg, 0); Some [r1, r2, d = 5] })"

text \<open>Thirty ticks, the first of which finds both requests.\<close>

definition test_one_periodic :: "EventHandlerRegistry list \<Rightarrow> timer \<Rightarrow> bool list option" where
  "test_one_periodic reg t =
     (let (r1, reg) = register_event_handler EVN_READ_GPIO (Some 1) reg;
          (r2, q) = queue_send NEW_EVN_QUEUE_LEN (start_periodic_event EVN_READ_GPIO 1 5 3) [];
          (r3, q) = queue_send NEW_EVN_QUEUE_LEN (start_periodic_event EVN_READ_GPIO 2 5 2) q;
          (t, out) = periodic_event_timer_handler q t
      in do { (reg, d) \<leftarrow> dispatch_all (out @ snd (quiet_ticks 29 t)) (reg, 0); Some [r1, r2, r3, d = 3 \<or> d = 4] })"

definition test_replacement :: "EventHandlerRegistry list \<Rightarrow> bool list option" where
  "test_replacement reg =
     (let (r1, reg) = register_event_handler EVN_SET_WIFI_OFF (Some 3) reg;
          (r2, reg) = register_event_handler EVN_SET_WIFI_OFF (Some 4) reg
      in do { (r3, reg, d) \<leftarrow> set_and_wait EVN_SET_WIFI_OFF 0 (reg, 0); Some [r1, r2, r3, d = 200] })"

definition test_unregister :: "EventHandlerRegistry list \<Rightarrow> bool list option" where
  "test_unregister reg =
     (let (r1, reg) = register_event_handler EVN_FACTORY_RESET (Some 2) reg in
      do {
        (r2, reg, d) \<leftarrow> set_and_wait EVN_FACTORY_RESET 1 (reg, 0);
        (let reg = unregister_event_handler (Some 2) reg in
         do {
           (r3, reg, d') \<leftarrow> set_and_wait EVN_FACTORY_RESET 1 (reg, 0);
           Some [r1, r2, d = 1, r3, d' = 0]
         })
      })"

lemma event_tests_pass:
  "test_called_once new_registry = Some [True, True, True]"
  "test_replacement new_registry = Some [True, True, True, True]"
  "test_unregister new_registry = Some [True, True, True, True, True]"
  by code_simp+

lemma test_one_periodic_passes:
  "test_one_periodic new_registry new_timer = Some [True, True, True, True]"
  by code_simp

end
