(* ===== verification/Driver_Tests.thy ===== *)
theory Driver_Tests
  imports St25dv_Ndef Wifi_Service
begin

text \<open>
  Unit tests of the drivers, on every device that keeps to its contract: the test cases of
  \<open>components/ST25DV/test/test_st25.c\<close> that access the memory of the tag, and those of
  \<open>components/wifi_service/test/test_wifi.c\<close> for the power of the transmitter.  A test case is the
  list of its assertions.
\<close>

section \<open>The tag\<close>

definition test_open_session :: "'b i2c_driver \<Rightarrow> nat \<Rightarrow> 'b st25_state \<Rightarrow> (bool list \<times> 'b st25_state) option" where
  "test_open_session drv n s =
     do {
       (e1, s) \<leftarrow> st25dv_open_session drv n ST25DV_SYSTEM_ADDRESS 0 s;
       (e2, session, s) \<leftarrow> st25dv_is_session_opened drv n ST25DV_USER_ADDRESS False s;
       Some ([e1 = ESP_OK, e2 = ESP_OK], s)
     }"

definition test_read_write_memory :: "'b i2c_driver \<Rightarrow> nat \<Rightarrow> 'b st25_state \<Rightarrow> (bool list \<times> 'b st25_state) option" where
  "test_read_write_memory drv n s =
     do {
       (e1, data, s) \<leftarrow> st25dv_read drv n ST25DV_USER_ADDRESS 0 (Some (replicate 512 0)) 512 s;
       (e2, s) \<leftarrow> st25dv_write drv n ST25DV_USER_ADDRESS 0 (Some (map of_nat [0..<512])) 512 s;
       Some ([e1 = ESP_OK, e2 = ESP_OK], s)
     }"

definition test_read_gpo1 :: "'b i2c_driver \<Rightarrow> nat \<Rightarrow> 'b st25_state \<Rightarrow> (bool list \<times> 'b st25_state) option" where
  "test_read_gpo1 drv n s =
     do {
       (e, bit_value, s) \<leftarrow> st25dv_read_bit drv n ST25DV_SYSTEM_ADDRESS REG_GPO1 BIT_GPO1_GPO_EN False s;
       Some ([e = ESP_OK], s)
     }"

definition test_random :: "u8 list" where
  "test_random = [0xDE, 0xAD, 0xBE, 0xEF, 0xCA, 0xFE]"

definition test_random_write_read :: "'b i2c_driver \<Rightarrow> nat \<Rightarrow> 'b st25_state \<Rightarrow> (bool list \<times> 'b st25_state) option" where
  "test_random_write_read drv n s =
     do {
       (e1, s) \<leftarrow> st25dv_write drv n ST25DV_USER_ADDRESS 0x100 (Some test_random) (length test_random) s;
       (e2, data, s) \<leftarrow> st25dv_read drv n ST25DV_USER_ADDRESS 0x100
                           (Some (replicate (length test_random) 0)) (length test_random) s;
       Some ([e1 = ESP_OK, e2 = ESP_OK, data = Some test_random], s)
     }"

definition test_single_byte :: "'b i2c_driver \<Rightarrow> nat \<Rightarrow> 'b st25_state \<Rightarrow> (bool list \<times> 'b st25_state) option" where
  "test_single_byte drv n s =
     do { (e, value, s) \<leftarrow> st25dv_read_byte drv n ST25DV_USER_ADDRESS 0 0 s; Some ([e = ESP_OK], s) }"

text \<open>
  \<open>st25dv_wait_for_phone_write\<close> on the states of the tag at its polls, which are 50 ms apart; the
  result of a read is ignored.
\<close>

fun st25dv_wait_for_phone_write ::
  "'b i2c_driver \<Rightarrow> nat \<Rightarrow> u32 \<Rightarrow> u32 \<Rightarrow> u8 \<Rightarrow> 'b st25_state list \<Rightarrow> bool option" where
  "st25dv_wait_for_phone_write drv n timeout_ms elapsed mb_ctrl [] = None"
| "st25dv_wait_for_phone_write drv n timeout_ms elapsed mb_ctrl (s # ss) =
     (if elapsed < timeout_ms
      then do {
        (_, mb_ctrl, _) \<leftarrow> st25dv_read_byte drv n ST25DV_SYSTEM_ADDRESS REG_MB_CTRL_DYN mb_ctrl s;
        if mb_ctrl AND 1 \<noteq> 0 then Some True
        else st25dv_wait_for_phone_write drv n timeout_ms (elapsed + 50) mb_ctrl ss
      }
      else Some False)"

lemma tag_addresses: "ST25DV_USER_ADDRESS < 128" "ST25DV_SYSTEM_ADDRESS < 128"
  by (simp_all add: ST25DV_USER_ADDRESS_def ST25DV_SYSTEM_ADDRESS_def)

text \<open>On every chip all assertions hold, and the tag is ready for the next test.\<close>

context eeprom_bus
begin

lemma read_bit_law:
  assumes "ready s" "dev < 128"
  shows "\<exists>v s'. st25dv_read_bit drv (Suc n) dev a msk b s = Some (ESP_OK, v, s') \<and> ready s'"
  using read_byte_law [OF assms, of n a 0] by (auto simp: st25dv_read_bit_def)

lemma open_session_passes: "ready s \<Longrightarrow> \<exists>s'. test_open_session drv (Suc n) s = Some ([True, True], s') \<and> ready s'"
proof -
  assume s: "ready s"
  obtain s1 where w: "st25dv_open_session drv (Suc n) ST25DV_SYSTEM_ADDRESS 0 s = Some (ESP_OK, s1)" "ready s1"
    using write_law [OF s tag_addresses(2), of 17 "le_bytes 8 (0::u64) @ [0x09] @ le_bytes 8 (0::u64)" n REG_I2C_PASSWD_BASE]
    by (auto simp: st25dv_open_session_def)
  then show ?thesis using read_bit_law [OF w(2) tag_addresses(1), of n REG_I2C_SSO_DYN BIT_I2C_SSO_DYN_I2C_SSO False]
    by (auto simp: test_open_session_def st25dv_is_session_opened_def)
qed

lemma read_write_memory_passes:
  "ready s \<Longrightarrow> \<exists>s'. test_read_write_memory drv (Suc n) s = Some ([True, True], s') \<and> ready s'"
proof -
  assume s: "ready s"
  have sz: "512 \<le> length (replicate 512 (0::u8))" "512 \<le> I2C_BUF_SIZE" "512 \<le> length (map of_nat [0..<512] :: u8 list)"
    by (simp_all add: I2C_BUF_SIZE_def)
  obtain d s1 where r: "st25dv_read drv (Suc n) ST25DV_USER_ADDRESS 0 (Some (replicate 512 0)) 512 s = Some (ESP_OK, d, s1)" "ready s1"
    using read_law [OF s tag_addresses(1) sz(1,2), of n 0] by blast
  obtain s2 where "st25dv_write drv (Suc n) ST25DV_USER_ADDRESS 0 (Some (map of_nat [0..<512])) 512 s1 = Some (ESP_OK, s2)" "ready s2"
    using write_law [OF r(2) tag_addresses(1) sz(3), of n 0] by auto
  then show ?thesis using r(1) by (auto simp: test_read_write_memory_def)
qed

lemma read_gpo1_passes: "ready s \<Longrightarrow> \<exists>s'. test_read_gpo1 drv (Suc n) s = Some ([True], s') \<and> ready s'"
  using read_bit_law [OF _ tag_addresses(2), of s n REG_GPO1 BIT_GPO1_GPO_EN False] by (auto simp: test_read_gpo1_def)

lemma random_write_read_passes:
  "ready s \<Longrightarrow> \<exists>s'. test_random_write_read drv (Suc n) s = Some ([True, True, True], s') \<and> ready s'"
proof -
  assume s: "ready s"
  have sz: "length test_random \<le> length test_random" "0 < length test_random"
    "length test_random \<le> length (replicate (length test_random) (0::u8))" "length test_random \<le> I2C_BUF_SIZE"
    by (simp_all add: test_random_def I2C_BUF_SIZE_def)
  obtain s1 where w: "st25dv_write drv (Suc n) ST25DV_USER_ADDRESS 0x100 (Some test_random) (length test_random) s = Some (ESP_OK, s1)"
      "ready s1" "view s1 = put_cells ST25DV_USER_ADDRESS (unat (0x100 :: u16)) (take (length test_random) test_random) (view s)"
    using write_law [OF s tag_addresses(1) sz(1,2), of n "0x100"] by blast
  obtain s2 where r: "st25dv_read drv (Suc n) ST25DV_USER_ADDRESS 0x100 (Some (replicate (length test_random) 0)) (length test_random) s1 =
      Some (ESP_OK, Some (get_cells ST25DV_USER_ADDRESS (unat (0x100 :: u16)) (length test_random) (view s1) @
        drop (length test_random) (replicate (length test_random) 0)), s2)" "ready s2"
    using read_law [OF w(2) tag_addresses(1) sz(3,4), of n "0x100"] by blast
  have "get_cells ST25DV_USER_ADDRESS (unat (0x100 :: u16)) (length test_random) (view s1) = test_random"
    by (simp add: w(3) get_put)
  then show ?thesis using w(1) r by (auto simp: test_random_write_read_def)
qed

lemma single_byte_passes: "ready s \<Longrightarrow> \<exists>s'. test_single_byte drv (Suc n) s = Some ([True], s') \<and> ready s'"
  using read_byte_law [OF _ tag_addresses(1), of s n 0 0] by (auto simp: test_single_byte_def)

text \<open>The wait of 30 seconds succeeds exactly when one of its 600 polls finds the bit.\<close>

lemma wait_polls:
  "\<forall>s \<in> set ss. ready s \<Longrightarrow> unat elapsed = 50 * k \<Longrightarrow> k \<le> 600 \<Longrightarrow> 600 - k < length ss \<Longrightarrow>
   st25dv_wait_for_phone_write drv (Suc n) 30000 elapsed c ss =
     Some (\<exists>i < 600 - k. view (ss ! i) ST25DV_SYSTEM_ADDRESS (unat REG_MB_CTRL_DYN) AND 1 \<noteq> 0)"
proof (induction ss arbitrary: elapsed k c)
  case (Cons s ss)
  have less: "elapsed < 30000 \<longleftrightarrow> k < 600" using Cons.prems(2) by (simp add: word_less_nat_alt)
  show ?case
  proof (cases "k < 600")
    case True
    let ?v = "view s ST25DV_SYSTEM_ADDRESS (unat REG_MB_CTRL_DYN)"
    obtain s' where r: "st25dv_read_byte drv (Suc n) ST25DV_SYSTEM_ADDRESS REG_MB_CTRL_DYN c s = Some (ESP_OK, ?v, s')"
      using read_byte_law [OF _ tag_addresses(2), of s n REG_MB_CTRL_DYN c] Cons.prems(1) by auto
    have k: "600 - k = Suc (600 - Suc k)" using True by simp
    have "unat (elapsed + 50) = 50 * Suc k" using Cons.prems(2) True by (simp add: unat_word_ariths)
    then have "st25dv_wait_for_phone_write drv (Suc n) 30000 (elapsed + 50) ?v ss =
        Some (\<exists>i < 600 - Suc k. view (ss ! i) ST25DV_SYSTEM_ADDRESS (unat REG_MB_CTRL_DYN) AND 1 \<noteq> 0)"
      by (rule Cons.IH [rotated]) (use Cons.prems(1,4) True in auto)
    then show ?thesis using True less r unfolding k by (auto simp: Ex_less_Suc2)
  next
    case False
    then show ?thesis using less by simp
  qed
qed simp

lemma wait_for_phone_write:
  "\<forall>s \<in> set ss. ready s \<Longrightarrow> 600 < length ss \<Longrightarrow>
   st25dv_wait_for_phone_write drv (Suc n) 30000 0 0 ss =
     Some (\<exists>i < 600. view (ss ! i) ST25DV_SYSTEM_ADDRESS (unat REG_MB_CTRL_DYN) AND 1 \<noteq> 0)"
  using wait_polls [of ss 0 0 n 0] by simp

end

section \<open>The power of the transmitter\<close>

text \<open>
  \<open>get_current_wifi_dbm\<close> of the power the driver reports, in quarters of a dBm; \<open>FLOAT_EQ\<close> with its limit
  0.26.
\<close>

definition float_eq :: "rat \<Rightarrow> u32 \<Rightarrow> bool option" where
  "float_eq x b =
     do { y \<leftarrow> float_value b; limit \<leftarrow> float_value 0x3E851EB8; Some (\<bar>x - y\<bar> < limit) }"

definition test_power :: "'w wifi_api \<Rightarrow> ('w \<Rightarrow> int) \<Rightarrow> u32 \<Rightarrow> u32 \<Rightarrow> 'w \<Rightarrow> (bool list \<times> 'w) option" where
  "test_power api max_tx_power dbm expected w =
     do {
       (r, w) \<leftarrow> set_wifi_tx_power_exact_dbm api dbm w;
       eq \<leftarrow> float_eq (of_int (max_tx_power w) / 4) expected;
       Some ([r, eq], w)
     }"

text \<open>The powers 2, 20, 10 and 17.75, which is read as 18.\<close>

definition test_valid_powers :: "'w wifi_api \<Rightarrow> ('w \<Rightarrow> int) \<Rightarrow> 'w \<Rightarrow> bool list option" where
  "test_valid_powers api p w =
     do {
       (a, w) \<leftarrow> test_power api p 0x40000000 0x40000000 w;
       (b, w) \<leftarrow> test_power api p 0x41A00000 0x41A00000 w;
       (c, w) \<leftarrow> test_power api p 0x41200000 0x41200000 w;
       (d, w) \<leftarrow> test_power api p 0x418E0000 0x41900000 w;
       Some (a @ b @ c @ d)
     }"

text \<open>The powers 1.9, 21.1, -5 and 100.\<close>

definition test_invalid_powers :: "'w wifi_api \<Rightarrow> 'w \<Rightarrow> bool list option" where
  "test_invalid_powers api w =
     do {
       (a, w) \<leftarrow> set_wifi_tx_power_exact_dbm api 0x3FF33333 w;
       (b, w) \<leftarrow> set_wifi_tx_power_exact_dbm api 0x41A8CCCD w;
       (c, w) \<leftarrow> set_wifi_tx_power_exact_dbm api 0xC0A00000 w;
       (d, w) \<leftarrow> set_wifi_tx_power_exact_dbm api 0x42C80000 w;
       Some [\<not> a, \<not> b, \<not> c, \<not> d]
     }"

lemma float_valueI:
  "unat (drop_bit 23 b AND 0xFF) = e \<Longrightarrow> unat (b AND 0x7FFFFF) = m \<Longrightarrow> 0 < e \<Longrightarrow> e < 255 \<Longrightarrow>
   x * 2 ^ 150 = (if bit b 31 then - 1 else 1) * of_nat (2 ^ 23 + m) * 2 ^ e \<Longrightarrow> float_value b = Some x"
  by (simp add: float_value_def Let_def field_simps)

lemma test_floats:
  "float_value 0x40000000 = Some (2)"
  "float_value 0x41A00000 = Some (20)"
  "float_value 0x41200000 = Some (10)"
  "float_value 0x418E0000 = Some (71 / 4)"
  "float_value 0x41900000 = Some (18)"
  "float_value 0x3FF33333 = Some (15938355 / 8388608)"
  "float_value 0x41A8CCCD = Some (11062477 / 524288)"
  "float_value 0xC0A00000 = Some (- 5)"
  "float_value 0x42C80000 = Some (100)"
  "float_value 0x3E851EB8 = Some (1090519 / 4194304)"
  subgoal by (rule float_valueI [where e = 128 and m = 0]) simp_all
  subgoal by (rule float_valueI [where e = 131 and m = 2097152]) simp_all
  subgoal by (rule float_valueI [where e = 130 and m = 2097152]) simp_all
  subgoal by (rule float_valueI [where e = 131 and m = 917504]) simp_all
  subgoal by (rule float_valueI [where e = 131 and m = 1048576]) simp_all
  subgoal by (rule float_valueI [where e = 127 and m = 7549747]) simp_all
  subgoal by (rule float_valueI [where e = 131 and m = 2673869]) simp_all
  subgoal by (rule float_valueI [where e = 129 and m = 2097152]) simp_all
  subgoal by (rule float_valueI [where e = 133 and m = 4718592]) simp_all
  subgoal by (rule float_valueI [where e = 125 and m = 335544]) simp_all
  done

lemma test_invalid_powers_passes: "test_invalid_powers api w = Some [True, True, True, True]"
  by (simp add: test_invalid_powers_def set_wifi_tx_power_exact_dbm_def test_floats)

text \<open>A driver that accepts a power reports it.\<close>

lemma test_power_passes:
  assumes "\<forall>raw w. \<exists>w'. set_max_tx_power api raw w = (ESP_OK, w') \<and> p w' = raw"
    and "float_value dbm = Some x" "2 \<le> x" "x \<le> 21" "float_value expected = Some y"
    and "\<bar>of_int (dbm_to_raw_tx_power x) / 4 - y\<bar> < 1090519 / 4194304"
  shows "\<exists>w'. test_power api p dbm expected w = Some ([True, True], w')"
proof -
  obtain w' where "set_max_tx_power api (dbm_to_raw_tx_power x) w = (ESP_OK, w')" "p w' = dbm_to_raw_tx_power x"
    using assms(1) by blast
  then show ?thesis using assms(2-6)
    by (simp add: test_power_def set_wifi_tx_power_exact_dbm_def float_eq_def test_floats(10) not_less)
qed

lemma test_valid_powers_passes:
  assumes "\<forall>raw w. \<exists>w'. set_max_tx_power api raw w = (ESP_OK, w') \<and> p w' = raw"
  shows "test_valid_powers api p w = Some (replicate 8 True)"
proof -
  have raw: "dbm_to_raw_tx_power 2 = 8" "dbm_to_raw_tx_power 20 = 80" "dbm_to_raw_tx_power 10 = 40"
    "dbm_to_raw_tx_power (71 / 4) = 71"
    by (simp_all add: dbm_to_raw_tx_power_def Let_def floor_unique)
  obtain w1 where 1: "test_power api p 0x40000000 0x40000000 w = Some ([True, True], w1)"
    using test_power_passes [OF assms test_floats(1) _ _ test_floats(1), of w] raw by auto
  obtain w2 where 2: "test_power api p 0x41A00000 0x41A00000 w1 = Some ([True, True], w2)"
    using test_power_passes [OF assms test_floats(2) _ _ test_floats(2), of w1] raw by auto
  obtain w3 where 3: "test_power api p 0x41200000 0x41200000 w2 = Some ([True, True], w3)"
    using test_power_passes [OF assms test_floats(3) _ _ test_floats(3), of w2] raw by auto
  obtain w4 where 4: "test_power api p 0x418E0000 0x41900000 w3 = Some ([True, True], w4)"
    using test_power_passes [OF assms test_floats(4) _ _ test_floats(5), of w3] raw by auto
  show ?thesis using 1 2 3 4 by (simp add: test_valid_powers_def numeral_eq_Suc)
qed

end
