(* ===== verification/Humidity.thy ===== *)
theory Humidity
  imports Prelude
begin

text \<open>
  The humidity analyser and the fan's state machine,
  \<open>components/humidity_controller/humidity_analizer.c\<close> and \<open>fan_fsm.c\<close>.  The analyser
  averages 30 samples, follows the average's first and second difference, and every 20
  averages decides whether humidity grew; the fan's machine runs once a second on its
  states.  \<open>int16_t\<close> and \<open>int32_t\<close> members are integers: a result cast to \<open>int16_t\<close> is wrapped
  by \<open>cast16\<close>, and an \<open>int32_t\<close> sum that leaves the type's range, which has no defined
  result in C, makes the operation return \<open>None\<close>.
\<close>

section \<open>The analyser\<close>

definition MAX_SCALE_VAL :: int where "MAX_SCALE_VAL = 1000"
definition AVERAGE_SAMPLING_S :: nat where "AVERAGE_SAMPLING_S = 30"
definition HUMIDITY_RISE_WINDOW_S :: nat where "HUMIDITY_RISE_WINDOW_S = 600"
definition MAX_HUM_RATE_COUNT :: nat where
  "MAX_HUM_RATE_COUNT = HUMIDITY_RISE_WINDOW_S div AVERAGE_SAMPLING_S"
definition ACCEL_THRESHOLD :: int where "ACCEL_THRESHOLD = 5"
definition RISE_THRESHOLD :: int where "RISE_THRESHOLD = (MAX_SCALE_VAL * 8) sdiv 100"

lemmas humidity_consts = MAX_SCALE_VAL_def AVERAGE_SAMPLING_S_def HUMIDITY_RISE_WINDOW_S_def
  MAX_HUM_RATE_COUNT_def ACCEL_THRESHOLD_def RISE_THRESHOLD_def

datatype GrowthState = GROWTH_MEASURING | GROWTH_STABLE | GROWTH_RISING | GROWTH_FALLING

datatype AccelerationState =
  ACCELERATION_MEASURING | ACCELERATION_STABLE | ACCELERATION_RISING | ACCELERATION_FALLING

record HumidityAnalyzer =
  humidity_sum :: int
  humidity_count :: u16
  avg_humidity :: u16
  humidity_rate :: int
  acceleration :: int
  long_term_rate :: int
  rate_count :: u16
  acc_state :: AccelerationState
  growth_state :: GrowthState
  measure_init :: bool

definition cast16 :: "int \<Rightarrow> int" where
  "cast16 i = signed_take_bit 15 i"

definition add32 :: "int \<Rightarrow> int \<Rightarrow> int option" where
  "add32 a b = (if - (2 ^ 31) \<le> a + b \<and> a + b < 2 ^ 31 then Some (a + b) else None)"

text \<open>
  The part of \<open>humidity_analyze\<close> that runs once every 30 samples, with its two decisions: the
  one on the last average (or, the first time, the reset of the differences) and the one on
  the last 20 averages.
\<close>

definition short_term_trend :: "int \<Rightarrow> int \<Rightarrow> HumidityAnalyzer \<Rightarrow> HumidityAnalyzer" where
  "short_term_trend new_rate new_accel ha =
     (if \<not> measure_init ha
      then ha\<lparr>measure_init := True, rate_count := 0, long_term_rate := 0, humidity_rate := 0\<rparr>
      else if new_accel \<ge> ACCEL_THRESHOLD \<and> new_rate > 0
      then ha\<lparr>acc_state := ACCELERATION_RISING\<rparr>
      else if new_accel \<le> - ACCEL_THRESHOLD \<and> new_rate < 0
      then ha\<lparr>acc_state := ACCELERATION_FALLING\<rparr>
      else ha\<lparr>acc_state := ACCELERATION_STABLE\<rparr>)"

definition growth_of :: "int \<Rightarrow> GrowthState" where
  "growth_of long_term =
     (if long_term > RISE_THRESHOLD then GROWTH_RISING
      else if long_term < - RISE_THRESHOLD then GROWTH_FALLING
      else GROWTH_STABLE)"

definition long_term_trend :: "HumidityAnalyzer \<Rightarrow> HumidityAnalyzer" where
  "long_term_trend ha =
     (if unat (rate_count ha) < MAX_HUM_RATE_COUNT then ha
      else ha\<lparr>growth_state := growth_of (long_term_rate ha), long_term_rate := 0, rate_count := 0\<rparr>)"

definition finish_average :: "HumidityAnalyzer \<Rightarrow> HumidityAnalyzer option" where
  "finish_average ha =
     (let new_avg = cast16 (humidity_sum ha sdiv uint (humidity_count ha));
          ha = ha\<lparr>humidity_sum := 0, humidity_count := 0\<rparr>;
          new_rate = cast16 (new_avg - uint (avg_humidity ha));
          new_accel = cast16 (new_rate - humidity_rate ha);
          ha = ha\<lparr>avg_humidity := word_of_int new_avg, humidity_rate := new_rate,
                  acceleration := new_accel\<rparr> in
      do {
        long_term \<leftarrow> add32 (long_term_rate ha) new_rate;
        (let ha = ha\<lparr>long_term_rate := long_term, rate_count := rate_count ha + 1\<rparr> in
         Some (long_term_trend (short_term_trend new_rate new_accel ha)))
      })"

definition analyze :: "HumidityAnalyzer \<Rightarrow> int \<Rightarrow> HumidityAnalyzer option" where
  "analyze ha current_humidity =
     (let ha = ha\<lparr>growth_state := GROWTH_MEASURING, acc_state := ACCELERATION_MEASURING\<rparr> in
      do {
        total \<leftarrow> add32 (humidity_sum ha) current_humidity;
        (let ha = ha\<lparr>humidity_sum := total, humidity_count := humidity_count ha + 1\<rparr> in
         if unat (humidity_count ha) < AVERAGE_SAMPLING_S then Some ha else finish_average ha)
      })"

text \<open>\<open>humidity_analyze\<close>: a null pointer is left alone.\<close>

definition humidity_analyze :: "HumidityAnalyzer option \<Rightarrow> int \<Rightarrow> HumidityAnalyzer option option" where
  "humidity_analyze ha current_humidity =
     (case ha of None \<Rightarrow> Some None | Some ha \<Rightarrow> map_option Some (analyze ha current_humidity))"

section \<open>The fan\<close>

datatype FanState = FAN_OFF | FAN_V1 | FAN_V2 | FAN_MIN_TIME | FAN_MAX_TIME

record FanController =
  runtime_seconds :: u32
  stop_time :: u32
  fan_state :: FanState

definition FAN_MIN_RUNTIME_S :: u32 where "FAN_MIN_RUNTIME_S = 30"
definition FAN_MAX_RUNTIME_S :: u32 where "FAN_MAX_RUNTIME_S = 3600"

definition humidity_rise :: "HumidityAnalyzer \<Rightarrow> bool" where
  "humidity_rise ha \<longleftrightarrow> growth_state ha = GROWTH_RISING \<or> acc_state ha = ACCELERATION_RISING"

definition fan_controller_update :: "FanController \<Rightarrow> HumidityAnalyzer \<Rightarrow> FanController" where
  "fan_controller_update fc ha =
     (case fan_state fc of
        FAN_OFF \<Rightarrow> fc
      | FAN_V1 \<Rightarrow>
          (if humidity_rise ha then fc\<lparr>fan_state := FAN_V2, runtime_seconds := 0\<rparr> else fc)
      | FAN_V2 \<Rightarrow>
          (let fc = fc\<lparr>runtime_seconds := runtime_seconds fc + 1\<rparr> in
           if runtime_seconds fc \<ge> FAN_MAX_RUNTIME_S then fc\<lparr>fan_state := FAN_MAX_TIME\<rparr>
           else if growth_state ha = GROWTH_FALLING \<and> acc_state ha \<noteq> ACCELERATION_RISING
           then fc\<lparr>fan_state := FAN_MIN_TIME, stop_time := runtime_seconds fc + FAN_MIN_RUNTIME_S\<rparr>
           else fc)
      | FAN_MIN_TIME \<Rightarrow>
          (let fc = fc\<lparr>runtime_seconds := runtime_seconds fc + 1\<rparr> in
           if humidity_rise ha then fc\<lparr>fan_state := FAN_V2\<rparr>
           else if runtime_seconds fc \<ge> stop_time fc then fc\<lparr>fan_state := FAN_OFF\<rparr>
           else fc)
      | FAN_MAX_TIME \<Rightarrow> fc\<lparr>fan_state := FAN_OFF, runtime_seconds := 0, stop_time := 0\<rparr>)"

section \<open>The analyser never overflows\<close>

text \<open>What holds between two samples.\<close>

definition analyzer_inv :: "HumidityAnalyzer \<Rightarrow> bool" where
  "analyzer_inv ha \<longleftrightarrow>
     unat (humidity_count ha) < AVERAGE_SAMPLING_S \<and>
     \<bar>humidity_sum ha\<bar> \<le> 2 ^ 15 * uint (humidity_count ha) \<and>
     unat (rate_count ha) < MAX_HUM_RATE_COUNT \<and>
     \<bar>long_term_rate ha\<bar> \<le> 2 ^ 15 * uint (rate_count ha)"

definition int16_range :: "int \<Rightarrow> bool" where
  "int16_range i \<longleftrightarrow> - (2 ^ 15) \<le> i \<and> i < 2 ^ 15"

lemma cast16_range [simp]: "int16_range (cast16 i)"
  using signed_take_bit_int_less_exp [of 15 i] signed_take_bit_int_greater_eq_minus_exp [of 15 i]
  by (simp add: cast16_def int16_range_def)

lemma cast16_id [simp]: "int16_range i \<Longrightarrow> cast16 i = i"
  by (simp add: cast16_def int16_range_def signed_take_bit_int_eq_self)

lemma unat_inc: "unat (w :: u16) < 100 \<Longrightarrow> unat (w + 1) = unat w + 1"
  using unat_add_lem [of w 1] by simp

lemma uint_inc: "unat (w :: u16) < 100 \<Longrightarrow> uint (w + 1) = uint w + 1"
  unfolding uint_nat unat_inc by simp

lemma add32_small: "\<bar>a\<bar> \<le> 2 ^ 15 * n \<Longrightarrow> int16_range b \<Longrightarrow> n \<le> 100 \<Longrightarrow>
  add32 a b = Some (a + b) \<and> \<bar>a + b\<bar> \<le> 2 ^ 15 * (n + 1)"
  by (auto simp: add32_def int16_range_def)


text \<open>The counts and sums after each decision.\<close>

lemma short_term_trend_fields [simp]:
  "humidity_sum (short_term_trend r a ha) = humidity_sum ha"
  "humidity_count (short_term_trend r a ha) = humidity_count ha"
  "avg_humidity (short_term_trend r a ha) = avg_humidity ha"
  "measure_init (short_term_trend r a ha) = True"
  "rate_count (short_term_trend r a ha) = (if measure_init ha then rate_count ha else 0)"
  "long_term_rate (short_term_trend r a ha) = (if measure_init ha then long_term_rate ha else 0)"
  by (simp_all add: short_term_trend_def)

lemma long_term_trend_fields [simp]:
  "humidity_sum (long_term_trend ha) = humidity_sum ha"
  "humidity_count (long_term_trend ha) = humidity_count ha"
  "avg_humidity (long_term_trend ha) = avg_humidity ha"
  "measure_init (long_term_trend ha) = measure_init ha"
  "rate_count (long_term_trend ha) =
     (if unat (rate_count ha) < MAX_HUM_RATE_COUNT then rate_count ha else 0)"
  "long_term_rate (long_term_trend ha) =
     (if unat (rate_count ha) < MAX_HUM_RATE_COUNT then long_term_rate ha else 0)"
  by (simp_all add: long_term_trend_def)

lemma finish_average_inv:
  assumes "unat (rate_count ha) < MAX_HUM_RATE_COUNT" "\<bar>long_term_rate ha\<bar> \<le> 2 ^ 15 * uint (rate_count ha)"
  shows "\<exists>ha'. finish_average ha = Some ha' \<and> analyzer_inv ha'"
proof -
  let ?rate = "cast16 (cast16 (humidity_sum ha sdiv uint (humidity_count ha)) - uint (avg_humidity ha))"
  have n: "unat (rate_count ha) < 100" "uint (rate_count ha) \<le> 100"
    using assms(1) uint_nat [of "rate_count ha"] unfolding humidity_consts by linarith+
  obtain lt where lt: "add32 (long_term_rate ha) ?rate = Some lt" "\<bar>lt\<bar> \<le> 2 ^ 15 * (uint (rate_count ha) + 1)"
    using add32_small [OF assms(2) cast16_range n(2)] by blast
  have pos: "0 < MAX_HUM_RATE_COUNT" "0 < AVERAGE_SAMPLING_S" by (simp_all add: humidity_consts)
  show ?thesis
    using lt uint_inc [OF n(1)] pos by (auto simp: finish_average_def analyzer_inv_def Let_def)
qed

lemma analyze_inv:
  assumes "analyzer_inv ha" "int16_range x"
  shows "\<exists>ha'. analyze ha x = Some ha' \<and> analyzer_inv ha'"
proof -
  have n: "unat (humidity_count ha) < 100" "uint (humidity_count ha) \<le> 100"
    using assms(1) uint_nat [of "humidity_count ha"] unfolding analyzer_inv_def humidity_consts
    by linarith+
  have "\<bar>humidity_sum ha\<bar> \<le> 2 ^ 15 * uint (humidity_count ha)"
    using assms(1) by (simp add: analyzer_inv_def)
  then obtain t where t: "add32 (humidity_sum ha) x = Some t" "\<bar>t\<bar> \<le> 2 ^ 15 * (uint (humidity_count ha) + 1)"
    using add32_small [OF _ assms(2) n(2)] by blast
  let ?ha = "ha\<lparr>growth_state := GROWTH_MEASURING, acc_state := ACCELERATION_MEASURING,
    humidity_sum := t, humidity_count := humidity_count ha + 1\<rparr>"
  have "analyze ha x = (if unat (humidity_count ?ha) < AVERAGE_SAMPLING_S then Some ?ha else finish_average ?ha)"
    using t(1) by (simp add: analyze_def Let_def)
  moreover have "\<exists>ha'. finish_average ?ha = Some ha' \<and> analyzer_inv ha'"
    by (rule finish_average_inv) (use assms(1) in \<open>simp_all add: analyzer_inv_def\<close>)
  moreover have "analyzer_inv ?ha" if "unat (humidity_count ?ha) < AVERAGE_SAMPLING_S"
    using that assms(1) t(2) uint_inc [OF n(1)] by (simp add: analyzer_inv_def)
  ultimately show ?thesis by auto
qed

section \<open>Windows of thirty samples\<close>

fun analyze_all :: "HumidityAnalyzer \<Rightarrow> int list \<Rightarrow> HumidityAnalyzer option" where
  "analyze_all ha [] = Some ha"
| "analyze_all ha (x # xs) = do { ha \<leftarrow> analyze ha x; analyze_all ha xs }"

lemma analyze_all_append:
  "analyze_all ha (xs @ ys) = Option.bind (analyze_all ha xs) (\<lambda>ha. analyze_all ha ys)"
  by (induction xs arbitrary: ha) auto

lemma analyze_all_inv:
  "analyzer_inv ha \<Longrightarrow> \<forall>x \<in> set xs. int16_range x \<Longrightarrow> \<exists>ha'. analyze_all ha xs = Some ha' \<and> analyzer_inv ha'"
proof (induction xs arbitrary: ha)
  case Nil
  then show ?case by simp
next
  case (Cons x xs)
  then obtain ha1 where "analyze ha x = Some ha1" "analyzer_inv ha1" using analyze_inv [of ha x] by auto
  then show ?case using Cons.IH [of ha1] Cons.prems(2) by simp
qed

text \<open>The state in the middle of a window.\<close>

definition measuring :: "int \<Rightarrow> u16 \<Rightarrow> HumidityAnalyzer \<Rightarrow> HumidityAnalyzer" where
  "measuring t n ha = ha\<lparr>growth_state := GROWTH_MEASURING, acc_state := ACCELERATION_MEASURING,
     humidity_sum := t, humidity_count := n\<rparr>"

lemma measuring_measuring [simp]: "measuring t n (measuring t' n' ha) = measuring t n ha"
  by (simp add: measuring_def)

lemma measuring_fields [simp]:
  "humidity_sum (measuring t n ha) = t" "humidity_count (measuring t n ha) = n"
  "avg_humidity (measuring t n ha) = avg_humidity ha"
  "humidity_rate (measuring t n ha) = humidity_rate ha"
  "long_term_rate (measuring t n ha) = long_term_rate ha"
  "rate_count (measuring t n ha) = rate_count ha"
  "measure_init (measuring t n ha) = measure_init ha"
  by (simp_all add: measuring_def)

lemma analyze_measuring:
  assumes "\<bar>t\<bar> \<le> 2 ^ 15 * int n" "n < 30" "int16_range x"
  shows "analyze (measuring t (of_nat n) ha) x =
      (let ha' = measuring (t + x) (of_nat (Suc n)) ha in
       if Suc n < 30 then Some ha' else finish_average ha')"
    "\<bar>t + x\<bar> \<le> 2 ^ 15 * int (Suc n)"
proof -
  have sum: "add32 t x = Some (t + x) \<and> \<bar>t + x\<bar> \<le> 2 ^ 15 * (int n + 1)"
    using add32_small [OF assms(1,3)] assms(2) by simp
  then show "\<bar>t + x\<bar> \<le> 2 ^ 15 * int (Suc n)" by simp
  have "unat (of_nat n + 1 :: u16) = Suc n"
    using assms(2) unat_inc [of "of_nat n"] by (simp add: unat_of_nat take_bit_eq_mod)
  moreover have "(of_nat (Suc n) :: u16) = of_nat n + 1" by simp
  ultimately show "analyze (measuring t (of_nat n) ha) x =
      (let ha' = measuring (t + x) (of_nat (Suc n)) ha in
       if Suc n < 30 then Some ha' else finish_average ha')"
    using sum by (simp add: analyze_def AVERAGE_SAMPLING_S_def Let_def) (simp add: measuring_def add.commute)
qed

lemma analyze_rest:
  assumes "\<bar>t\<bar> \<le> 2 ^ 15 * int n" "n + length xs = 30" "xs \<noteq> []" "\<forall>x \<in> set xs. int16_range x"
  shows "analyze_all (measuring t (of_nat n) ha) xs = finish_average (measuring (t + sum_list xs) 30 ha)"
  using assms
proof (induction xs arbitrary: t n)
  case Nil
  then show ?case by simp
next
  case (Cons x xs)
  have step: "analyze (measuring t (of_nat n) ha) x =
      (let ha' = measuring (t + x) (of_nat (Suc n)) ha in
       if Suc n < 30 then Some ha' else finish_average ha')"
    "\<bar>t + x\<bar> \<le> 2 ^ 15 * int (Suc n)"
    using analyze_measuring [of t n x] Cons.prems by auto
  show ?case
  proof (cases "xs = []")
    case True
    then show ?thesis using step(1) Cons.prems(2) by (simp add: Let_def)
  next
    case False
    then have "Suc n < 30" using Cons.prems(2) by (cases xs) auto
    then show ?thesis
      using step(1) Cons.IH [OF step(2) _ False] Cons.prems(2,4) by (simp add: Let_def add.assoc)
  qed
qed

lemma analyze_window:
  assumes "humidity_sum ha = 0" "humidity_count ha = 0" "length xs = 30" "\<forall>x \<in> set xs. int16_range x"
  shows "analyze_all ha xs = finish_average (measuring (sum_list xs) 30 ha)"
proof -
  have "analyze_all (measuring 0 (of_nat 0) ha) xs = finish_average (measuring (0 + sum_list xs) 30 ha)"
    by (rule analyze_rest) (use assms in auto)
  moreover have "analyze_all ha xs = analyze_all (measuring 0 (of_nat 0) ha) xs"
  proof -
    obtain x ys where xs: "xs = x # ys" using assms(3) by (cases xs) auto
    have "analyze ha x = analyze (measuring 0 0 ha) x"
      using assms(1,2) by (simp add: analyze_def measuring_def)
    then show ?thesis by (simp add: xs)
  qed
  ultimately show ?thesis by simp
qed

text \<open>The average of a window, and the analyser between windows of humidities in range.\<close>

definition mean :: "int list \<Rightarrow> int" where
  "mean xs = sum_list xs sdiv 30"

definition window_ok :: "int list \<Rightarrow> bool" where
  "window_ok xs \<longleftrightarrow> length xs = 30 \<and> (\<forall>x \<in> set xs. 0 \<le> x \<and> x \<le> MAX_SCALE_VAL)"

lemma sum_list_range: "\<forall>x \<in> set xs. 0 \<le> x \<and> x \<le> m \<Longrightarrow> 0 \<le> sum_list xs \<and> sum_list xs \<le> m * int (length xs)"
  by (induction xs) (auto simp: algebra_simps)

lemma sdiv_nonneg: "0 \<le> a \<Longrightarrow> a sdiv 30 = (a :: int) div 30"
  by (cases "a = 0") (simp_all add: signed_divide_int_def)

lemma mean_range:
  assumes "window_ok xs"
  shows "0 \<le> mean xs \<and> mean xs \<le> 1000"
proof -
  have s: "0 \<le> sum_list xs" "sum_list xs \<le> 30000"
    using sum_list_range [of xs 1000] assms by (auto simp: window_ok_def MAX_SCALE_VAL_def)
  then have "0 \<le> sum_list xs div 30" "sum_list xs div 30 \<le> 1000" by presburger+
  with s(1) show ?thesis by (simp add: mean_def sdiv_nonneg)
qed

definition between_windows :: "nat \<Rightarrow> int \<Rightarrow> HumidityAnalyzer \<Rightarrow> bool" where
  "between_windows n base ha \<longleftrightarrow>
     measure_init ha \<and> humidity_sum ha = 0 \<and> humidity_count ha = 0 \<and> rate_count ha = of_nat n \<and>
     uint (avg_humidity ha) \<le> 1000 \<and> 0 \<le> base \<and> base \<le> 1000 \<and>
     long_term_rate ha = uint (avg_humidity ha) - base"

lemma window_step:
  assumes "between_windows n base ha" "n < 20" "window_ok xs"
  shows "\<exists>ha'. analyze_all ha xs = Some ha' \<and> uint (avg_humidity ha') = mean xs \<and>
    (if Suc n < 20 then between_windows (Suc n) base ha' \<and> growth_state ha' = GROWTH_MEASURING
     else between_windows 0 (mean xs) ha' \<and> growth_state ha' = growth_of (mean xs - base))"
proof -
  note st = assms(1) [unfolded between_windows_def]
  have r: "0 \<le> mean xs" "mean xs \<le> 1000" using mean_range [OF assms(3)] by auto
  have range: "length xs = 30" "\<forall>x \<in> set xs. int16_range x"
    using assms(3) by (auto simp: window_ok_def int16_range_def MAX_SCALE_VAL_def)
  let ?m = "measuring (sum_list xs) 30 ha"
  let ?rate = "mean xs - uint (avg_humidity ha)"
  have c: "cast16 (mean xs) = mean xs" "cast16 ?rate = ?rate"
    using r st by (auto simp: int16_range_def intro!: cast16_id) (smt (verit) uint_ge_0)
  have lt: "add32 (long_term_rate ha) ?rate = Some (mean xs - base)"
    using r st by (simp add: add32_def)
  have n: "unat (of_nat n + 1 :: u16) = Suc n"
    using assms(2) unat_inc [of "of_nat n"] by (simp add: unat_of_nat take_bit_eq_mod)
  let ?h = "?m\<lparr>humidity_sum := 0, humidity_count := 0, avg_humidity := word_of_int (mean xs),
    humidity_rate := ?rate, acceleration := cast16 (?rate - humidity_rate ha),
    long_term_rate := mean xs - base, rate_count := of_nat n + 1\<rparr>"
  let ?e = "long_term_trend (short_term_trend ?rate (cast16 (?rate - humidity_rate ha)) ?h)"
  have fin: "finish_average ?m = Some ?e"
    using st lt by (simp add: finish_average_def Let_def mean_def [symmetric] c)
  have avg: "uint (avg_humidity ?e) = mean xs"
    using r by (simp add: uint_word_of_int take_bit_eq_mod)
  have g: "growth_state (short_term_trend r a h) = growth_state h" if "measure_init h" for r a h
    using that by (simp add: short_term_trend_def)
  have "if Suc n < 20 then between_windows (Suc n) base ?e \<and> growth_state ?e = GROWTH_MEASURING
     else between_windows 0 (mean xs) ?e \<and> growth_state ?e = growth_of (mean xs - base)"
  proof (cases "Suc n < 20")
    case True
    then show ?thesis
      using st avg r n by (simp add: between_windows_def humidity_consts)
        (simp add: long_term_trend_def g humidity_consts, simp add: measuring_def)
  next
    case False
    then show ?thesis
      using st avg r n by (simp add: between_windows_def humidity_consts)
        (simp add: long_term_trend_def humidity_consts)
  qed
  then show ?thesis
    using analyze_window [OF _ _ range] st fin avg by auto
qed

lemma windows_run:
  "between_windows n base ha \<Longrightarrow> n + length ws = 20 \<Longrightarrow> ws \<noteq> [] \<Longrightarrow> \<forall>w \<in> set ws. window_ok w \<Longrightarrow>
   \<exists>ha'. analyze_all ha (concat ws) = Some ha' \<and> between_windows 0 (mean (last ws)) ha' \<and>
     growth_state ha' = growth_of (mean (last ws) - base)"
proof (induction ws arbitrary: n ha)
  case Nil
  then show ?case by simp
next
  case (Cons w ws)
  have "n < 20" "window_ok w" using Cons.prems by auto
  then obtain ha1 where ha1: "analyze_all ha w = Some ha1" "uint (avg_humidity ha1) = mean w"
    "if Suc n < 20 then between_windows (Suc n) base ha1 \<and> growth_state ha1 = GROWTH_MEASURING
     else between_windows 0 (mean w) ha1 \<and> growth_state ha1 = growth_of (mean w - base)"
    using window_step [OF Cons.prems(1)] by blast
  show ?case
  proof (cases "ws = []")
    case True
    then show ?thesis using ha1 Cons.prems(2) by simp
  next
    case False
    then have n: "Suc n < 20" using Cons.prems(2) by (cases ws) auto
    then obtain ha' where "analyze_all ha1 (concat ws) = Some ha'" "between_windows 0 (mean (last ws)) ha'"
      "growth_state ha' = growth_of (mean (last ws) - base)"
      using Cons.IH [of "Suc n" ha1] ha1(3) False Cons.prems(2,4) by auto
    then show ?thesis using ha1(1) False by (simp add: analyze_all_append)
  qed
qed

section \<open>The fan stops\<close>

text \<open>
  Bounds on the times in each state: the speed-two state is left at 3600 seconds, and the
  stop time is set at most 30 seconds later than that.
\<close>

definition fan_inv :: "FanController \<Rightarrow> bool" where
  "fan_inv fc \<longleftrightarrow>
     (case fan_state fc of
        FAN_V2 \<Rightarrow> unat (runtime_seconds fc) < 3630
      | FAN_MIN_TIME \<Rightarrow> unat (runtime_seconds fc) < unat (stop_time fc) \<and> unat (stop_time fc) < 3630
      | _ \<Rightarrow> True)"

lemma unat_inc32: "unat (w :: u32) < 10000 \<Longrightarrow> unat (w + 1) = unat w + 1"
  using unat_add_lem [of w 1] by simp

lemma unat_add31: "unat (w :: u32) < 10000 \<Longrightarrow> unat (31 + w) = unat w + 31"
  using unat_add_lem [of 31 w] by simp

lemma fan_step_inv: "fan_inv fc \<Longrightarrow> fan_inv (fan_controller_update fc ha)"
  by (cases "fan_state fc")
    (auto simp: fan_inv_def fan_controller_update_def FAN_MAX_RUNTIME_S_def FAN_MIN_RUNTIME_S_def
      Let_def word_le_nat_alt unat_inc32 unat_add31)

interpretation fan: step_system "\<lambda>ha fc. fan_controller_update fc ha" fan_inv
  by unfold_locales (rule fan_step_inv)

definition fan_run :: "HumidityAnalyzer list \<Rightarrow> FanController \<Rightarrow> FanController" where
  "fan_run has fc = fold (\<lambda>ha fc. fan_controller_update fc ha) has fc"

text \<open>How many updates can pass before the fan is off.\<close>

definition fan_left :: "FanController \<Rightarrow> nat" where
  "fan_left fc =
     (case fan_state fc of
        FAN_V2 \<Rightarrow> 3640 - unat (runtime_seconds fc)
      | FAN_MIN_TIME \<Rightarrow> 3640 - unat (runtime_seconds fc)
      | FAN_MAX_TIME \<Rightarrow> 1
      | _ \<Rightarrow> 0)"

lemma fan_step_left:
  assumes "fan_inv fc" "fan_state fc \<noteq> FAN_V1" "fan_state fc \<noteq> FAN_OFF"
  shows "fan_state (fan_controller_update fc ha) \<noteq> FAN_V1 \<and>
    fan_left (fan_controller_update fc ha) < fan_left fc"
  using assms
  by (cases "fan_state fc")
    (auto simp: fan_inv_def fan_left_def fan_controller_update_def Let_def unat_inc32)

lemma fan_off_stays: "fan_state fc = FAN_OFF \<Longrightarrow> fan_run has fc = fc"
  by (induction has) (simp_all add: fan_run_def fan_controller_update_def)

lemma fan_run_stops:
  "fan_inv fc \<Longrightarrow> fan_state fc \<noteq> FAN_V1 \<Longrightarrow> fan_left fc \<le> length has \<Longrightarrow> fan_state (fan_run has fc) = FAN_OFF"
proof (induction has arbitrary: fc)
  case Nil
  then show ?case by (cases "fan_state fc") (auto simp: fan_left_def fan_inv_def fan_run_def)
next
  case (Cons ha has)
  show ?case
  proof (cases "fan_state fc = FAN_OFF")
    case True
    then show ?thesis using fan_off_stays by simp
  next
    case False
    let ?fc = "fan_controller_update fc ha"
    have "fan_state ?fc \<noteq> FAN_V1" "fan_left ?fc \<le> length has"
      using fan_step_left [OF Cons.prems(1,2) False, of ha] Cons.prems(3) by auto
    then show ?thesis using Cons.IH [OF fan_step_inv [OF Cons.prems(1)]] by (simp add: fan_run_def)
  qed
qed

section \<open>Properties\<close>

text \<open>No sequence of 16-bit samples makes the analyser's sums overflow: it returns, and
  between samples its counts and sums stay in their bounds.\<close>

lemma analyzer_never_overflows:
  assumes "analyzer_inv ha" "\<forall>x \<in> set xs. int16_range x"
  shows "\<exists>ha'. analyze_all ha xs = Some ha' \<and> analyzer_inv ha'"
  using assms by (rule analyze_all_inv)

definition new_analyzer :: HumidityAnalyzer where
  "new_analyzer = \<lparr>humidity_sum = 0, humidity_count = 0, avg_humidity = 0, humidity_rate = 0,
     acceleration = 0, long_term_rate = 0, rate_count = 0, acc_state = ACCELERATION_MEASURING,
     growth_state = GROWTH_MEASURING, measure_init = False\<rparr>"

lemma analyzer_never_overflows_witness:
  "\<exists>ha'. analyze_all new_analyzer (replicate 5000 32767) = Some ha' \<and> analyzer_inv ha'"
  by (rule analyzer_never_overflows)
    (simp_all add: analyzer_inv_def new_analyzer_def humidity_consts int16_range_def)

text \<open>C5: The growth decision compares averages ten minutes apart: after twenty windows of
  thirty samples between 0 and 1000, the state is rising (falling) exactly when the average
  of the last window is more than 80 above (below) the average \<open>base\<close> the last decision was
  made at.\<close>

theorem growth_decision:
  assumes "between_windows 0 base ha" "length ws = 20" "\<forall>w \<in> set ws. window_ok w"
  shows "\<exists>ha'. analyze_all ha (concat ws) = Some ha' \<and>
    between_windows 0 (mean (last ws)) ha' \<and>
    growth_state ha' =
      (if mean (last ws) - base > 80 then GROWTH_RISING
       else if mean (last ws) - base < - 80 then GROWTH_FALLING else GROWTH_STABLE)"
proof -
  have "ws \<noteq> []" using assms(2) by auto
  then obtain ha' where "analyze_all ha (concat ws) = Some ha'"
    "between_windows 0 (mean (last ws)) ha'" "growth_state ha' = growth_of (mean (last ws) - base)"
    using windows_run [OF assms(1) _ _ assms(3)] assms(2) by auto
  then show ?thesis by (intro exI [of _ ha']) (simp add: growth_of_def humidity_consts)
qed

theorem growth_decision_witness:
  "\<exists>ha'. analyze_all (new_analyzer\<lparr>measure_init := True, avg_humidity := 400, long_term_rate := 0\<rparr>)
      (concat (replicate 20 (replicate 30 500))) = Some ha' \<and> growth_state ha' = GROWTH_RISING"
proof -
  let ?ws = "replicate 20 (replicate 30 500) :: int list list"
  have m: "mean (last ?ws) = 500" by (simp add: mean_def sum_list_replicate signed_divide_int_def)
  have "\<exists>ha'. analyze_all (new_analyzer\<lparr>measure_init := True, avg_humidity := 400, long_term_rate := 0\<rparr>)
      (concat ?ws) = Some ha' \<and> between_windows 0 (mean (last ?ws)) ha' \<and>
    growth_state ha' =
      (if mean (last ?ws) - 400 > 80 then GROWTH_RISING
       else if mean (last ?ws) - 400 < - 80 then GROWTH_FALLING else GROWTH_STABLE)"
    by (rule growth_decision) (simp_all add: between_windows_def new_analyzer_def window_ok_def MAX_SCALE_VAL_def)
  then show ?thesis using m by auto
qed

text \<open>C7: Once the fan runs at speed two it stops: after at most 3640 updates, whatever the
  analyser reports meanwhile, the machine is in \<open>FAN_OFF\<close>, and it never leaves that state.\<close>

theorem fan_stops:
  assumes "fan_inv fc" "fan_state fc \<in> {FAN_V2, FAN_MIN_TIME, FAN_MAX_TIME}" "3640 \<le> length has"
  shows "fan_state (fan_run has fc) = FAN_OFF \<and> fan_run (has @ later) fc = fan_run has fc"
proof -
  have "fan_left fc \<le> 3640" by (simp add: fan_left_def split: FanState.split)
  then have off: "fan_state (fan_run has fc) = FAN_OFF"
    using fan_run_stops [OF assms(1)] assms(2,3) by auto
  then show ?thesis using fan_off_stays [OF off, of later] by (simp add: fan_run_def)
qed

theorem fan_stops_witness:
  "fan_state (fan_run (replicate 3640 (new_analyzer\<lparr>growth_state := GROWTH_RISING\<rparr>))
     \<lparr>runtime_seconds = 0, stop_time = 0, fan_state = FAN_V2\<rparr>) = FAN_OFF"
  using fan_stops [of "\<lparr>runtime_seconds = 0, stop_time = 0, fan_state = FAN_V2\<rparr>"
      "replicate 3640 (new_analyzer\<lparr>growth_state := GROWTH_RISING\<rparr>)" "[]"]
  by (simp add: fan_inv_def)

end
