(* ===== verification/Test_References.thy ===== *)
theory Test_References
  imports Device Humidity
begin

text \<open>
  Two unit tests hold code of their own to compare with.  \<open>device/test/test_device_control.c\<close>
  computes the serial number of a MAC address a second way, nibble by nibble on 32-bit values;
  \<open>humidity_controller/test/humidity_analyzer_test.c\<close> has its own copy of the analyser, with
  other comparisons, and feeds it series of samples, of which three are run here.
\<close>

section \<open>The serial number\<close>

primrec IntToUnicode :: "u32 \<Rightarrow> nat \<Rightarrow> u8 list" where
  "IntToUnicode value 0 = []"
| "IntToUnicode value (Suc n) =
     (if drop_bit 28 value < 0xA then ucast (drop_bit 28 value) + 0x30
      else ucast (drop_bit 28 value) + 0x41 - 10) # IntToUnicode (push_bit 4 value) n"

text \<open>
  \<open>MAC[2]<<24\<close> is computed on \<open>int\<close>: of a byte of 128 and more the shift has no defined result
  in C, and the operation returns \<open>None\<close>.
\<close>

definition Get_SerialNum :: "u8 list \<Rightarrow> u8 list option" where
  "Get_SerialNum mac =
     (if mac ! 2 \<ge> 0x80 then None
      else
        (let Dev_Serial1 = push_bit 24 (ucast (mac ! 2)) + push_bit 16 (ucast (mac ! 3))
               + push_bit 8 (ucast (mac ! 4)) + ucast (mac ! 5);
             Dev_Serial0 = push_bit 24 0x01 + push_bit 16 0x00 + push_bit 8 (ucast (mac ! 0))
               + ucast (mac ! 1) in
         Some (IntToUnicode Dev_Serial0 8 @ IntToUnicode Dev_Serial1 8 @ [0])))"

definition four_bytes :: "u8 \<Rightarrow> u8 \<Rightarrow> u8 \<Rightarrow> u8 \<Rightarrow> u32" where
  "four_bytes a b c d = push_bit 24 (ucast a) OR push_bit 16 (ucast b) OR push_bit 8 (ucast c) OR ucast d"

lemma not_bit_byte [simp]: "8 \<le> k \<Longrightarrow> \<not> bit (a :: u8) k"
  using bit_imp_le_length [of a k] by auto

lemma bit_byte: "bit (a :: u8) (4 + n) \<Longrightarrow> n < 4"
  using bit_imp_le_length [of a "4 + n"] by simp

lemma four_bytes_sum:
  "push_bit 24 (ucast a) + push_bit 16 (ucast b) + push_bit 8 (ucast c) + ucast d = four_bytes a b c d"
  for a b c d :: u8
proof -
  have "push_bit 24 (ucast a) + push_bit 16 (ucast b) = (push_bit 24 (ucast a) OR push_bit 16 (ucast b) :: u32)"
    by (rule disjunctive_add) (auto simp: bit_simps)
  moreover have "(push_bit 24 (ucast a) OR push_bit 16 (ucast b)) + push_bit 8 (ucast c) =
      (push_bit 24 (ucast a) OR push_bit 16 (ucast b) OR push_bit 8 (ucast c) :: u32)"
    unfolding or.assoc [symmetric] by (rule disjunctive_add) (auto simp: bit_simps)
  moreover have "(push_bit 24 (ucast a) OR push_bit 16 (ucast b) OR push_bit 8 (ucast c)) + ucast d = four_bytes a b c d"
    unfolding four_bytes_def or.assoc [symmetric] by (rule disjunctive_add) (auto simp: bit_simps)
  ultimately show ?thesis by simp
qed

lemma nibbles_four_bytes:
  "map (\<lambda>i. drop_bit 28 (push_bit (4 * i) (four_bytes a b c d))) [0..<8] =
   map ucast [drop_bit 4 a, take_bit 4 a, drop_bit 4 b, take_bit 4 b, drop_bit 4 c, take_bit 4 c, drop_bit 4 d, take_bit 4 d]"
  by (simp add: four_bytes_def upt_rec, auto intro!: bit_word_eqI simp: bit_simps) (drule bit_byte, simp)+

lemma IntToUnicode_nibbles:
  "IntToUnicode v n = map (\<lambda>i. let x = drop_bit 28 (push_bit (4 * i) v) in
     if x < 0xA then ucast x + 0x30 else ucast x + 0x41 - 10) [0..<n]"
proof (induction n arbitrary: v)
  case (Suc n)
  show ?case
    by (simp add: Suc upt_conv_Cons map_Suc_upt [symmetric] Let_def push_bit_push_bit add.commute del: upt_Suc map_Suc_upt)
qed simp

lemma digit_of_nibble:
  "x < 16 \<Longrightarrow> (let y = ucast x :: u32 in if y < 0xA then ucast y + 0x30 else ucast y + 0x41 - 10) = hex_digit x"
  for x :: u8
proof -
  assume "x < 16"
  then have "unat x < 16" by (simp add: word_less_nat_alt)
  then have "unat x \<in> set [0..<16]" by simp
  then have "x \<in> of_nat ` set [0..<16]" by (metis imageI of_nat_unat ucast_id)
  then show ?thesis by (auto simp: hex_digit_def Let_def upt_rec)
qed

lemma and_mask: "a AND 0xF = take_bit 4 a" for a :: u8
  by (simp add: take_bit_eq_mask mask_eq_exp_minus_1)

lemma nibble_less: "drop_bit 4 (a :: u8) < 16" "take_bit 4 (a :: u8) < 16"
proof -
  have "unat a < 256" using unsigned_less [of a] by simp
  then have "unat (drop_bit 4 a) < 16" by (simp add: drop_bit_eq_div unat_div less_mult_imp_div_less)
  then show "drop_bit 4 a < 16" by (simp add: word_less_nat_alt)
  have "unat (take_bit 4 a) < 16" by (simp add: take_bit_eq_mod unat_mod)
  then show "take_bit 4 a < 16" by (simp add: word_less_nat_alt)
qed

lemma IntToUnicode_four_bytes:
  "IntToUnicode (four_bytes a b c d) 8 = concat (map hex_byte [a, b, c, d])"
proof -
  let ?digit = "\<lambda>y :: u32. if y < 0xA then ucast y + 0x30 else ucast y + 0x41 - 10 :: u8"
  let ?xs = "[drop_bit 4 a, take_bit 4 a, drop_bit 4 b, take_bit 4 b, drop_bit 4 c, take_bit 4 c, drop_bit 4 d, take_bit 4 d]"
  have "IntToUnicode (four_bytes a b c d) 8 =
      map ?digit (map (\<lambda>i. drop_bit 28 (push_bit (4 * i) (four_bytes a b c d))) [0..<8])"
    by (simp add: IntToUnicode_nibbles Let_def)
  also have "\<dots> = map (\<lambda>x. ?digit (ucast x)) ?xs" by (simp only: nibbles_four_bytes list.map_comp comp_def)
  also have "\<dots> = map hex_digit ?xs" using digit_of_nibble [unfolded Let_def] nibble_less by simp
  also have "\<dots> = concat (map hex_byte [a, b, c, d])" by (simp add: hex_byte_def and_mask)
  finally show ?thesis .
qed

section \<open>The copy of the analyser\<close>

definition test_short_term_trend :: "int \<Rightarrow> int \<Rightarrow> HumidityAnalyzer \<Rightarrow> HumidityAnalyzer" where
  "test_short_term_trend new_rate new_accel ha =
     (if \<not> measure_init ha
      then ha\<lparr>measure_init := True, rate_count := 0, long_term_rate := 0, humidity_rate := 0\<rparr>
      else if new_accel \<ge> ACCEL_THRESHOLD \<and> new_rate \<ge> 0
      then ha\<lparr>acc_state := ACCELERATION_RISING\<rparr>
      else if new_accel \<le> - ACCEL_THRESHOLD \<and> new_rate \<le> 0
      then ha\<lparr>acc_state := ACCELERATION_FALLING\<rparr>
      else ha\<lparr>acc_state := ACCELERATION_STABLE\<rparr>)"

definition test_finish_average :: "HumidityAnalyzer \<Rightarrow> HumidityAnalyzer option" where
  "test_finish_average ha =
     (let new_avg = cast16 (humidity_sum ha sdiv uint (humidity_count ha));
          ha = ha\<lparr>humidity_sum := 0, humidity_count := 0\<rparr>;
          new_rate = cast16 (new_avg - uint (avg_humidity ha));
          new_accel = cast16 (new_rate - humidity_rate ha);
          ha = ha\<lparr>avg_humidity := word_of_int new_avg, humidity_rate := new_rate,
                  acceleration := new_accel\<rparr> in
      do {
        long_term \<leftarrow> add32 (long_term_rate ha) new_rate;
        (let ha = ha\<lparr>long_term_rate := long_term, rate_count := rate_count ha + 1\<rparr> in
         Some (long_term_trend (test_short_term_trend new_rate new_accel ha)))
      })"

definition test_humidity_analyze :: "HumidityAnalyzer \<Rightarrow> int \<Rightarrow> HumidityAnalyzer option" where
  "test_humidity_analyze ha current_humidity =
     (let ha = ha\<lparr>growth_state := GROWTH_MEASURING, acc_state := ACCELERATION_MEASURING\<rparr> in
      do {
        total \<leftarrow> add32 (humidity_sum ha) current_humidity;
        (let ha = ha\<lparr>humidity_sum := total, humidity_count := humidity_count ha + 1\<rparr> in
         if unat (humidity_count ha) < AVERAGE_SAMPLING_S then Some ha else test_finish_average ha)
      })"

fun test_analyze_all :: "HumidityAnalyzer \<Rightarrow> int list \<Rightarrow> HumidityAnalyzer option" where
  "test_analyze_all ha [] = Some ha"
| "test_analyze_all ha (x # xs) = do { ha \<leftarrow> test_humidity_analyze ha x; test_analyze_all ha xs }"

text \<open>
  The two agree but for the acceleration's state; where that differs the average has not
  changed.
\<close>

definition same_analysis :: "HumidityAnalyzer \<Rightarrow> HumidityAnalyzer \<Rightarrow> bool" where
  "same_analysis a b \<longleftrightarrow>
     a\<lparr>acc_state := acc_state b\<rparr> = b \<and>
     (acc_state a \<noteq> acc_state b \<longrightarrow>
        acc_state a = ACCELERATION_STABLE \<and> humidity_rate a = 0 \<and> ACCEL_THRESHOLD \<le> \<bar>acceleration a\<bar>)"

lemma same_analysis_refl [simp]: "same_analysis a a"
  by (simp add: same_analysis_def)

lemma same_short_term_trend:
  "humidity_rate ha = new_rate \<Longrightarrow> acceleration ha = new_accel \<Longrightarrow>
   same_analysis (short_term_trend new_rate new_accel ha) (test_short_term_trend new_rate new_accel ha)"
  by (auto simp: same_analysis_def short_term_trend_def test_short_term_trend_def ACCEL_THRESHOLD_def)

lemma same_long_term_trend: "same_analysis a b \<Longrightarrow> same_analysis (long_term_trend a) (long_term_trend b)"
  unfolding same_analysis_def long_term_trend_def by (cases a; cases b) auto

lemma same_finish_average: "rel_option same_analysis (finish_average ha) (test_finish_average ha)"
proof -
  let ?avg = "cast16 (humidity_sum ha sdiv uint (humidity_count ha))"
  let ?rate = "cast16 (?avg - uint (avg_humidity ha))"
  show ?thesis
    by (cases "add32 (long_term_rate ha) ?rate")
      (auto simp: finish_average_def test_finish_average_def Let_def
        intro!: same_long_term_trend same_short_term_trend)
qed

lemma same_analyze:
  assumes "same_analysis a b"
  shows "rel_option same_analysis (analyze a x) (test_humidity_analyze b x)"
proof -
  let ?reset = "\<lambda>ha. ha\<lparr>growth_state := GROWTH_MEASURING, acc_state := ACCELERATION_MEASURING\<rparr>"
  have r: "?reset b = ?reset a" using assms by (cases a; cases b) (auto simp: same_analysis_def)
  have t: "test_humidity_analyze b x = test_humidity_analyze a x"
    by (simp only: test_humidity_analyze_def r)
  show ?thesis unfolding t unfolding analyze_def test_humidity_analyze_def Let_def
    by (cases "add32 (humidity_sum a) x") (simp_all add: same_finish_average)
qed

lemma same_analyze_all:
  "same_analysis a b \<Longrightarrow> rel_option same_analysis (analyze_all a xs) (test_analyze_all b xs)"
proof (induction xs arbitrary: a b)
  case (Cons x xs)
  show ?case using same_analyze [OF Cons.prems, of x] Cons.IH
    by (cases "analyze a x"; cases "test_humidity_analyze b x") auto
qed simp

text \<open>
  The run of the test: each sample 30 times, and the analyser printed after each average.  The
  growth is decided at the 21st, as the names of the series say.
\<close>

fun test_steps :: "HumidityAnalyzer \<Rightarrow> int list \<Rightarrow> HumidityAnalyzer list option" where
  "test_steps ha [] = Some []"
| "test_steps ha (x # xs) =
     do {
       ha \<leftarrow> test_analyze_all ha (replicate AVERAGE_SAMPLING_S x);
       rest \<leftarrow> test_steps ha xs;
       Some (ha # rest)
     }"

definition run_test :: "int list \<Rightarrow> HumidityAnalyzer list option" where
  "run_test = test_steps new_analyzer"

definition test_stable_before :: "int list" where
  "test_stable_before =
     [550, 550, 552, 551, 550, 553, 549, 551, 552, 550, 551,
      552, 553, 551, 550, 552, 550, 551, 550, 552, 553]"

definition test_rising :: "int list" where
  "test_rising =
     [554, 555, 560, 566, 570, 576, 582, 588, 595, 603, 610,
      615, 620, 625, 630, 635, 640, 645, 648, 650, 652, 653]"

definition test_falling :: "int list" where
  "test_falling =
     [650, 650, 645, 640, 635, 630, 625, 620, 615, 610, 605,
      600, 595, 590, 585, 580, 575, 570, 565, 560, 555, 555]"

lemma run_test_growth:
  "map_option (map growth_state) (run_test test_stable_before) = Some (replicate 20 GROWTH_MEASURING @ [GROWTH_STABLE])"
  "map_option (map growth_state) (run_test test_rising) =
     Some (replicate 20 GROWTH_MEASURING @ [GROWTH_RISING, GROWTH_MEASURING])"
  "map_option (map growth_state) (run_test test_falling) =
     Some (replicate 20 GROWTH_MEASURING @ [GROWTH_FALLING, GROWTH_MEASURING])"
  by code_simp+

text \<open>A jump of the average followed by a still one: the copy reports a falling acceleration.\<close>

lemma copies_differ:
  "let xs = concat (map (replicate AVERAGE_SAMPLING_S) [550, 550, 560, 560]) in
   map_option acc_state (analyze_all new_analyzer xs) = Some ACCELERATION_STABLE \<and>
   map_option acc_state (test_analyze_all new_analyzer xs) = Some ACCELERATION_FALLING"
  by code_simp

section \<open>Properties\<close>

text \<open>C27: The serial number \<open>get_serial_number\<close> prints is the one the unit test computes by
  shifting nibbles out of two 32-bit values, for every MAC address for which the test's own
  arithmetic is defined.\<close>

theorem serial_equals_reference:
  assumes "length mac = 6"
  shows "Get_SerialNum mac = (if mac ! 2 < 0x80 then Some (get_serial_number mac) else None)"
proof -
  obtain a b c d e f where mac: "mac = [a, b, c, d, e, f]"
    using assms by (auto simp: length_Suc_conv eval_nat_numeral)
  have s0: "0x1000000 + push_bit 8 (ucast a) + ucast b = four_bytes 1 0 a b"
    using four_bytes_sum [of 1 0 a b] by simp
  have "IntToUnicode (four_bytes 1 0 a b) 8 = [0x30, 0x31, 0x30, 0x30] @ hex_byte a @ hex_byte b"
    by (simp add: IntToUnicode_four_bytes hex_byte_def hex_digit_def)
  then have "IntToUnicode (four_bytes 1 0 a b) 8 = [0x30, 0x31, 0x30, 0x30, hex_digit (drop_bit 4 a),
      hex_digit (a AND 0xF), hex_digit (drop_bit 4 b), hex_digit (b AND 0xF)]"
    by (simp add: hex_byte_def)
  then show ?thesis
    by (auto simp: mac Get_SerialNum_def Let_def s0 four_bytes_sum IntToUnicode_four_bytes
        get_serial_number_def SERIAL_STR_LEN_def hex_byte_def not_le)
qed

theorem serial_equals_reference_witness:
  "Get_SerialNum [0x24, 0x6F, 0x28, 0xAB, 0xCD, 0xEF] = Some (get_serial_number [0x24, 0x6F, 0x28, 0xAB, 0xCD, 0xEF])"
  using serial_equals_reference [of "[0x24, 0x6F, 0x28, 0xAB, 0xCD, 0xEF]"] by simp

text \<open>C6: The copy of the analyser in its unit test gives what the analyser gives, whatever the
  samples: the same averages, differences and growth decisions; the acceleration's state can
  differ only where the average did not change, and there the analyser reports it stable.\<close>

theorem analyzer_copy_agrees:
  "rel_option same_analysis (analyze_all new_analyzer samples) (test_analyze_all new_analyzer samples)"
  by (simp add: same_analyze_all)

end
