(* ===== verification/Spec2Isabelle.thy ===== *)
theory Spec2Isabelle
  imports Bgcp_Properties Bgcp_Table_Map Bgcp_Codes Bgcp_Net Startup Pwm Hdc1080 St25dv_Ndef Udp_Comm Ota_Adapters Json_Roundtrip
    Udp_Client Flash_Memory Unit_Tests Driver_Tests Test_References
begin

text \<open>
  This development models the firmware of an ESP32 ventilation controller: a fan driven by
  humidity and motion, set up over buttons, a web interface, an NFC tag and the binary protocol
  BGCP.  The program is the set of ESP-IDF components under \<open>src/components\<close>; every theory names
  the files it models, and every definition keeps the name of the C function or type.

  The parts and how they interact.

  \<^item> \<open>components/event_manager\<close> connects the others: tasks, callbacks and the 1 ms timer put events
    into a queue of 20, one task takes them out and calls the handlers registered for them.
    \<open>Event_Manager\<close> has the registry (\<open>event_handler_registry\<close>, a list of 100 entries) and \<open>dispatch\<close>,
    the inner loop of \<open>event_manager_task\<close>; \<open>Event_Timer\<close> the 50 periodic slots and the timer's handler;
    \<open>Event_System\<close> the interleaving of the task, the timer and the callers as the step relation
    \<open>sys_step\<close> on the record \<open>event_system\<close>, whose fields are the static variables of the two files;
    the task's accesses to the registry (find an entry, compare its handler with null, load it, call
    what was loaded) are separate steps, between which the others may run;
    \<open>Event_Dispatch\<close> what holds of its runs: the invariant, first-in first-out, the end of every
    dispatch under interference, the handlers called, the one late call an unregistered handler may
    still get, and that the steps of the manager alone are \<open>dispatch\<close>.
  \<^item> \<open>components/bgcp\<close> is the protocol engine.  \<open>Bgcp_Param\<close> is the table of 15 parameters
    (\<open>bgcp_param_table.c\<close> and the binding functions of \<open>bgcp_data_descriptor.c\<close>), \<open>Bgcp_Queue\<close> the
    512-byte buffer of requests and responses (\<open>bgcp_queue.c\<close>), \<open>Bgcp_Handlers\<close> the parser's state and
    the handlers of each type (\<open>bgcp_data_descriptor.c\<close>), \<open>Bgcp_Parser\<close> the packet parser
    (\<open>bgcp_data_processor.c\<close>), \<open>Bgcp_Codes\<close> the numbers of the protocol with the debug tables, and
    \<open>Bgcp_Net\<close> the frame check of \<open>components/bgcp_net\<close>.  \<open>Bgcp_View\<close>, \<open>Bgcp_Safety\<close>, \<open>Bgcp_Roundtrip\<close>,
    \<open>Bgcp_Requests\<close> and \<open>Bgcp_Table_Map\<close> hold the lemmas: a handler depends on the bytes of its value
    only; a parse is memory safe; what the queue writes the parser reads back; what each
    request does to its parameter; the table is a finite map.  \<open>Bgcp_Properties\<close> has the properties.
  \<^item> \<open>components/humidity_controller\<close> (\<open>Humidity\<close>): the analyser of humidity growth and the fan's
    state machine, with the bounds that keep the 32-bit sums from overflowing.
  \<^item> \<open>components/device\<close> and \<open>device_memory\<close> (\<open>Device\<close>): the data of the device, the setters that check
    indices, strings, status bits and the non-volatile memory; \<open>Flash_Memory\<close> shows that what was
    committed is read back, over the documented laws of the library (name spaces, handles, what is
    set is stored at the commit).  \<open>Device_Gpio\<close>: the buttons, their debouncing and the inputs of
    \<open>components/device_gpio\<close>; \<open>Pwm\<close>: its PWM and converter.  \<open>Startup\<close>: what \<open>device_init\<close>, \<open>i2c_init\<close> and
    \<open>wifi_preinit\<close> set up, across the components they start.
  \<^item> \<open>components/device_i2c\<close> (\<open>I2c_Async\<close>, \<open>Hdc1080\<close>): the task that runs I2C requests with retries, and
    the humidity sensor on it.  \<open>components/ST25DV\<close> (\<open>St25dv\<close>, \<open>St25dv_Registers\<close>, \<open>St25dv_Ndef\<close>): the NFC
    tag on the same bus, its registers, and the NDEF messages on the tag.
  \<^item> \<open>components/device_network\<close>: UDP server and client with the echo, DNS and BGCP servers (\<open>Udp_Comm\<close>,
    \<open>Udp_Client\<close>, \<open>Dns_Server\<close>), and the JSON interface over HTTP (\<open>Json_Config\<close>, \<open>Json_Http\<close>,
    with the bytes of the device a post to each endpoint may change, which for the fields stored as \<open>int\<close>
    reach past their members of one byte; \<open>Json_Roundtrip\<close> shows that a get reports what was posted
    where the fields do not overlap).
  \<^item> \<open>components/wifi_service\<close> (\<open>Wifi_Service\<close>, whose lemmas follow the calls of the driver in a log) and \<open>components/device_ota\<close> (\<open>Ota_Update\<close>,
    and its sources and target in \<open>Ota_Adapters\<close>).
  \<^item> The unit tests of the components: \<open>Unit_Tests\<close> runs those that need no hardware on the model,
    \<open>Driver_Tests\<close> those of the tag and the transmitter's power on every device that keeps to its contract,
    \<open>Test_References\<close> compares the code with the reference code two of them carry.

  How state corresponds.  A C struct is a record, an enum a datatype, a \<open>uint8_t\<close> to \<open>uint64_t\<close> a word
  of its width; where the code relies on signed arithmetic the value is an integer and a result
  that leaves the type's range is written out.  Memory is a store of byte objects (\<open>Prelude\<close>); an
  access outside an object makes the operation \<open>None\<close>, so \<open>f x = Some y\<close> states memory safety as
  well as the result.  Static variables are a state record the operations take and return.

  Bounds and fuel.  \<open>dispatch\<close> has fuel 101, one more than the table has entries, and the counter of
  the loop grows by each entry (lemma \<open>dispatch_returns\<close>, and \<open>every_dispatch_ends\<close> without fuel); the
  fan is off after 3640 updates; \<open>ndef_read\<close> runs once per record on the tag; the parser, the
  update and the searches end by a measure on the bytes or entries left, with no fuel.  In an
  I2C wait, the argument \<open>n\<close> is the number of requests the task serves before the wait ends.

  Parameters.  What is not under \<open>src\<close> is an argument of the definitions that use it: the I2C
  driver and the chips on the bus (\<open>i2c_driver\<close>; \<open>eeprom_bus\<close> is an ideal memory chip, which takes no time
  to write and never fails), the levels of the pins, the functions of the non-volatile memory, of Wi-Fi and of
  the network interface, mbedTLS, the OTA functions, cJSON, the HTTP server, and the results of
  lwIP, one record for each round of a loop.  The queues of FreeRTOS are lists with their length
  as a bound.  A hypothesis about a parameter has an instance in the witness of its property.

  Not modelled, and why.
  \<^item> \<open>H/cJSON.c\<close> is a vendored library; the functions of \<open>wifi_sta.c\<close>, \<open>bgcp_socket.c\<close>, \<open>net_controller.c\<close>,
    \<open>tacho.c\<close> and \<open>atlant_paltform.c\<close> are commented out (the last one keeps unused constants and
    functions with an empty body); \<open>app_main.c\<close> and \<open>engine.c\<close> start nothing; the unit
    tests that are left need the running device.
  \<^item> Logging, and the code compiled only with \<open>BGCP_DEBUG\<close> except its tables.
  \<^item> The time a task waits, and preemption inside an operation outside \<open>event_manager\<close>: the timer's
    handler, a call of the event interface and a callback are single steps.
\<close>

end
